theory Spec2Isabelle
  imports Complex_Main
begin

section \<open>Python strings\<close>

text \<open>
  A Python \<open>str\<close> is modelled as a \<open>string\<close> whose characters are code points below 256
  (a \<open>char\<close> is the code point itself, not a UTF-8 byte). The helpers below are the
  \<open>str\<close> methods the script calls, on that range.
\<close>

definition isspace :: "char \<Rightarrow> bool" where
  \<comment> \<open>\<open>str.isspace\<close> on one character: TAB..CR, FS..US, space, NEL, NBSP.\<close>
  "isspace c = (let n = (of_char c :: nat)
                in (9 \<le> n \<and> n \<le> 13) \<or> (28 \<le> n \<and> n \<le> 32) \<or> n = 133 \<or> n = 160)"

definition strip :: "string \<Rightarrow> string" where
  \<comment> \<open>\<open>s.strip()\<close>\<close>
  "strip s = rev (dropWhile isspace (rev (dropWhile isspace s)))"

definition startswith :: "string \<Rightarrow> string \<Rightarrow> bool" where
  \<comment> \<open>\<open>s.startswith(p)\<close>\<close>
  "startswith s p = (take (length p) s = p)"

fun contains :: "string \<Rightarrow> string \<Rightarrow> bool" where
  \<comment> \<open>\<open>sub in s\<close>\<close>
  "contains sub [] = (sub = [])"
| "contains sub (c # cs) = (startswith (c # cs) sub \<or> contains sub cs)"

fun split_first :: "string \<Rightarrow> string \<Rightarrow> string" where
  \<comment> \<open>\<open>s.split(sep, 1)[0]\<close> for a non-empty \<open>sep\<close>: the text before the leftmost \<open>sep\<close>,
      all of \<open>s\<close> when there is none.\<close>
  "split_first sep [] = []"
| "split_first sep (c # cs) = (if startswith (c # cs) sep then [] else c # split_first sep cs)"

fun split_acc :: "string \<Rightarrow> string \<Rightarrow> string list" where
  "split_acc w [] = (if w = [] then [] else [w])"
| "split_acc w (c # cs) =
     (if isspace c then (if w = [] then split_acc [] cs else w # split_acc [] cs)
      else split_acc (w @ [c]) cs)"

definition split_ws :: "string \<Rightarrow> string list" where
  \<comment> \<open>\<open>s.split()\<close>: the maximal runs of non-whitespace.\<close>
  "split_ws s = split_acc [] s"

definition lower_char :: "char \<Rightarrow> char" where
  "lower_char c = (let n = (of_char c :: nat)
                   in if (65 \<le> n \<and> n \<le> 90) \<or> (192 \<le> n \<and> n \<le> 222 \<and> n \<noteq> 215)
                      then char_of (n + 32) else c)"

definition lower :: "string \<Rightarrow> string" where
  \<comment> \<open>\<open>s.lower()\<close>\<close>
  "lower s = map lower_char s"

fun join :: "string \<Rightarrow> string list \<Rightarrow> string" where
  \<comment> \<open>\<open>sep.join(xs)\<close>\<close>
  "join sep [] = []"
| "join sep [x] = x"
| "join sep (x # y # ys) = x @ sep @ join sep (y # ys)"

function str_nat :: "nat \<Rightarrow> string" where
  \<comment> \<open>\<open>str(n)\<close> for \<open>n \<ge> 0\<close>\<close>
  "str_nat n = (if n < 10 then [char_of (48 + n)] else str_nat (n div 10) @ [char_of (48 + n mod 10)])"
  by pat_completeness auto
termination
  by (relation "measure id") auto

declare str_nat.simps [simp del]

definition str_int :: "int \<Rightarrow> string" where
  "str_int i = (if i < 0 then ''-'' @ str_nat (nat (- i)) else str_nat (nat i))"

section \<open>Strategy generation (lines 130--175)\<close>

type_synonym strategy = "string list"

record config =
  var_platforms :: "string list"
  var_python_versions :: "string list"
  var_implementations :: "string list"
  var_binary_types :: "string list"
  DOWNLOAD_ALL_VERSIONS :: bool
  COPY_FIRST_SET_TO_PARENT_DIRECTORY :: bool

definition TARGET_PLATFORM_ALT :: string where
  "TARGET_PLATFORM_ALT = ''win_amd64''"

definition source_config :: config where
  \<comment> \<open>The values written in \<open>download_package_with_deps\<close>.\<close>
  "source_config = \<lparr>
     var_platforms = [''any'', TARGET_PLATFORM_ALT],
     var_python_versions = [''3.13'', ''3.12'', ''3.11'', ''3'', ''3.14'', ''3.15'', ''3.16''],
     var_implementations = [''cp'', ''py''],
     var_binary_types = [''--only-binary=:all:''],
     DOWNLOAD_ALL_VERSIONS = True,
     COPY_FIRST_SET_TO_PARENT_DIRECTORY = False \<rparr>"

definition abi_specific :: "string \<Rightarrow> string" where
  "abi_specific var_python_version =
     (if CHR ''.'' \<in> set var_python_version
        then ''cp'' @ filter (\<lambda>c. c \<noteq> CHR ''.'') var_python_version
      else if length var_python_version = 1
        then ''abi'' @ var_python_version
      else ''cp'' @ var_python_version)"

definition specific_abis :: "string \<Rightarrow> string list" where
  "specific_abis var_python_version = [''none'', abi_specific var_python_version]"

definition skip_combination :: "string \<Rightarrow> string \<Rightarrow> bool" where
  \<comment> \<open>line 163: \<open>var_implementation == 'py' and var_abi.startswith(('cp', 'abi'))\<close>\<close>
  "skip_combination var_implementation var_abi =
     (var_implementation = ''py'' \<and> (startswith var_abi ''cp'' \<or> startswith var_abi ''abi''))"

definition strategy_of :: "string \<Rightarrow> string \<Rightarrow> string \<Rightarrow> string \<Rightarrow> string \<Rightarrow> strategy" where
  "strategy_of var_platform var_python_version var_abi var_implementation var_binary_type =
     [''--platform'', var_platform, ''--python-version'', var_python_version,
      ''--abi'', var_abi, ''--implementation'', var_implementation, var_binary_type]"

definition download_strategies :: "config \<Rightarrow> strategy list" where
  \<comment> \<open>The nested loops of lines 144--171, each appending in order, then line 174.\<close>
  "download_strategies cfg =
     concat (map (\<lambda>var_platform.
       concat (map (\<lambda>var_python_version.
         concat (map (\<lambda>var_abi.
           concat (map (\<lambda>var_implementation.
             if skip_combination var_implementation var_abi then []
             else map (\<lambda>var_binary_type.
                    strategy_of var_platform var_python_version var_abi
                      var_implementation var_binary_type)
                    (var_binary_types cfg))
             (var_implementations cfg)))
           (specific_abis var_python_version)))
         (var_python_versions cfg)))
       (var_platforms cfg))
     @ [[]]"

section \<open>Reading the requirements file (lines 310--321)\<close>

fun universal_newlines :: "string \<Rightarrow> string" where
  \<comment> \<open>Text mode with the default \<open>newline=None\<close>: CR LF and CR are read as LF.\<close>
  "universal_newlines [] = []"
| "universal_newlines [c] = (if c = CHR 0x0D then [CHR 0x0A] else [c])"
| "universal_newlines (c # d # ds) =
     (if c = CHR 0x0D
        then (if d = CHR 0x0A then CHR 0x0A # universal_newlines ds
              else CHR 0x0A # universal_newlines (d # ds))
      else c # universal_newlines (d # ds))"

fun lines_acc :: "string \<Rightarrow> string \<Rightarrow> string list" where
  "lines_acc cur [] = (if cur = [] then [] else [cur])"
| "lines_acc cur (c # cs) =
     (if c = CHR 0x0A then (cur @ [c]) # lines_acc [] cs else lines_acc (cur @ [c]) cs)"

definition readlines :: "string \<Rightarrow> string list" where
  \<comment> \<open>\<open>f.readlines()\<close>: the lines, each with its terminating LF when it has one.\<close>
  "readlines text = lines_acc [] (universal_newlines text)"

fun read_loop :: "string list \<Rightarrow> string list \<Rightarrow> string list" where
  \<comment> \<open>The \<open>for line in lines\<close> loop; the second argument is \<open>valid_package_lines\<close>.\<close>
  "read_loop [] valid_package_lines = valid_package_lines"
| "read_loop (line # lines) valid_package_lines =
     (let package_spec = strip line in
      if package_spec = [] \<or> startswith package_spec ''#'' then read_loop lines valid_package_lines
      else
        let package_spec = (if contains '' #'' package_spec
                            then strip (split_first '' #'' package_spec) else package_spec) in
        if package_spec = [] then read_loop lines valid_package_lines
        else if startswith package_spec ''-'' \<or> startswith package_spec ''--''
          then read_loop lines valid_package_lines
        else read_loop lines (valid_package_lines @ [package_spec]))"

definition valid_package_lines_of :: "string \<Rightarrow> string list" where
  "valid_package_lines_of text = read_loop (readlines text) []"

text \<open>
  The filter as the specification words it, one raw line at a time: trim; drop an empty
  line; drop a line starting with the comment marker; cut at the inline comment marker and
  trim again; drop a line that is now empty; drop an option line.
\<close>

definition spec_line :: "string \<Rightarrow> string option" where
  "spec_line raw =
     (let t = strip raw in
      if t = [] then None
      else if hd t = CHR ''#'' then None
      else let u = strip (split_first '' #'' t) in
        if u = [] then None
        else if hd u = CHR ''-'' then None
        else Some u)"

definition spec_requirement_source :: "string list \<Rightarrow> string list" where
  "spec_requirement_source raw_lines = List.map_filter spec_line raw_lines"


definition example_requirements :: string where
  \<comment> \<open>The five-line list of the specification's end-to-end scenario, with an inline comment.\<close>
  "example_requirements =
     ''requests==2.31.0'' @ [CHR 0x0A] @ [CHR 0x0A] @ ''# a comment'' @ [CHR 0x0D, CHR 0x0A] @
     ''-r other.txt'' @ [CHR 0x0A] @ ''  flask #web  '' @ [CHR 0x0A]"

section \<open>The world outside the script\<close>

text \<open>
  The script talks to the file system, to \<open>pip\<close>, to a clock and to the logger. The
  world's answers are a parameter: \<open>responses n\<close> is what the world answers during the
  \<open>n\<close>-th call of \<open>run_pip_download_deps\<close> of the run. What the script does to the
  world is recorded, in program order, in \<open>effects\<close>; what it logs, in \<open>log_records\<close>.
  Interpolated values that are not modelled (exception texts, formatted floats, absolute
  paths) stay in a message as the placeholder the f-string has.

  A block that writes to the batch file either works, or raises \<open>IOError\<close> (caught by
  the block's \<open>except IOError\<close>; modelled as raised by \<open>open\<close>, so nothing is written), or
  raises \<open>UnicodeEncodeError\<close> in one of its \<open>f.write\<close> calls, when the default codec of
  \<open>open\<close> cannot encode an interpolated requirement or path. That error is a
  \<open>ValueError\<close>: no handler of the script catches it, and it ends the run. Which of
  these happens is the world's answer. The footer of lines 376--386 is constant ASCII
  text, so it has the first two outcomes only. Asynchronous exceptions
  (\<open>KeyboardInterrupt\<close>, \<open>MemoryError\<close>) and a working directory deleted under the run are
  outside the model. The promotion copy is one effect: the files it copies are the world's
  answer, and a copy that fails is recorded as copying nothing.
\<close>

datatype level = DEBUG | INFO | WARNING | ERROR

type_synonym log_record = "level \<times> nat \<times> string"  \<comment> \<open>\<open>levelname\<close>, \<open>lineno\<close>, message\<close>

datatype run_result =
    CompletedProcess int string string  \<comment> \<open>\<open>returncode\<close>, \<open>stdout\<close>, \<open>stderr\<close>\<close>
  | FileNotFoundError
  | OtherException

datatype copy_result =
    Copied "string list"  \<comment> \<open>the regular files of the source directory, all copied\<close>
  | Not_a_directory
  | Copy_failed

datatype write_answer =
    Writes_ok
  | Raises_IOError
  | Raises_UnicodeEncodeError nat  \<comment> \<open>the \<open>f.write\<close> calls of the block completed before the one that raises\<close>

record response =
  makedirs_ok :: bool  \<comment> \<open>\<open>os.makedirs(package_subdir)\<close> does not raise \<open>OSError\<close>\<close>
  run :: run_result  \<comment> \<open>what \<open>subprocess.run\<close> does\<close>
  elapsed :: real  \<comment> \<open>the difference of the two \<open>perf_counter\<close> readings\<close>
  bat_append :: write_answer  \<comment> \<open>what the block of lines 228--233 meets\<close>
  copy :: copy_result  \<comment> \<open>what the copy of lines 241--252 finds\<close>

type_synonym world = "nat \<Rightarrow> response"

datatype effect =
    Makedirs string
  | Subprocess_run "string list"
  | Open_bat string bool  \<comment> \<open>mode, and whether the file could be opened\<close>
  | Write_bat string
  | Copy_first_set string string "string list"  \<comment> \<open>source, destination, files copied\<close>

record state =
  pip_call_times :: "real list"
  log_records :: "log_record list"
  verbose :: bool
  effects :: "effect list"
  calls :: nat  \<comment> \<open>calls of \<open>run_pip_download_deps\<close> so far: the index into the world\<close>
  generated :: "strategy list list"  \<comment> \<open>the strategy lists built so far (lines 142--174), one per execution\<close>

definition logging :: "level \<Rightarrow> nat \<Rightarrow> string \<Rightarrow> state \<Rightarrow> state" where
  \<comment> \<open>The root logger: level INFO, or DEBUG with \<open>--verbose\<close>. The number is the source
      line of the logging call, the \<open>lineno\<close> of the record.\<close>
  "logging lvl lineno msg st =
     (if lvl = DEBUG \<and> \<not> verbose st then st
      else st\<lparr>log_records := log_records st @ [(lvl, lineno, msg)]\<rparr>)"

definition perform :: "effect \<Rightarrow> state \<Rightarrow> state" where
  "perform e st = st\<lparr>effects := effects st @ [e]\<rparr>"

definition pip_call_times_append :: "real \<Rightarrow> state \<Rightarrow> state" where
  \<comment> \<open>line 103: \<open>pip_call_times.append(elapsed_pip)\<close>\<close>
  "pip_call_times_append t st = st\<lparr>pip_call_times := pip_call_times st @ [t]\<rparr>"

definition next_call :: "state \<Rightarrow> state" where
  \<comment> \<open>the world's answer to this call has been taken\<close>
  "next_call st = st\<lparr>calls := Suc (calls st)\<rparr>"

definition note_generated :: "strategy list \<Rightarrow> state \<Rightarrow> state" where
  \<comment> \<open>a strategy list has been built\<close>
  "note_generated strategies st = st\<lparr>generated := generated st @ [strategies]\<rparr>"

definition squote :: string where "squote = [CHR 0x27]"
definition dquote :: string where "dquote = [CHR 0x22]"
definition backslash :: string where "backslash = [CHR 0x5C]"
definition newline :: string where "newline = [CHR 0x0A]"

section \<open>Paths and names\<close>

definition safe_name_char :: "char \<Rightarrow> bool" where
  \<comment> \<open>the class \<open>[a-zA-Z0-9_-]\<close>\<close>
  "safe_name_char c =
     (c \<in> set (''abcdefghijklmnopqrstuvwxyz'' @ ''ABCDEFGHIJKLMNOPQRSTUVWXYZ'' @ ''0123456789'' @ ''_-''))"

definition sanitize :: "string \<Rightarrow> string" where
  \<comment> \<open>\<open>re.sub(r'[^a-zA-Z0-9_-]', '', name)\<close>\<close>
  "sanitize name = filter safe_name_char name"

definition os_path_join :: "string \<Rightarrow> string \<Rightarrow> string" where
  \<comment> \<open>\<open>posixpath.join\<close> of two components\<close>
  "os_path_join a b =
     (if startswith b ''/'' then b
      else if a = [] \<or> last a = CHR ''/'' then a @ b
      else a @ ''/'' @ b)"

definition name_only :: "string \<Rightarrow> string" where
  \<comment> \<open>line 123: \<open>re.split(r'[<>=!~]', package_spec)[0].strip()\<close>\<close>
  "name_only package_spec = strip (takeWhile (\<lambda>c. c \<notin> set ''<>=!~'') package_spec)"

definition shlex_safe_char :: "char \<Rightarrow> bool" where
  "shlex_safe_char c = (safe_name_char c \<or> c \<in> set ''@%+=:,./'')"

definition shlex_quote :: "string \<Rightarrow> string" where
  "shlex_quote s =
     (if s = [] then squote @ squote
      else if list_all shlex_safe_char s then s
      else squote @ concat (map (\<lambda>c. if c = CHR 0x27 then squote @ dquote @ squote @ dquote @ squote
                                        else [c]) s) @ squote)"

section \<open>\<open>run_pip_download_deps\<close> (lines 28--106)\<close>

definition succeeded :: "run_result \<Rightarrow> bool" where
  "succeeded r = (case r of CompletedProcess returncode out err \<Rightarrow> returncode = 0 | _ \<Rightarrow> False)"

definition after_run_record :: "run_result \<Rightarrow> string \<Rightarrow> string \<Rightarrow> log_record" where
  \<comment> \<open>lines 79--99: the record logged for each way \<open>subprocess.run\<close> can end\<close>
  "after_run_record r attempt_desc package_spec =
     (case r of
        CompletedProcess returncode out err \<Rightarrow>
          if returncode = 0 then
            (DEBUG, 80, ''    Pip exited cleanly for '' @ attempt_desc @ '' (Spec: '' @ package_spec @ '').'')
          else
            let log_prefix = ''    Pip command failed for '' @ attempt_desc @ '' (Spec: '' @ package_spec @ '')'';
                log_suffix = ''(Return Code: '' @ str_int returncode @ '').'';
                stderr_msg = (if err \<noteq> [] then map (\<lambda>c. if c = CHR 0x0A then CHR '' '' else c) (strip err)
                              else ''(No stderr output)'');
                stdout_msg = (if out \<noteq> [] then newline @ ''    Pip stdout (on error):'' @ newline @ strip out
                              else [])
            in (WARNING, 89, log_prefix @ '' '' @ log_suffix @ '' Stderr: '' @ stderr_msg @ stdout_msg)
      | FileNotFoundError \<Rightarrow>
          (ERROR, 92, ''    ERROR: Cannot find '' @ squote @ ''pip'' @ squote @
                      ''. Is Python installed correctly and in PATH? ('' @ attempt_desc @ '')'')
      | OtherException \<Rightarrow>
          (ERROR, 98, ''    ERROR: An unexpected error occurred during pip execution for '' @
                      attempt_desc @ '' (Spec: '' @ package_spec @ ''): {e}''))"

definition after_run :: "run_result \<Rightarrow> string \<Rightarrow> string \<Rightarrow> state \<Rightarrow> state" where
  "after_run r attempt_desc package_spec st =
     (case after_run_record r attempt_desc package_spec of
        (lvl, lineno, msg) \<Rightarrow> logging lvl lineno msg st)"

definition run_pip_download_deps ::
  "world \<Rightarrow> string \<Rightarrow> string \<Rightarrow> string \<Rightarrow> string \<Rightarrow> strategy \<Rightarrow> state \<Rightarrow> bool \<times> state" where
  "run_pip_download_deps w package_spec original_package_name download_dir attempt_desc extra_args st0 =
     (let r = w (calls st0);
          st = next_call st0;
          sanitized_package_name = sanitize original_package_name;
          package_subdir = os_path_join download_dir sanitized_package_name;
          st = perform (Makedirs package_subdir) st
      in if \<not> makedirs_ok r then
           (False, logging ERROR 59 (''    Failed to create subdirectory '' @ package_subdir @ '': {e}'') st)
         else
           let st = logging DEBUG 57 (''    Ensured subdirectory exists: '' @ package_subdir) st;
               base_command = [''pip'', ''download'', ''--dest'', package_subdir,
                               ''--disable-pip-version-check''];
               package_spec_list = split_ws package_spec;
               command = base_command @ extra_args @ package_spec_list;
               st = logging DEBUG 72 (''    Full command ('' @ attempt_desc @ ''): '' @
                                   join '' '' (map shlex_quote command)) st;
               st = perform (Subprocess_run command) st;
               st = after_run (run r) attempt_desc package_spec st;
               success = succeeded (run r);
               elapsed_pip = elapsed r;
               st = pip_call_times_append elapsed_pip st;
               st = logging DEBUG 104 (''    Pip call duration for '' @ attempt_desc @
                                   '': {elapsed_pip:.4f} seconds'') st
           in (success, st))"

section \<open>\<open>download_package_with_deps\<close> (lines 110--269)\<close>

record loop_vars =
  attempt :: nat
  attempt_success_count :: nat
  download_success :: bool

definition known_dependencies :: "string \<rightharpoonup> string" where
  "known_dependencies = [''pyautogui'' \<mapsto> ''pyautogui setuptools wheel'']"

definition strategy_desc :: "strategy \<Rightarrow> string" where
  "strategy_desc strategy = (if strategy \<noteq> [] then join '' '' strategy else ''Current Env / Default'')"

definition install_instruction :: "string \<Rightarrow> string \<Rightarrow> string list" where
  \<comment> \<open>the two \<open>f.write\<close> calls of lines 230--231\<close>
  "install_instruction package_spec package_subdir_path =
     [''REM Install '' @ squote @ package_spec @ squote @ '' (Original requirement)'' @ newline,
      ''pip install --no-index --find-links '' @ dquote @ ''.'' @ backslash @ package_subdir_path @
        dquote @ '' '' @ dquote @ package_spec @ dquote @ newline @ newline]"

definition write_all :: "string list \<Rightarrow> state \<Rightarrow> state" where
  "write_all texts st = st\<lparr>effects := effects st @ map Write_bat texts\<rparr>"

definition copy_first_set :: "response \<Rightarrow> string \<Rightarrow> string \<Rightarrow> string \<Rightarrow> state \<Rightarrow> state" where
  \<comment> \<open>lines 238--252\<close>
  "copy_first_set r package_progress_str src_dir dst_dir st0 =
     (let st = logging INFO 240 (''    '' @ package_progress_str @
                 '' Copying wheels from first successful attempt ('' @ src_dir @ '') to base ('' @
                 dst_dir @ '')...'') st0
      in case copy r of
           Copied item_names \<Rightarrow>
             perform (Copy_first_set src_dir dst_dir item_names)
               (fold (\<lambda>item_name. logging DEBUG 247 (''      Copying '' @ os_path_join src_dir item_name @
                                      '' to '' @ os_path_join dst_dir item_name)) item_names st)
         | Not_a_directory \<Rightarrow>
             logging WARNING 250 (''    '' @ package_progress_str @
               '' Source directory for copying not found or not a directory: '' @ src_dir)
               (perform (Copy_first_set src_dir dst_dir []) st)
         | Copy_failed \<Rightarrow>
             logging ERROR 252 (''    '' @ package_progress_str @ '' Error copying files from '' @ src_dir @
               '' to '' @ dst_dir @ '': {copy_err}'')
               (perform (Copy_first_set src_dir dst_dir []) st))"

definition written_before :: "nat \<Rightarrow> string list \<Rightarrow> string list" where
  \<comment> \<open>the texts written before the \<open>f.write\<close> that raises: one write of the block raises,
      so at most all but the last are completed\<close>
  "written_before k texts = take (min k (length texts - 1)) texts"

definition first_success_actions ::
  "config \<Rightarrow> response \<Rightarrow> string \<Rightarrow> string \<Rightarrow> string \<Rightarrow> string \<Rightarrow> state \<Rightarrow> bool \<times> state" where
  \<comment> \<open>lines 224--252, the body of \<open>if attempt_success_count == 1\<close>; the first component is
      whether a \<open>UnicodeEncodeError\<close> leaves the block\<close>
  "first_success_actions cfg r package_spec download_dir package_progress_str
       original_package_name_only st0 =
     (let sanitized_original_package_name = sanitize original_package_name_only;
          package_subdir_path = os_path_join download_dir sanitized_original_package_name;
          instruction = install_instruction package_spec package_subdir_path;
          copy_if_requested = (\<lambda>st. if COPY_FIRST_SET_TO_PARENT_DIRECTORY cfg
             then copy_first_set r package_progress_str package_subdir_path download_dir st
             else st)
      in case bat_append r of
           Writes_ok \<Rightarrow>
             (False, copy_if_requested (write_all instruction (perform (Open_bat ''a'' True) st0)))
         | Raises_IOError \<Rightarrow>
             (False, copy_if_requested
                (logging ERROR 233 (''    Failed to write install instruction for '' @ package_spec @ '': {e}'')
                   (perform (Open_bat ''a'' False) st0)))
         | Raises_UnicodeEncodeError k \<Rightarrow>
             (True, write_all (written_before k instruction) (perform (Open_bat ''a'' True) st0)))"

datatype flow = Continue | Break | Raise

definition attempt_body ::
  "config \<Rightarrow> world \<Rightarrow> string \<Rightarrow> string \<Rightarrow> string \<Rightarrow> string \<Rightarrow> nat \<Rightarrow> strategy \<Rightarrow>
   loop_vars \<Rightarrow> state \<Rightarrow> (loop_vars \<times> state) \<times> flow" where
  \<comment> \<open>lines 194--260, one pass of the loop body; the last component is how the pass ends:
      it falls through to the next strategy, it ends in \<open>break\<close>, or an exception leaves it\<close>
  "attempt_body cfg w package_spec download_dir package_progress_str original_package_name_only
       total_attempts strategy v0 st0 =
     (let v = v0\<lparr>attempt := attempt v0 + 1\<rparr>;
          attempt_progress_str = ''['' @ str_nat (attempt v) @ ''/'' @ str_nat total_attempts @ '']'';
          st = logging INFO 198 (''  '' @ package_progress_str @ '' Attempt '' @ attempt_progress_str @
                 '': Strategy = '' @ strategy_desc strategy) st0;
          spec_for_pip = (case known_dependencies (lower original_package_name_only) of
                            Some d \<Rightarrow> d | None \<Rightarrow> package_spec);
          detailed_attempt_desc = package_progress_str @ '' Pkg: '' @ original_package_name_only @
                                  '' - Attempt '' @ attempt_progress_str;
          r = w (calls st);
          (success, st) = run_pip_download_deps w spec_for_pip original_package_name_only download_dir
                            detailed_attempt_desc strategy st
      in if success then
           let v = v\<lparr>attempt_success_count := attempt_success_count v + 1\<rparr>;
               st = logging INFO 219 (''    '' @ package_progress_str @ '' Attempt '' @ attempt_progress_str @
                      '' SUCCEEDED for spec '' @ squote @ spec_for_pip @ squote @ '' with strategy: '' @
                      strategy_desc strategy) st;
               v = v\<lparr>download_success := True\<rparr>;
               (raised, st) = (if attempt_success_count v = 1
                     then first_success_actions cfg r package_spec download_dir package_progress_str
                            original_package_name_only st
                     else (False, st))
           in if raised then ((v, st), Raise)
              else if \<not> DOWNLOAD_ALL_VERSIONS cfg then
                ((v, logging INFO 256 (''  '' @ package_progress_str @ '' First successful download achieved for '' @
                                   original_package_name_only @ ''. Stopping attempts.'') st), Break)
              else ((v, st), Continue)
         else
           ((v, logging WARNING 260 (''    '' @ package_progress_str @ '' Attempt '' @ attempt_progress_str @
                   '' FAILED for spec '' @ squote @ spec_for_pip @ squote @ '' with strategy: '' @
                   strategy_desc strategy) st), Continue))"

fun strategy_loop ::
  "config \<Rightarrow> world \<Rightarrow> string \<Rightarrow> string \<Rightarrow> string \<Rightarrow> string \<Rightarrow> nat \<Rightarrow> strategy list \<Rightarrow>
   loop_vars \<Rightarrow> state \<Rightarrow> (loop_vars \<times> state) \<times> bool" where
  \<comment> \<open>the \<open>for strategy in download_strategies\<close> loop of line 191; the last component is
      whether an exception leaves the loop\<close>
  "strategy_loop cfg w package_spec download_dir package_progress_str name total_attempts [] v st =
     ((v, st), False)"
| "strategy_loop cfg w package_spec download_dir package_progress_str name total_attempts
       (strategy # rest) v st =
     (if \<not> download_success v \<or> DOWNLOAD_ALL_VERSIONS cfg then
        (case attempt_body cfg w package_spec download_dir package_progress_str name total_attempts
                strategy v st of
           ((v', st'), how) \<Rightarrow>
             (case how of
                Continue \<Rightarrow> strategy_loop cfg w package_spec download_dir package_progress_str name
                              total_attempts rest v' st'
              | Break \<Rightarrow> ((v', st'), False)
              | Raise \<Rightarrow> ((v', st'), True)))
      else strategy_loop cfg w package_spec download_dir package_progress_str name total_attempts
             rest v st)"

definition download_package_with_deps ::
  "config \<Rightarrow> world \<Rightarrow> string \<Rightarrow> string \<Rightarrow> string \<Rightarrow> state \<Rightarrow> bool option \<times> state" where
  \<comment> \<open>the first component is the value returned, \<open>None\<close> when an exception leaves the
      function instead\<close>
  "download_package_with_deps cfg w package_spec download_dir package_progress_str st0 =
     (let original_package_name_only = name_only package_spec;
          st = logging INFO 124 (''Processing '' @ package_progress_str @ '': ['' @ original_package_name_only @
                 ''] (Full spec: '' @ package_spec @ '')'') st0;
          strategies = download_strategies cfg;
          st = note_generated strategies st;
          total_attempts = length strategies;
          ((v, st), raised) = strategy_loop cfg w package_spec download_dir package_progress_str
                      original_package_name_only total_attempts strategies
                      \<lparr>attempt = 0, attempt_success_count = 0, download_success = False\<rparr> st
      in if raised then (None, st)
         else
           (Some (download_success v),
            if download_success v
            then logging INFO 265 (''Successfully downloaded artifacts for '' @ package_progress_str @ '' ['' @
                   original_package_name_only @ ''] in '' @ str_nat (attempt_success_count v) @
                   '' attempt(s).'') st
            else logging ERROR 267 (''FAILED to download any suitable artifacts for '' @ package_progress_str @
                   '' ['' @ original_package_name_only @ ''] after '' @ str_nat total_attempts @
                   '' attempts.'') st))"

section \<open>\<open>main\<close> (lines 273--431)\<close>

text \<open>
  \<open>main\<close> is modelled from the point where the command line has been parsed: its
  arguments are the three parsed options.
\<close>

datatype read_result =
    Read_ok string  \<comment> \<open>the decoded text of the file\<close>
  | Read_IOError
  | Read_UnicodeDecodeError  \<comment> \<open>not an \<open>IOError\<close>: nothing in \<open>main\<close> catches it\<close>

record run_env =
  isfile_requirements :: bool  \<comment> \<open>\<open>os.path.isfile(requirements_file)\<close>\<close>
  makedirs_root_ok :: bool  \<comment> \<open>the \<open>try\<close> block of lines 301--304 does not raise \<open>OSError\<close>\<close>
  read_requirements :: read_result
  bat_init :: write_answer  \<comment> \<open>what the block of lines 337--357 meets\<close>
  responses :: world
  bat_final_ok :: bool  \<comment> \<open>opening the batch file for the footer does not raise \<open>IOError\<close>\<close>

datatype uncaught = UnicodeDecodeError | UnicodeEncodeError

datatype ending =
    Sys_exit int
  | Uncaught_exception uncaught
  | Returned

definition exit_status :: "ending \<Rightarrow> int" where
  \<comment> \<open>the status of the process: an uncaught exception ends the interpreter with status 1\<close>
  "exit_status e = (case e of Sys_exit n \<Rightarrow> n | Uncaught_exception x \<Rightarrow> 1 | Returned \<Rightarrow> 0)"

definition initial_state :: state where
  "initial_state = \<lparr>pip_call_times = [], log_records = [], verbose = False, effects = [],
                     calls = 0, generated = []\<rparr>"

definition bat_header :: "string list" where
  \<comment> \<open>the writes of lines 339--355\<close>
  "bat_header =
     [''@echo off'' @ newline,
      ''REM Auto-generated batch file for offline installation'' @ newline,
      ''REM Base wheel directory: {os.path.abspath(download_dir)}'' @ newline,
      ''echo.'' @ newline,
      ''REM --- Optional: Create and activate a virtual environment --- '' @ newline,
      ''REM python -m venv my_offline_env'' @ newline,
      ''REM call my_offline_env'' @ backslash @ ''Scripts'' @ backslash @ ''activate'' @ newline,
      ''echo.'' @ newline,
      ''echo Checking pip version and compatible tags...'' @ newline,
      ''pip --version'' @ newline,
      ''pip debug --verbose'' @ newline,
      ''echo.'' @ newline,
      ''echo Listing packages before installation...'' @ newline,
      ''pip list'' @ newline,
      ''echo ============================================================'' @ newline,
      ''echo Starting installations...'' @ newline,
      ''echo.'' @ newline]"

definition bat_footer :: "string list" where
  \<comment> \<open>the writes of lines 376--386\<close>
  "bat_footer =
     [''echo.'' @ newline,
      ''echo ============================================================'' @ newline,
      ''echo Installation commands executed.'' @ newline,
      ''echo Listing packages after installation...'' @ newline,
      ''pip list'' @ newline,
      ''echo ============================================================'' @ newline,
      ''REM --- Optional: Deactivate virtual environment ---'' @ newline,
      ''REM call deactivate'' @ newline,
      ''echo.'' @ newline,
      ''echo Script finished. Closing in 500 seconds...'' @ newline,
      ''timeout /t 500 /nobreak > nul'' @ newline]"

definition rule_line :: string where
  "rule_line = ''==================================================================''"

fun package_loop ::
  "config \<Rightarrow> world \<Rightarrow> string \<Rightarrow> nat \<Rightarrow> string list \<Rightarrow> nat \<times> string list \<times> string list \<Rightarrow> state \<Rightarrow>
   ((nat \<times> string list \<times> string list) \<times> state) \<times> bool" where
  \<comment> \<open>the \<open>for package_spec in valid_package_lines\<close> loop of line 361; the accumulator is
      \<open>processed_count\<close>, \<open>successful_packages\<close>, \<open>failed_packages\<close>; the last component is
      whether an exception leaves the loop\<close>
  "package_loop cfg w download_dir total_packages_to_process [] acc st = ((acc, st), False)"
| "package_loop cfg w download_dir total_packages_to_process (package_spec # rest)
       (processed_count, successful_packages, failed_packages) st0 =
     (let processed_count = processed_count + 1;
          package_progress_str = ''['' @ str_nat processed_count @ ''/'' @
                                 str_nat total_packages_to_process @ '']'';
          (returned, st) = download_package_with_deps cfg w package_spec download_dir
                             package_progress_str st0
      in case returned of
           None \<Rightarrow> (((processed_count, successful_packages, failed_packages), st), True)
         | Some ok \<Rightarrow>
             let successful_packages = (if ok then successful_packages @ [package_spec]
                                        else successful_packages);
                 failed_packages = (if ok then failed_packages else failed_packages @ [package_spec]);
                 st = logging INFO 371 ''------------------------------------------------------------------'' st
             in package_loop cfg w download_dir total_packages_to_process rest
                  (processed_count, successful_packages, failed_packages) st)"

definition final_summary :: "string \<Rightarrow> nat \<Rightarrow> nat \<Rightarrow> string list \<Rightarrow> string list \<Rightarrow> state \<Rightarrow> state" where
  \<comment> \<open>lines 392--404\<close>
  "final_summary requirements_file processed_count total_packages_to_process successful_packages
       failed_packages st0 =
     (let st = logging INFO 392 rule_line st0;
          st = logging INFO 393 ''Offline dependency download process finished.'' st;
          st = logging INFO 394 (''Processed '' @ str_nat processed_count @ ''/'' @
                 str_nat total_packages_to_process @ '' top-level requirements from '' @ squote @
                 requirements_file @ squote @ ''.'') st;
          st = logging INFO 395 (str_nat (length successful_packages) @
                 '' packages had at least one successful download strategy.'') st;
          st = (if failed_packages \<noteq> [] then
                  let st = logging WARNING 398 (''FAILED to download any suitable artifacts for '' @
                             str_nat (length failed_packages) @ '' packages after all attempts:'') st;
                      st = fold (\<lambda>pkg. logging WARNING 400 (''  - '' @ pkg)) failed_packages st
                  in logging WARNING 401 ''Offline installation will likely fail for these packages.'' st
                else st);
          st = logging INFO 403
                 ''Downloaded wheels are organized in subdirectories within: {os.path.abspath(download_dir)}'' st
      in logging INFO 404 (''Review '' @ squote @ ''installation-instructions.bat'' @ squote @
                       '' for offline installation steps.'') st)"

definition timing_statistics :: "state \<Rightarrow> state" where
  \<comment> \<open>lines 407--431\<close>
  "timing_statistics st0 =
     (let st = (if pip_call_times st0 \<noteq> [] then
                  let st = logging INFO 413 ''--- Pip Download Timing Statistics ---'' st0;
                      st = logging INFO 414 (''  Total pip download calls: '' @
                             str_nat (length (pip_call_times st0))) st;
                      st = logging INFO 415 ''  Total time in pip calls: {total_time_pip:.2f} seconds'' st;
                      st = logging INFO 416 ''  Minimum time per call:   {min_time:.4f} seconds'' st;
                      st = logging INFO 417 ''  Maximum time per call:   {max_time:.4f} seconds'' st
                  in logging INFO 418 ''  Average time per call:   {avg_time:.4f} seconds'' st
                else logging INFO 420 ''--- No pip download calls were recorded. ---'' st0)
      in logging INFO 431 (newline @ ''--- Script finished in: {minutes} minutes and {seconds:.2f} seconds ---'') st)"

definition process_packages_and_report ::
  "config \<Rightarrow> run_env \<Rightarrow> string \<Rightarrow> string \<Rightarrow> string list \<Rightarrow> state \<Rightarrow> ending \<times> state" where
  \<comment> \<open>lines 360--431, once the header block of the batch file is behind\<close>
  "process_packages_and_report cfg env requirements_file download_dir valid_package_lines st0 =
     (let total_packages_to_process = length valid_package_lines;
          (((processed_count, successful_packages, failed_packages), st), raised) =
             package_loop cfg (responses env) download_dir total_packages_to_process
               valid_package_lines (0, [], []) st0
      in if raised then (Uncaught_exception UnicodeEncodeError, st)
         else
           let st = (if bat_final_ok env then write_all bat_footer (perform (Open_bat ''a'' True) st)
                     else logging ERROR 388 ''Failed to finalize installation-instructions.bat: {e}''
                            (perform (Open_bat ''a'' False) st));
               st = final_summary requirements_file processed_count total_packages_to_process
                      successful_packages failed_packages st
           in (Returned, timing_statistics st))"

definition process_and_report ::
  "config \<Rightarrow> run_env \<Rightarrow> string \<Rightarrow> string \<Rightarrow> string list \<Rightarrow> state \<Rightarrow> ending \<times> state" where
  \<comment> \<open>lines 326--431, once \<open>valid_package_lines\<close> has been read\<close>
  "process_and_report cfg env requirements_file download_dir valid_package_lines st0 =
     (let total_packages_to_process = length valid_package_lines;
          st = (if total_packages_to_process = 0
                then logging WARNING 328 (''No valid package specifications found in '' @ requirements_file @ ''.'') st0
                else st0);
          st = logging INFO 332 (''Found '' @ str_nat total_packages_to_process @ '' packages to process in '' @
                 squote @ requirements_file @ squote @ ''.'') st;
          st = logging INFO 333 ''Starting offline dependency download...'' st;
          st = logging INFO 334 rule_line st
      in case bat_init env of
           Writes_ok \<Rightarrow>
             process_packages_and_report cfg env requirements_file download_dir valid_package_lines
               (write_all bat_header (perform (Open_bat ''w'' True) st))
         | Raises_IOError \<Rightarrow>
             process_packages_and_report cfg env requirements_file download_dir valid_package_lines
               (logging ERROR 357 ''Failed to write initial installation-instructions.bat: {e}''
                  (perform (Open_bat ''w'' False) st))
         | Raises_UnicodeEncodeError k \<Rightarrow>
             (Uncaught_exception UnicodeEncodeError,
              write_all (written_before k bat_header) (perform (Open_bat ''w'' True) st)))"

definition main :: "config \<Rightarrow> run_env \<Rightarrow> string \<Rightarrow> string \<Rightarrow> bool \<Rightarrow> ending \<times> state" where
  "main cfg env requirements_file download_dir verbose_arg =
     (let st = initial_state\<lparr>verbose := verbose_arg\<rparr>;
          st = (if verbose_arg then logging DEBUG 289 ''Debug logging enabled.'' st else st)
      in if \<not> isfile_requirements env then
           (Sys_exit 1, logging ERROR 299 (''Requirements file not found: '' @ requirements_file) st)
         else
           let st = perform (Makedirs download_dir) st
           in if \<not> makedirs_root_ok env then
                (Sys_exit 1, logging ERROR 306 (''Failed to create base directory '' @ download_dir @ '': {e}'') st)
              else
                let st = logging INFO 304 ''Using base download directory: {os.path.abspath(download_dir)}'' st
                in case read_requirements env of
                     Read_IOError \<Rightarrow>
                       (Sys_exit 1, logging ERROR 323 (''Failed to read requirements file '' @
                                                   requirements_file @ '': {e}'') st)
                   | Read_UnicodeDecodeError \<Rightarrow> (Uncaught_exception UnicodeDecodeError, st)
                   | Read_ok text \<Rightarrow>
                       process_and_report cfg env requirements_file download_dir
                         (valid_package_lines_of text) st)"

section \<open>Reading a run\<close>

text \<open>
  What the claims speak of, read off the state. An attempt's outcome is the record logged
  at line 219 (succeeded) or 260 (failed); its duration is the entry appended to
  \<open>pip_call_times\<close> at line 103; the install-instruction record is the append to the batch
  file of lines 229--231; the promotion copy is the block of lines 238--252.
\<close>

definition attempt_ok :: "response \<Rightarrow> bool" where
  \<comment> \<open>the value \<open>run_pip_download_deps\<close> returns when the world answers \<open>r\<close>\<close>
  "attempt_ok r = (makedirs_ok r \<and> succeeded (run r))"

definition outcomes :: "world \<Rightarrow> nat \<Rightarrow> nat \<Rightarrow> bool list" where
  \<comment> \<open>the results of \<open>n\<close> consecutive attempts, the first of which is call number \<open>base\<close>\<close>
  "outcomes w base n = map (\<lambda>k. attempt_ok (w (base + k))) [0..<n]"

definition new_effects :: "state \<Rightarrow> state \<Rightarrow> effect list" where
  "new_effects st st' = drop (length (effects st)) (effects st')"

definition new_log :: "state \<Rightarrow> state \<Rightarrow> log_record list" where
  "new_log st st' = drop (length (log_records st)) (log_records st')"

definition new_times :: "state \<Rightarrow> state \<Rightarrow> real list" where
  "new_times st st' = drop (length (pip_call_times st)) (pip_call_times st')"

definition records_at :: "nat list \<Rightarrow> log_record list \<Rightarrow> log_record list" where
  "records_at linenos recs = filter (\<lambda>(lvl, lineno, msg). lineno \<in> set linenos) recs"

definition severe :: "log_record list \<Rightarrow> log_record list" where
  \<comment> \<open>the records at warning level or above\<close>
  "severe recs = filter (\<lambda>(lvl, lineno, msg). lvl = WARNING \<or> lvl = ERROR) recs"

fun is_makedirs :: "effect \<Rightarrow> bool" where
  "is_makedirs (Makedirs d) = True"
| "is_makedirs e = False"

fun is_instruction_open :: "effect \<Rightarrow> bool" where
  "is_instruction_open (Open_bat mode ok) = (mode = ''a'')"
| "is_instruction_open e = False"

fun is_copy :: "effect \<Rightarrow> bool" where
  "is_copy (Copy_first_set src dst items) = True"
| "is_copy e = False"

fun is_one_time :: "effect \<Rightarrow> bool" where
  \<comment> \<open>an effect of the block run on the first success\<close>
  "is_one_time (Makedirs d) = False"
| "is_one_time (Subprocess_run command) = False"
| "is_one_time e = True"

fun pip_commands :: "effect list \<Rightarrow> string list list" where
  "pip_commands [] = []"
| "pip_commands (Subprocess_run command # es) = command # pip_commands es"
| "pip_commands (e # es) = pip_commands es"

fun written :: "effect list \<Rightarrow> string list" where
  "written [] = []"
| "written (Write_bat text # es) = text # written es"
| "written (e # es) = written es"

definition package_subdir_of :: "string \<Rightarrow> string \<Rightarrow> string" where
  \<comment> \<open>the subdirectory of a requirement: the expression of lines 50--52 and of lines 224--225\<close>
  "package_subdir_of download_dir name = os_path_join download_dir (sanitize name)"

definition command_of :: "string \<Rightarrow> string \<Rightarrow> strategy \<Rightarrow> string \<Rightarrow> string list" where
  \<comment> \<open>the command of line 71\<close>
  "command_of download_dir name extra_args package_spec =
     [''pip'', ''download'', ''--dest'', package_subdir_of download_dir name,
      ''--disable-pip-version-check''] @ extra_args @ split_ws package_spec"

definition copied_items :: "copy_result \<Rightarrow> string list" where
  "copied_items c = (case c of Copied item_names \<Rightarrow> item_names | _ \<Rightarrow> [])"

definition bat_append_ok :: "response \<Rightarrow> bool" where
  \<comment> \<open>the install instruction is written without an exception\<close>
  "bat_append_ok r = (bat_append r = Writes_ok)"

definition bat_init_ok :: "run_env \<Rightarrow> bool" where
  \<comment> \<open>the header of the batch file is written without an exception\<close>
  "bat_init_ok env = (bat_init env = Writes_ok)"

definition raises :: "write_answer \<Rightarrow> bool" where
  \<comment> \<open>the block lets a \<open>UnicodeEncodeError\<close> out\<close>
  "raises a = (case a of Raises_UnicodeEncodeError k \<Rightarrow> True | _ \<Rightarrow> False)"

definition one_time_effects :: "config \<Rightarrow> response \<Rightarrow> string \<Rightarrow> string \<Rightarrow> string \<Rightarrow> effect list" where
  \<comment> \<open>the effects of one execution of the first-success block\<close>
  "one_time_effects cfg r package_spec download_dir name =
     Open_bat ''a'' (bat_append r \<noteq> Raises_IOError) #
     (case bat_append r of
        Writes_ok \<Rightarrow>
          map Write_bat (install_instruction package_spec (package_subdir_of download_dir name))
      | Raises_IOError \<Rightarrow> []
      | Raises_UnicodeEncodeError k \<Rightarrow>
          map Write_bat (written_before k
            (install_instruction package_spec (package_subdir_of download_dir name)))) @
     (if COPY_FIRST_SET_TO_PARENT_DIRECTORY cfg \<and> \<not> raises (bat_append r)
      then [Copy_first_set (package_subdir_of download_dir name) download_dir (copied_items (copy r))]
      else [])"

definition spec_for_pip_of :: "string \<Rightarrow> string" where
  \<comment> \<open>line 202: the specifier given to \<open>pip\<close> for a requirement line\<close>
  "spec_for_pip_of package_spec =
     (case known_dependencies (lower (name_only package_spec)) of Some d \<Rightarrow> d | None \<Rightarrow> package_spec)"

definition attempted :: "config \<Rightarrow> strategy list" where
  \<comment> \<open>the strategies tried for a requirement when every fetch succeeds\<close>
  "attempted cfg = (if DOWNLOAD_ALL_VERSIONS cfg then download_strategies cfg
                    else take 1 (download_strategies cfg))"

definition commands_of :: "config \<Rightarrow> string \<Rightarrow> string list \<Rightarrow> string list list" where
  \<comment> \<open>the \<open>pip\<close> commands of a run over \<open>pkgs\<close> in which every fetch succeeds: for each
      requirement in turn, one command for each strategy tried\<close>
  "commands_of cfg download_dir pkgs =
     concat (map (\<lambda>package_spec.
                    map (\<lambda>strategy. command_of download_dir (name_only package_spec) strategy
                                      (spec_for_pip_of package_spec))
                        (attempted cfg)) pkgs)"

fun targets :: "string \<Rightarrow> string \<Rightarrow> string \<Rightarrow> effect \<Rightarrow> bool" where
  \<comment> \<open>the effect names the subdirectory \<open>p\<close> wherever it names a subdirectory\<close>
  "targets p package_spec download_dir (Makedirs d) = (d = p)"
| "targets p package_spec download_dir (Subprocess_run command) =
     (take 4 command = [''pip'', ''download'', ''--dest'', p])"
| "targets p package_spec download_dir (Open_bat mode ok) = (mode = ''a'')"
| "targets p package_spec download_dir (Write_bat text) = (text \<in> set (install_instruction package_spec p))"
| "targets p package_spec download_dir (Copy_first_set src dst item_names) = (src = p \<and> dst = download_dir)"

definition copy_quiet :: "config \<Rightarrow> response \<Rightarrow> bool" where
  \<comment> \<open>the promotion copy, if enabled, finds its source directory and copies without error\<close>
  "copy_quiet cfg r =
     (COPY_FIRST_SET_TO_PARENT_DIRECTORY cfg \<longrightarrow> (case copy r of Copied item_names \<Rightarrow> True | _ \<Rightarrow> False))"

definition unreadable :: "read_result \<Rightarrow> bool" where
  "unreadable r = (case r of Read_ok text \<Rightarrow> False | _ \<Rightarrow> True)"

definition requirements_read :: "run_env \<Rightarrow> string list" where
  \<comment> \<open>\<open>valid_package_lines\<close> after the reading loop; empty when the file cannot be read\<close>
  "requirements_read env =
     (case read_requirements env of Read_ok body \<Rightarrow> valid_package_lines_of body | _ \<Rightarrow> [])"

definition dests :: "effect list \<Rightarrow> string list" where
  \<comment> \<open>the \<open>--dest\<close> argument of each \<open>pip\<close> command run\<close>
  "dests es = map (\<lambda>command. command ! 3) (pip_commands es)"

definition attempt_line :: "string \<Rightarrow> nat \<Rightarrow> nat \<Rightarrow> strategy \<Rightarrow> log_record" where
  \<comment> \<open>the record of line 198 for attempt \<open>i\<close> of \<open>n\<close>\<close>
  "attempt_line package_progress_str n i strategy =
     (INFO, 198, ''  '' @ package_progress_str @ '' Attempt '' @ ''['' @ str_nat i @ ''/'' @ str_nat n @ '']'' @
                 '': Strategy = '' @ strategy_desc strategy)"

definition extends :: "state \<Rightarrow> state \<Rightarrow> bool" where
  \<comment> \<open>the later state only appends to the log, the effects and the durations\<close>
  "extends st st' =
     (take (length (log_records st)) (log_records st') = log_records st \<and>
      take (length (effects st)) (effects st') = effects st \<and>
      take (length (pip_call_times st)) (pip_call_times st') = pip_call_times st \<and>
      verbose st' = verbose st \<and> calls st \<le> calls st')"

section \<open>Example worlds\<close>

definition ok_response :: response where
  "ok_response = \<lparr>makedirs_ok = True, run = CompletedProcess 0 [] [], elapsed = 2,
                   bat_append = Writes_ok, copy = Copied []\<rparr>"

definition pip_fails_response :: response where
  "pip_fails_response = ok_response\<lparr>run := CompletedProcess 1 [] ''ERROR: No matching distribution found''\<rparr>"

definition no_subdir_response :: response where
  "no_subdir_response = ok_response\<lparr>makedirs_ok := False\<rparr>"

definition ok_world :: world where
  \<comment> \<open>every fetch succeeds\<close>
  "ok_world k = ok_response"

definition pip_fails_world :: world where
  \<comment> \<open>\<open>pip\<close> always exits with status 1\<close>
  "pip_fails_world k = pip_fails_response"

definition no_subdir_world :: world where
  \<comment> \<open>no subdirectory can be created\<close>
  "no_subdir_world k = no_subdir_response"

definition third_and_fifth_world :: world where
  \<comment> \<open>the third and the fifth fetch of the run succeed, the others fail\<close>
  "third_and_fifth_world k = (if k = 2 \<or> k = 4 then ok_response else pip_fails_response)"

definition encode_error_response :: response where
  \<comment> \<open>the fetch succeeds and the first line of the install instruction cannot be encoded\<close>
  "encode_error_response = ok_response\<lparr>bat_append := Raises_UnicodeEncodeError 0\<rparr>"

definition encode_error_world :: world where
  "encode_error_world k = encode_error_response"

definition example_env :: "string \<Rightarrow> world \<Rightarrow> run_env" where
  "example_env text w = \<lparr>isfile_requirements = True, makedirs_root_ok = True,
                           read_requirements = Read_ok text, bat_init = Writes_ok,
                           responses = w, bat_final_ok = True\<rparr>"

definition colliding_requirements :: string where
  "colliding_requirements = ''a.b'' @ newline @ ''ab'' @ newline"

section \<open>Properties of the strategy generator\<close>

lemma strategy_of_not_Nil: "strategy_of p v a i b \<noteq> []"
  by (simp add: strategy_of_def)

lemma download_strategies_mem:
  "s \<in> set (download_strategies cfg) \<longleftrightarrow>
     s = [] \<or> (\<exists>p \<in> set (var_platforms cfg). \<exists>v \<in> set (var_python_versions cfg).
                \<exists>a \<in> set (specific_abis v). \<exists>i \<in> set (var_implementations cfg).
                \<exists>b \<in> set (var_binary_types cfg).
                  \<not> skip_combination i a \<and> s = strategy_of p v a i b)"
proof -
  have "set (download_strategies cfg) =
      insert [] {strategy_of p v a i b | p v a i b.
        p \<in> set (var_platforms cfg) \<and> v \<in> set (var_python_versions cfg) \<and>
        a \<in> set (specific_abis v) \<and> i \<in> set (var_implementations cfg) \<and>
        b \<in> set (var_binary_types cfg) \<and> \<not> skip_combination i a}"
    unfolding download_strategies_def by (auto split: if_splits) blast+
  then show ?thesis by simp blast
qed

lemma abi_specific_prefix: "startswith (abi_specific v) ''cp'' \<or> startswith (abi_specific v) ''abi''"
  by (simp add: abi_specific_def startswith_def)

text \<open>
  Claim C3. For every configuration, also one whose platform, version or implementation
  lists are empty, the generated sequence is not empty, its last element is the empty
  constraint, and the empty constraint occurs nowhere before the last position (so it
  occurs exactly once).
\<close>

theorem strategies_end_with_single_fallback:
  "download_strategies cfg \<noteq> [] \<and>
   last (download_strategies cfg) = [] \<and>
   [] \<notin> set (butlast (download_strategies cfg)) \<and>
   count_list (download_strategies cfg) [] = 1"
proof -
  obtain body where b: "download_strategies cfg = body @ [[]]" and
    nb: "[] \<notin> set body"
    unfolding download_strategies_def by (auto simp: strategy_of_def split: if_splits)
  have "count_list body [] = 0" using nb by (simp add: count_list_0_iff)
  then show ?thesis using nb by (simp add: b)
qed

theorem strategies_end_with_single_fallback_witness:
  "length (download_strategies source_config) = 43 \<and>
   last (download_strategies source_config) = [] \<and>
   download_strategies (source_config\<lparr>var_platforms := []\<rparr>) = [[]]"
proof -
  have "length (download_strategies source_config) = 43" by code_simp
  moreover have "download_strategies (source_config\<lparr>var_platforms := []\<rparr>) = [[]]"
    by (simp add: download_strategies_def)
  ultimately show ?thesis
    using strategies_end_with_single_fallback[of source_config] by simp
qed

text \<open>
  Claim C4. Every generated constraint is the empty one or a nine-element flag list in
  which the implementation \<open>py\<close> is never paired with an ABI tag beginning with \<open>cp\<close>
  or \<open>abi\<close>; with \<open>py\<close> the ABI tag is always \<open>none\<close>.
\<close>

theorem no_py_with_compiled_abi:
  assumes "s \<in> set (download_strategies cfg)"
  shows "s = [] \<or>
     (\<exists>p v a i b.
        s = [''--platform'', p, ''--python-version'', v, ''--abi'', a, ''--implementation'', i, b] \<and>
        \<not> (i = ''py'' \<and> (startswith a ''cp'' \<or> startswith a ''abi'')) \<and>
        (i = ''py'' \<longrightarrow> a = ''none''))"
proof (cases "s = []")
  case True then show ?thesis by simp
next
  case False
  then obtain p v a i b where a: "a \<in> set (specific_abis v)" and sk: "\<not> skip_combination i a"
    and s: "s = strategy_of p v a i b"
    using assms download_strategies_mem[of s cfg] by blast
  have "i = ''py'' \<longrightarrow> a = ''none''"
    using a sk abi_specific_prefix[of v] by (auto simp: specific_abis_def skip_combination_def)
  then show ?thesis using sk s by (auto simp: skip_combination_def strategy_of_def)
qed

theorem no_py_with_compiled_abi_witness:
  "[''--platform'', ''any'', ''--python-version'', ''3.13'', ''--abi'', ''none'',
    ''--implementation'', ''py'', ''--only-binary=:all:''] \<in> set (download_strategies source_config) \<and>
   [''--platform'', ''any'', ''--python-version'', ''3.13'', ''--abi'', ''cp313'',
    ''--implementation'', ''py'', ''--only-binary=:all:''] \<notin> set (download_strategies source_config)"
proof -
  let ?s = "[''--platform'', ''any'', ''--python-version'', ''3.13'', ''--abi'', ''none'',
    ''--implementation'', ''py'', ''--only-binary=:all:'']"
  let ?t = "[''--platform'', ''any'', ''--python-version'', ''3.13'', ''--abi'', ''cp313'',
    ''--implementation'', ''py'', ''--only-binary=:all:'']"
  have m: "?s \<in> set (download_strategies source_config)"
    by (simp add: download_strategies_mem source_config_def specific_abis_def
        skip_combination_def strategy_of_def startswith_def)
  have "?t \<notin> set (download_strategies source_config)"
    using no_py_with_compiled_abi[of ?t source_config] by (auto simp: startswith_def)
  with m show ?thesis by simp
qed

text \<open>
  Claim C5. The specific ABI tag of a version token is \<open>cp\<close> followed by the token without
  its dots when the token contains a dot, \<open>abi\<close> followed by the token when the token has
  no dot and is one character long, and \<open>cp\<close> followed by the token otherwise; the ABI
  candidates of the token are \<open>none\<close> and then that tag, and both are enumerated (with the
  implementation \<open>cp\<close>) for every configured platform and binary flag.
\<close>

theorem abi_specific_cases:
  "(CHR ''.'' \<in> set v \<longrightarrow> abi_specific v = ''cp'' @ filter (\<lambda>c. c \<noteq> CHR ''.'') v) \<and>
   (CHR ''.'' \<notin> set v \<and> length v = 1 \<longrightarrow> abi_specific v = ''abi'' @ v) \<and>
   (CHR ''.'' \<notin> set v \<and> length v \<noteq> 1 \<longrightarrow> abi_specific v = ''cp'' @ v) \<and>
   specific_abis v = [''none'', abi_specific v] \<and>
   (v \<in> set (var_python_versions cfg) \<and> p \<in> set (var_platforms cfg) \<and>
    b \<in> set (var_binary_types cfg) \<and> ''cp'' \<in> set (var_implementations cfg) \<longrightarrow>
      strategy_of p v ''none'' ''cp'' b \<in> set (download_strategies cfg) \<and>
      strategy_of p v (abi_specific v) ''cp'' b \<in> set (download_strategies cfg))"
proof -
  have "\<not> skip_combination ''cp'' a" for a by (simp add: skip_combination_def)
  moreover have "specific_abis v = [''none'', abi_specific v]" by (simp add: specific_abis_def)
  ultimately have "v \<in> set (var_python_versions cfg) \<and> p \<in> set (var_platforms cfg) \<and>
    b \<in> set (var_binary_types cfg) \<and> ''cp'' \<in> set (var_implementations cfg) \<longrightarrow>
      strategy_of p v ''none'' ''cp'' b \<in> set (download_strategies cfg) \<and>
      strategy_of p v (abi_specific v) ''cp'' b \<in> set (download_strategies cfg)"
    unfolding download_strategies_mem by fastforce
  then show ?thesis by (simp add: abi_specific_def specific_abis_def)
qed

theorem abi_specific_cases_witness:
  "abi_specific ''3.13'' = ''cp313'' \<and> abi_specific ''3'' = ''abi3'' \<and>
   abi_specific ''313'' = ''cp313'' \<and> specific_abis ''3.13'' = [''none'', ''cp313''] \<and>
   ''3.13'' \<in> set (var_python_versions source_config) \<and>
   [''--platform'', ''any'', ''--python-version'', ''3.13'', ''--abi'', ''cp313'',
    ''--implementation'', ''cp'', ''--only-binary=:all:''] \<in> set (download_strategies source_config)"
proof -
  have m: "''3.13'' \<in> set (var_python_versions source_config)"
    "''any'' \<in> set (var_platforms source_config)"
    "''--only-binary=:all:'' \<in> set (var_binary_types source_config)"
    "''cp'' \<in> set (var_implementations source_config)"
    by (simp_all add: source_config_def)
  note c = abi_specific_cases[of "''3.13''" source_config "''any''" "''--only-binary=:all:''"]
  have a: "abi_specific ''3.13'' = ''cp313''" "specific_abis ''3.13'' = [''none'', ''cp313'']"
    using c by simp_all
  have "strategy_of ''any'' ''3.13'' (abi_specific ''3.13'') ''cp'' ''--only-binary=:all:''
      \<in> set (download_strategies source_config)"
    using c m by blast
  then have s: "[''--platform'', ''any'', ''--python-version'', ''3.13'', ''--abi'', ''cp313'',
    ''--implementation'', ''cp'', ''--only-binary=:all:''] \<in> set (download_strategies source_config)"
    unfolding a strategy_of_def .
  have "abi_specific ''3'' = ''abi3''" "abi_specific ''313'' = ''cp313''"
    using abi_specific_cases[of "''3''"] abi_specific_cases[of "''313''"] by simp_all
  then show ?thesis using a s m(1) by simp
qed


section \<open>Properties of the requirement source\<close>

lemma rev_dropWhile_rev: "t = rev (dropWhile P (rev t)) @ rev (takeWhile P (rev t))"
  by (metis rev_append rev_rev_ident takeWhile_dropWhile_id)

lemma strip_decomp: "\<exists>a b. s = a @ strip s @ b"
proof -
  define t where "t = dropWhile isspace s"
  have "s = takeWhile isspace s @ t" by (simp add: t_def)
  moreover have "t = strip s @ rev (takeWhile isspace (rev t))"
    using rev_dropWhile_rev[of t isspace] by (simp add: strip_def t_def)
  ultimately show ?thesis by metis
qed

lemma strip_Nil_or_hd: "strip s = [] \<or> \<not> isspace (hd (strip s))"
proof -
  define t where "t = dropWhile isspace s"
  have s: "strip s = rev (dropWhile isspace (rev t))" by (simp add: strip_def t_def)
  have t: "t = strip s @ rev (takeWhile isspace (rev t))"
    using rev_dropWhile_rev[of t isspace] s by simp
  show ?thesis
  proof (cases "strip s")
    case Nil thus ?thesis by simp
  next
    case (Cons a as)
    then have "hd t = a" using t by (metis hd_append2 list.sel(1) list.distinct(1))
    moreover have "t \<noteq> []" using t Cons by auto
    then have "\<not> isspace (hd t)" unfolding t_def by (metis hd_dropWhile)
    ultimately show ?thesis using Cons by simp
  qed
qed

lemma strip_Nil_or_last: "strip s = [] \<or> \<not> isspace (last (strip s))"
proof (cases "dropWhile isspace (rev (dropWhile isspace s))")
  case Nil thus ?thesis by (simp add: strip_def)
next
  case (Cons a as)
  then have "\<not> isspace a" by (metis hd_dropWhile list.sel(1) list.distinct(1))
  thus ?thesis using Cons by (simp add: strip_def)
qed

lemma dropWhile_hd_id: "xs = [] \<or> \<not> P (hd xs) \<Longrightarrow> dropWhile P xs = xs"
  by (cases xs) auto

lemma strip_trimmed:
  assumes "s = [] \<or> (\<not> isspace (hd s) \<and> \<not> isspace (last s))"
  shows "strip s = s"
proof (cases "s = []")
  case True thus ?thesis by (simp add: strip_def)
next
  case False
  with assms have h: "\<not> isspace (hd s)" and l: "\<not> isspace (last s)" by auto
  have 1: "dropWhile isspace s = s" using h by (simp add: dropWhile_hd_id)
  have "hd (rev s) = last s" using False by (simp add: hd_rev)
  then have 2: "dropWhile isspace (rev s) = rev s" using l by (simp add: dropWhile_hd_id)
  show ?thesis by (simp add: strip_def 1 2)
qed

lemma strip_idem: "strip (strip s) = strip s"
  using strip_Nil_or_hd[of s] strip_Nil_or_last[of s] by (intro strip_trimmed) auto

lemma startswith_iff: "startswith s p \<longleftrightarrow> (\<exists>b. s = p @ b)"
proof
  assume "startswith s p"
  then have "s = p @ drop (length p) s" unfolding startswith_def by (metis append_take_drop_id)
  then show "\<exists>b. s = p @ b" ..
next
  assume "\<exists>b. s = p @ b" then show "startswith s p" by (auto simp: startswith_def)
qed

lemma startswith_char: "startswith s [c] \<longleftrightarrow> s \<noteq> [] \<and> hd s = c"
  by (cases s) (auto simp: startswith_def)

lemma contains_iff: "contains sub s \<longleftrightarrow> (\<exists>a b. s = a @ sub @ b)"
proof (induction s)
  case Nil show ?case by auto
next
  case (Cons c cs)
  show ?case
  proof
    assume "contains sub (c # cs)"
    then consider "startswith (c # cs) sub" | "contains sub cs" by auto
    then show "\<exists>a b. c # cs = a @ sub @ b"
    proof cases
      case 1 then obtain b where "c # cs = sub @ b" using startswith_iff by blast
      then have "c # cs = [] @ sub @ b" by simp
      then show ?thesis by blast
    next
      case 2 then obtain a b where "cs = a @ sub @ b" using Cons.IH by blast
      then have "c # cs = (c # a) @ sub @ b" by simp
      then show ?thesis by blast
    qed
  next
    assume "\<exists>a b. c # cs = a @ sub @ b"
    then obtain a b where ab: "c # cs = a @ sub @ b" by blast
    show "contains sub (c # cs)"
    proof (cases a)
      case Nil
      then have "startswith (c # cs) sub" using ab startswith_iff[of "c # cs" sub] by auto
      then show ?thesis by simp
    next
      case (Cons x xs) then have "cs = xs @ sub @ b" using ab by simp
      then show ?thesis using Cons.IH by auto
    qed
  qed
qed

lemma split_first_none: "\<not> contains sep s \<Longrightarrow> split_first sep s = s"
  by (induction s) auto

lemma split_first_prefix: "\<exists>r. s = split_first sep s @ r"
  by (induction s) auto

lemma split_first_clean: "sep \<noteq> [] \<Longrightarrow> \<not> contains sep (split_first sep s)"
proof (induction s)
  case Nil then show ?case by simp
next
  case (Cons c cs)
  show ?case
  proof (cases "startswith (c # cs) sep")
    case True then show ?thesis using Cons.prems by simp
  next
    case False
    obtain r where r: "cs = split_first sep cs @ r" using split_first_prefix by blast
    have "\<not> startswith (c # split_first sep cs) sep"
    proof
      assume "startswith (c # split_first sep cs) sep"
      then obtain b where "c # split_first sep cs = sep @ b" using startswith_iff by blast
      then have "c # cs = sep @ (b @ r)" using r by (metis append_Cons append_assoc)
      then show False using False startswith_iff by blast
    qed
    then show ?thesis using False Cons by simp
  qed
qed

lemma contains_strip: "contains sep (strip s) \<Longrightarrow> contains sep s"
proof -
  assume "contains sep (strip s)"
  then obtain a b where 1: "strip s = a @ sep @ b" using contains_iff by blast
  obtain x y where "s = x @ strip s @ y" using strip_decomp by blast
  then have "s = (x @ a) @ sep @ (b @ y)" using 1 by simp
  then show ?thesis using contains_iff by blast
qed

lemma strip_hd_prefix:
  assumes "t = u @ r" "strip u \<noteq> []" "\<not> isspace (hd t)"
  shows "hd (strip u) = hd t"
proof -
  have "u \<noteq> []" using assms(2) by (auto simp: strip_def)
  then have hu: "hd u = hd t" using assms(1) by simp
  then have "dropWhile isspace u = u" using assms(3) by (simp add: dropWhile_hd_id)
  then have s: "strip u = rev (dropWhile isspace (rev u))" by (simp add: strip_def)
  have "u = strip u @ rev (takeWhile isspace (rev u))"
    using rev_dropWhile_rev[of u isspace] s by simp
  then show ?thesis using assms(2) hu by (metis hd_append2)
qed

lemma read_step:
  "read_loop (line # lines) acc =
     read_loop lines (acc @ (case spec_line line of None \<Rightarrow> [] | Some u \<Rightarrow> [u]))"
proof -
  define t where "t = strip line"
  have tt: "strip t = t" by (simp add: t_def strip_idem)
  have nc: "\<not> contains '' #'' t \<Longrightarrow> strip (split_first '' #'' t) = t"
    by (simp add: split_first_none tt)
  have "startswith x ''--'' \<Longrightarrow> startswith x ''-''" for x
    by (cases x) (auto simp: startswith_def split: if_splits list.splits)
  then show ?thesis
    using nc by (auto simp: spec_line_def Let_def startswith_char t_def[symmetric])
qed

lemma read_loop_eq: "read_loop lines acc = acc @ spec_requirement_source lines"
proof (induction lines arbitrary: acc)
  case Nil show ?case by (simp add: spec_requirement_source_def List.map_filter_simps)
next
  case (Cons l ls)
  show ?case unfolding read_step Cons.IH
    by (simp add: spec_requirement_source_def List.map_filter_simps split: option.splits)
qed

lemma spec_line_props:
  assumes "spec_line raw = Some p"
  shows "p \<noteq> [] \<and> strip p = p \<and> \<not> contains '' #'' p \<and> \<not> startswith p ''#'' \<and> \<not> startswith p ''-''"
proof -
  define t where "t = strip raw"
  from assms have t: "t \<noteq> []" "hd t \<noteq> CHR ''#''" and p: "p = strip (split_first '' #'' t)"
    "p \<noteq> []" "hd p \<noteq> CHR ''-''"
    by (auto simp: spec_line_def Let_def t_def[symmetric] split: if_splits)
  have sp: "\<not> isspace (hd t)" using strip_Nil_or_hd[of raw] t by (simp add: t_def)
  obtain r where "t = split_first '' #'' t @ r" using split_first_prefix by blast
  then have "hd p = hd t" using strip_hd_prefix[of t _ r] p sp by simp
  moreover have "\<not> contains '' #'' p" using contains_strip split_first_clean[of "'' #''" t] p by blast
  ultimately show ?thesis using p t by (simp add: strip_idem startswith_char)
qed

text \<open>
  Claim C6. For every text of the requirements file, the lines kept by the reading loop
  are exactly the lines the worded filter keeps, in file order; each kept specifier is
  non-empty, trimmed, contains no inline-comment marker, and starts neither with \<open>#\<close>
  nor with a dash.
\<close>

theorem requirement_source_filter:
  "valid_package_lines_of text = spec_requirement_source (readlines text) \<and>
   (\<forall>p \<in> set (valid_package_lines_of text).
      p \<noteq> [] \<and> strip p = p \<and> \<not> contains '' #'' p \<and> \<not> startswith p ''#'' \<and> \<not> startswith p ''-'')"
proof -
  have eq: "valid_package_lines_of text = spec_requirement_source (readlines text)"
    by (simp add: valid_package_lines_of_def read_loop_eq)
  moreover have "p \<in> set (spec_requirement_source ls) \<Longrightarrow> \<exists>raw. spec_line raw = Some p" for p ls
    by (auto simp: spec_requirement_source_def List.map_filter_def)
  ultimately show ?thesis using spec_line_props by metis
qed


theorem requirement_source_filter_witness:
  "valid_package_lines_of example_requirements = [''requests==2.31.0'', ''flask''] \<and>
   ''flask'' \<in> set (valid_package_lines_of example_requirements) \<and>
   strip ''flask'' = ''flask'' \<and> \<not> contains '' #'' ''flask''"
proof -
  have e: "spec_requirement_source (readlines example_requirements) = [''requests==2.31.0'', ''flask'']"
    by code_simp
  show ?thesis using requirement_source_filter[of example_requirements] e
    by (simp add: startswith_def)
qed

section \<open>State, log and effects: what each step appends\<close>

lemma take_length_eq_iff: "take (length xs) ys = xs \<longleftrightarrow> (\<exists>zs. ys = xs @ zs)"
  by (metis append_eq_conv_conj append_take_drop_id)

lemma extends_refl [simp]: "extends st st"
  by (simp add: extends_def)

lemma extends_trans: "extends a b \<Longrightarrow> extends b c \<Longrightarrow> extends a c"
  unfolding extends_def take_length_eq_iff by (metis append_assoc le_trans)

lemma new_log_trans: "extends a b \<Longrightarrow> extends b c \<Longrightarrow> new_log a c = new_log a b @ new_log b c"
  unfolding extends_def take_length_eq_iff new_log_def by auto

lemma new_effects_trans:
  "extends a b \<Longrightarrow> extends b c \<Longrightarrow> new_effects a c = new_effects a b @ new_effects b c"
  unfolding extends_def take_length_eq_iff new_effects_def by auto

lemma new_times_trans:
  "extends a b \<Longrightarrow> extends b c \<Longrightarrow> new_times a c = new_times a b @ new_times b c"
  unfolding extends_def take_length_eq_iff new_times_def by auto

lemma new_refl [simp]: "new_log st st = []" "new_effects st st = []" "new_times st st = []"
  by (simp_all add: new_log_def new_effects_def new_times_def)

lemma logging_fields [simp]:
  "pip_call_times (logging l n m st) = pip_call_times st"
  "effects (logging l n m st) = effects st"
  "calls (logging l n m st) = calls st"
  "generated (logging l n m st) = generated st"
  "verbose (logging l n m st) = verbose st"
  by (simp_all add: logging_def)

lemma logging_extends [simp]: "extends st (logging l n m st)"
  by (simp add: extends_def logging_def)

lemma logging_new [simp]:
  "new_log st (logging l n m st) = (if l = DEBUG \<and> \<not> verbose st then [] else [(l, n, m)])"
  "new_effects st (logging l n m st) = []"
  "new_times st (logging l n m st) = []"
  by (simp_all add: new_log_def new_effects_def new_times_def logging_def)

lemma perform_fields [simp]:
  "pip_call_times (perform e st) = pip_call_times st"
  "log_records (perform e st) = log_records st"
  "calls (perform e st) = calls st"
  "generated (perform e st) = generated st"
  "verbose (perform e st) = verbose st"
  by (simp_all add: perform_def)

lemma perform_extends [simp]: "extends st (perform e st)"
  by (simp add: extends_def perform_def)

lemma perform_new [simp]:
  "new_log st (perform e st) = []"
  "new_effects st (perform e st) = [e]"
  "new_times st (perform e st) = []"
  by (simp_all add: new_log_def new_effects_def new_times_def perform_def)

lemma write_all_fields [simp]:
  "pip_call_times (write_all ts st) = pip_call_times st"
  "log_records (write_all ts st) = log_records st"
  "calls (write_all ts st) = calls st"
  "generated (write_all ts st) = generated st"
  "verbose (write_all ts st) = verbose st"
  by (simp_all add: write_all_def)

lemma write_all_extends [simp]: "extends st (write_all ts st)"
  by (simp add: extends_def write_all_def)

lemma write_all_new [simp]:
  "new_log st (write_all ts st) = []"
  "new_effects st (write_all ts st) = map Write_bat ts"
  "new_times st (write_all ts st) = []"
  by (simp_all add: new_log_def new_effects_def new_times_def write_all_def)

text \<open>A step: a state transformer that only appends.\<close>

lemma step_log:
  "extends a b \<Longrightarrow> extends b c \<Longrightarrow> extends a c \<and> new_log a c = new_log a b @ new_log b c \<and>
     new_effects a c = new_effects a b @ new_effects b c \<and> new_times a c = new_times a b @ new_times b c"
  using extends_trans new_log_trans new_effects_trans new_times_trans by blast

lemma logging_step [simp]:
  assumes "extends st x"
  shows "extends st (logging l n m x)"
    "new_log st (logging l n m x) = new_log st x @ (if l = DEBUG \<and> \<not> verbose x then [] else [(l, n, m)])"
    "new_effects st (logging l n m x) = new_effects st x"
    "new_times st (logging l n m x) = new_times st x"
  using step_log[OF assms logging_extends[of x l n m]] by simp_all

lemma perform_step [simp]:
  assumes "extends st x"
  shows "extends st (perform e x)"
    "new_log st (perform e x) = new_log st x"
    "new_effects st (perform e x) = new_effects st x @ [e]"
    "new_times st (perform e x) = new_times st x"
  using step_log[OF assms perform_extends[of x e]] by simp_all

lemma write_all_step [simp]:
  assumes "extends st x"
  shows "extends st (write_all ts x)"
    "new_log st (write_all ts x) = new_log st x"
    "new_effects st (write_all ts x) = new_effects st x @ map Write_bat ts"
    "new_times st (write_all ts x) = new_times st x"
  using step_log[OF assms write_all_extends[of x ts]] by simp_all

lemma after_run_record_props:
  "fst (snd (after_run_record r d p)) \<notin> set [124, 198, 219, 260, 393, 394, 395, 398, 400, 401]"
  "succeeded r \<Longrightarrow> fst (after_run_record r d p) = DEBUG"
  by (cases r; simp add: after_run_record_def Let_def succeeded_def)+

lemma after_run_is_logging:
  obtains l n m where "\<And>x. after_run r d p x = logging l n m x" "n \<notin> set [124, 198, 219, 260, 393, 394, 395, 398, 400, 401]"
     "succeeded r \<longrightarrow> l = DEBUG"
proof -
  obtain l n m where e: "after_run_record r d p = (l, n, m)" by (metis prod_cases3)
  show ?thesis
    using after_run_record_props[of r d p] by (intro that[of l n m]) (simp_all add: after_run_def e)
qed

lemma pip_call_times_append_fields [simp]:
  "pip_call_times (pip_call_times_append t x) = pip_call_times x @ [t]"
  "log_records (pip_call_times_append t x) = log_records x"
  "effects (pip_call_times_append t x) = effects x"
  "calls (pip_call_times_append t x) = calls x"
  "generated (pip_call_times_append t x) = generated x"
  "verbose (pip_call_times_append t x) = verbose x"
  by (simp_all add: pip_call_times_append_def)

lemma next_call_fields [simp]:
  "pip_call_times (next_call x) = pip_call_times x"
  "log_records (next_call x) = log_records x"
  "effects (next_call x) = effects x"
  "calls (next_call x) = Suc (calls x)"
  "generated (next_call x) = generated x"
  "verbose (next_call x) = verbose x"
  by (simp_all add: next_call_def)

lemma note_generated_fields [simp]:
  "pip_call_times (note_generated g x) = pip_call_times x"
  "log_records (note_generated g x) = log_records x"
  "effects (note_generated g x) = effects x"
  "calls (note_generated g x) = calls x"
  "generated (note_generated g x) = generated x @ [g]"
  "verbose (note_generated g x) = verbose x"
  by (simp_all add: note_generated_def)

lemma pip_call_times_append_step [simp]:
  assumes "extends st x"
  shows "extends st (pip_call_times_append t x)"
    "new_log st (pip_call_times_append t x) = new_log st x"
    "new_effects st (pip_call_times_append t x) = new_effects st x"
    "new_times st (pip_call_times_append t x) = new_times st x @ [t]"
proof -
  have e: "extends x (pip_call_times_append t x)" by (simp add: extends_def)
  show "extends st (pip_call_times_append t x)"
    "new_log st (pip_call_times_append t x) = new_log st x"
    "new_effects st (pip_call_times_append t x) = new_effects st x"
    "new_times st (pip_call_times_append t x) = new_times st x @ [t]"
    using step_log[OF assms e] by (simp_all add: new_log_def new_effects_def new_times_def)
qed

lemma next_call_step [simp]:
  assumes "extends st x"
  shows "extends st (next_call x)"
    "new_log st (next_call x) = new_log st x"
    "new_effects st (next_call x) = new_effects st x"
    "new_times st (next_call x) = new_times st x"
  using assms by (simp_all add: extends_def new_log_def new_effects_def new_times_def)

lemma note_generated_step [simp]:
  assumes "extends st x"
  shows "extends st (note_generated g x)"
    "new_log st (note_generated g x) = new_log st x"
    "new_effects st (note_generated g x) = new_effects st x"
    "new_times st (note_generated g x) = new_times st x"
  using assms by (simp_all add: extends_def new_log_def new_effects_def new_times_def)

lemma records_at_append [simp]: "records_at ls (a @ b) = records_at ls a @ records_at ls b"
  by (simp add: records_at_def)

lemma severe_append [simp]: "severe (a @ b) = severe a @ severe b"
  by (simp add: severe_def)

lemma records_at_simps [simp]:
  "records_at ls [] = []"
  "records_at ls ((l, n, m) # rs) = (if n \<in> set ls then (l, n, m) # records_at ls rs else records_at ls rs)"
  by (simp_all add: records_at_def)

lemma severe_simps [simp]:
  "severe [] = []"
  "severe ((l, n, m) # rs) = (if l = WARNING \<or> l = ERROR then (l, n, m) # severe rs else severe rs)"
  by (simp_all add: severe_def)

section \<open>Properties of \<open>run_pip_download_deps\<close>\<close>

lemma run_pip_unfold:
  obtains l n m where
    "n \<notin> set [124, 198, 219, 260, 393, 394, 395, 398, 400, 401]" "succeeded (run (w (calls st))) \<longrightarrow> l = DEBUG"
    "run_pip_download_deps w spec name dir desc extra st =
      (if \<not> makedirs_ok (w (calls st)) then
         (False, logging ERROR 59 (''    Failed to create subdirectory '' @ package_subdir_of dir name @ '': {e}'')
                   (perform (Makedirs (package_subdir_of dir name)) (next_call st)))
       else
         (succeeded (run (w (calls st))),
          logging DEBUG 104 (''    Pip call duration for '' @ desc @ '': {elapsed_pip:.4f} seconds'')
            (pip_call_times_append (elapsed (w (calls st)))
              (logging l n m
                (perform (Subprocess_run (command_of dir name extra spec))
                  (logging DEBUG 72 (''    Full command ('' @ desc @ ''): '' @
                       join '' '' (map shlex_quote (command_of dir name extra spec)))
                    (logging DEBUG 57 (''    Ensured subdirectory exists: '' @ package_subdir_of dir name)
                      (perform (Makedirs (package_subdir_of dir name)) (next_call st)))))))))"
proof -
  obtain l n m where a: "\<And>x. after_run (run (w (calls st))) desc spec x = logging l n m x"
    and b: "n \<notin> set [124, 198, 219, 260, 393, 394, 395, 398, 400, 401]" "succeeded (run (w (calls st))) \<longrightarrow> l = DEBUG"
    using after_run_is_logging by blast
  show ?thesis
    by (rule that[of n l m, OF b]) (simp add: run_pip_download_deps_def Let_def a package_subdir_of_def
        command_of_def del: set_simps)
qed

lemma run_pip_fst:
  "fst (run_pip_download_deps w spec name dir desc extra st) = attempt_ok (w (calls st))"
  by (simp add: run_pip_download_deps_def Let_def attempt_ok_def)

lemma run_pip_fields [simp]:
  "calls (snd (run_pip_download_deps w spec name dir desc extra st)) = Suc (calls st)"
  "generated (snd (run_pip_download_deps w spec name dir desc extra st)) = generated st"
  "verbose (snd (run_pip_download_deps w spec name dir desc extra st)) = verbose st"
  by (rule run_pip_unfold[of w st spec name dir desc extra], simp)+

lemma run_pip_extends [simp]:
  "extends st (snd (run_pip_download_deps w spec name dir desc extra st))"
  by (rule run_pip_unfold[of w st spec name dir desc extra]) simp

lemma run_pip_effects:
  "new_effects st (snd (run_pip_download_deps w spec name dir desc extra st)) =
     Makedirs (package_subdir_of dir name) #
       (if makedirs_ok (w (calls st)) then [Subprocess_run (command_of dir name extra spec)] else [])"
  by (rule run_pip_unfold[of w st spec name dir desc extra]) simp

lemma run_pip_times:
  "new_times st (snd (run_pip_download_deps w spec name dir desc extra st)) =
     (if makedirs_ok (w (calls st)) then [elapsed (w (calls st))] else [])"
  by (rule run_pip_unfold[of w st spec name dir desc extra]) simp

lemma run_pip_log:
  "records_at [124, 198, 219, 260, 393, 394, 395, 398, 400, 401] (new_log st (snd (run_pip_download_deps w spec name dir desc extra st))) = []"
  "attempt_ok (w (calls st)) \<Longrightarrow>
     severe (new_log st (snd (run_pip_download_deps w spec name dir desc extra st))) = []"
  by (rule run_pip_unfold[of w st spec name dir desc extra], simp add: attempt_ok_def)+


lemma run_pip_step [simp]:
  assumes "extends st x"
  shows "extends st (snd (run_pip_download_deps w spec name dir desc extra x))"
    "new_effects st (snd (run_pip_download_deps w spec name dir desc extra x)) =
       new_effects st x @ Makedirs (package_subdir_of dir name) #
         (if makedirs_ok (w (calls x)) then [Subprocess_run (command_of dir name extra spec)] else [])"
    "new_times st (snd (run_pip_download_deps w spec name dir desc extra x)) =
       new_times st x @ (if makedirs_ok (w (calls x)) then [elapsed (w (calls x))] else [])"
    "set ls \<subseteq> {124, 198, 219, 260, 393, 394, 395, 398, 400, 401} \<Longrightarrow>
       records_at ls (new_log st (snd (run_pip_download_deps w spec name dir desc extra x))) =
       records_at ls (new_log st x)"
    "attempt_ok (w (calls x)) \<Longrightarrow>
       severe (new_log st (snd (run_pip_download_deps w spec name dir desc extra x))) =
       severe (new_log st x)"
proof -
  let ?y = "snd (run_pip_download_deps w spec name dir desc extra x)"
  note s = step_log[OF assms run_pip_extends[of x w spec name dir desc extra]]
  show "extends st ?y" using s by simp
  show "new_effects st ?y = new_effects st x @ Makedirs (package_subdir_of dir name) #
         (if makedirs_ok (w (calls x)) then [Subprocess_run (command_of dir name extra spec)] else [])"
    using s by (simp add: run_pip_effects)
  show "new_times st ?y = new_times st x @ (if makedirs_ok (w (calls x)) then [elapsed (w (calls x))] else [])"
    using s by (simp add: run_pip_times)
  have "records_at [124, 198, 219, 260, 393, 394, 395, 398, 400, 401] (new_log x ?y) = []" by (rule run_pip_log)
  then have "\<forall>(l, n, m) \<in> set (new_log x ?y). n \<notin> {124, 198, 219, 260, 393, 394, 395, 398, 400, 401}"
    by (auto simp: records_at_def filter_empty_conv)
  then have "set ls \<subseteq> {124, 198, 219, 260, 393, 394, 395, 398, 400, 401} \<Longrightarrow> records_at ls (new_log x ?y) = []"
    by (auto simp: records_at_def filter_empty_conv)
  then show "set ls \<subseteq> {124, 198, 219, 260, 393, 394, 395, 398, 400, 401} \<Longrightarrow> records_at ls (new_log st ?y) = records_at ls (new_log st x)"
    using s by simp
  show "attempt_ok (w (calls x)) \<Longrightarrow> severe (new_log st ?y) = severe (new_log st x)"
    using s by (simp add: run_pip_log)
qed

section \<open>Properties of one attempt\<close>

lemma fold_logging_fields [simp]:
  "pip_call_times (fold (\<lambda>i. logging l n (f i)) xs x) = pip_call_times x"
  "effects (fold (\<lambda>i. logging l n (f i)) xs x) = effects x"
  "calls (fold (\<lambda>i. logging l n (f i)) xs x) = calls x"
  "generated (fold (\<lambda>i. logging l n (f i)) xs x) = generated x"
  "verbose (fold (\<lambda>i. logging l n (f i)) xs x) = verbose x"
  by (induction xs arbitrary: x; simp)+

lemma fold_logging_step [simp]:
  assumes "extends st x"
  shows "extends st (fold (\<lambda>i. logging l n (f i)) xs x)"
    "new_effects st (fold (\<lambda>i. logging l n (f i)) xs x) = new_effects st x"
    "new_times st (fold (\<lambda>i. logging l n (f i)) xs x) = new_times st x"
    "new_log st (fold (\<lambda>i. logging l n (f i)) xs x) =
       new_log st x @ (if l = DEBUG \<and> \<not> verbose x then [] else map (\<lambda>i. (l, n, f i)) xs)"
  using assms by (induction xs arbitrary: x; simp)+

lemma copy_first_set_fields [simp]:
  "calls (copy_first_set r prog src dst x) = calls x"
  "generated (copy_first_set r prog src dst x) = generated x"
  "verbose (copy_first_set r prog src dst x) = verbose x"
  by (simp_all add: copy_first_set_def Let_def split: copy_result.splits)

lemma map_records_at_other:
  "set ls \<subseteq> {124, 198, 219, 260, 393, 394, 395, 398, 400, 401} \<Longrightarrow> n \<notin> {124, 198, 219, 260, 393, 394, 395, 398, 400, 401} \<Longrightarrow>
     records_at ls (map (\<lambda>i. (l, n, f i)) xs) = []"
  by (induction xs) auto

lemma map_severe_debug: "severe (map (\<lambda>i. (DEBUG, n, f i)) xs) = []"
  by (induction xs) simp_all

lemma copy_first_set_step [simp]:
  assumes "extends st x"
  shows "extends st (copy_first_set r prog src dst x)"
    "new_effects st (copy_first_set r prog src dst x) =
       new_effects st x @ [Copy_first_set src dst (copied_items (copy r))]"
    "new_times st (copy_first_set r prog src dst x) = new_times st x"
    "set ls \<subseteq> {124, 198, 219, 260, 393, 394, 395, 398, 400, 401} \<Longrightarrow>
       records_at ls (new_log st (copy_first_set r prog src dst x)) = records_at ls (new_log st x)"
    "(case copy r of Copied items \<Rightarrow> True | _ \<Rightarrow> False) \<Longrightarrow>
       severe (new_log st (copy_first_set r prog src dst x)) = severe (new_log st x)"
  using assms
  by (auto simp: copy_first_set_def Let_def copied_items_def map_records_at_other map_severe_debug
      split: copy_result.splits)

lemma first_success_actions_fst:
  "fst (first_success_actions cfg r spec dir prog name x) = raises (bat_append r)"
  by (simp add: first_success_actions_def Let_def raises_def split: write_answer.splits)

lemma first_success_actions_fields [simp]:
  "calls (snd (first_success_actions cfg r spec dir prog name x)) = calls x"
  "generated (snd (first_success_actions cfg r spec dir prog name x)) = generated x"
  "verbose (snd (first_success_actions cfg r spec dir prog name x)) = verbose x"
  by (simp_all add: first_success_actions_def Let_def split: write_answer.splits)

lemma first_success_actions_step [simp]:
  assumes "extends st x"
  shows "extends st (snd (first_success_actions cfg r spec dir prog name x))"
    "new_effects st (snd (first_success_actions cfg r spec dir prog name x)) =
       new_effects st x @ one_time_effects cfg r spec dir name"
    "new_times st (snd (first_success_actions cfg r spec dir prog name x)) = new_times st x"
    "set ls \<subseteq> {124, 198, 219, 260, 393, 394, 395, 398, 400, 401} \<Longrightarrow>
       records_at ls (new_log st (snd (first_success_actions cfg r spec dir prog name x))) =
       records_at ls (new_log st x)"
    "bat_append_ok r \<Longrightarrow> copy_quiet cfg r \<Longrightarrow>
       severe (new_log st (snd (first_success_actions cfg r spec dir prog name x))) =
       severe (new_log st x)"
  using assms
  by (auto simp: first_success_actions_def Let_def one_time_effects_def package_subdir_of_def
      copy_quiet_def bat_append_ok_def raises_def split: write_answer.splits)

lemma attempt_body_vars:
  assumes "attempt_body cfg w spec dir prog name tot strategy v st = ((v', st'), brk)"
  shows "attempt v' = attempt v + 1"
    "attempt_success_count v' = attempt_success_count v + (if attempt_ok (w (calls st)) then 1 else 0)"
    "download_success v' = (download_success v \<or> attempt_ok (w (calls st)))"
    "brk = (if attempt_ok (w (calls st)) \<and> attempt_success_count v = 0 \<and>
               raises (bat_append (w (calls st))) then Raise
            else if attempt_ok (w (calls st)) \<and> \<not> DOWNLOAD_ALL_VERSIONS cfg then Break
            else Continue)"
  using assms
  by (auto simp: attempt_body_def Let_def case_prod_beta run_pip_fst first_success_actions_fst
      split: if_splits)

lemma attempt_body_fields:
  assumes "attempt_body cfg w spec dir prog name tot strategy v st = ((v', st'), brk)"
  shows "calls st' = Suc (calls st)" "generated st' = generated st" "verbose st' = verbose st"
  using assms
  by (auto simp: attempt_body_def Let_def case_prod_beta run_pip_fst first_success_actions_fst
      split: if_splits)

lemma attempt_body_step:
  assumes "attempt_body cfg w spec dir prog name tot strategy v x = ((v', x'), brk)"
    and "extends st x"
  shows "extends st x'"
    "new_effects st x' = new_effects st x @
       Makedirs (package_subdir_of dir name) #
       (if makedirs_ok (w (calls x))
        then [Subprocess_run (command_of dir name strategy
               (case known_dependencies (lower name) of Some d \<Rightarrow> d | None \<Rightarrow> spec))]
        else []) @
       (if attempt_ok (w (calls x)) \<and> attempt_success_count v = 0
        then one_time_effects cfg (w (calls x)) spec dir name else [])"
    "new_times st x' = new_times st x @ (if makedirs_ok (w (calls x)) then [elapsed (w (calls x))] else [])"
    "records_at [198] (new_log st x') =
       records_at [198] (new_log st x) @ [attempt_line prog tot (attempt v + 1) strategy]"
    "length (records_at [219, 260] (new_log st x')) = Suc (length (records_at [219, 260] (new_log st x)))"
    "\<not> attempt_ok (w (calls x)) \<Longrightarrow>
       length (records_at [260] (new_log st x')) = Suc (length (records_at [260] (new_log st x)))"
    "attempt_ok (w (calls x)) \<Longrightarrow> bat_append_ok (w (calls x)) \<Longrightarrow> copy_quiet cfg (w (calls x)) \<Longrightarrow>
       severe (new_log st x') = severe (new_log st x)"
    "records_at [124, 393, 394, 395, 398, 400, 401] (new_log st x') = records_at [124, 393, 394, 395, 398, 400, 401] (new_log st x)"
    "length (records_at [260] (new_log st x')) =
       length (records_at [260] (new_log st x)) + (if attempt_ok (w (calls x)) then 0 else 1)"
    "length (records_at [219] (new_log st x')) =
       length (records_at [219] (new_log st x)) + (if attempt_ok (w (calls x)) then 1 else 0)"
  using assms
  by (auto simp: attempt_body_def Let_def case_prod_beta run_pip_fst attempt_line_def
      first_success_actions_fst split: if_splits)

section \<open>Properties of the strategy loop\<close>

lemma outcomes_Suc: "outcomes w base (Suc n) = attempt_ok (w base) # outcomes w (Suc base) n"
proof -
  have "[0..<Suc n] = 0 # map Suc [0..<n]" by (simp add: upt_conv_Cons map_Suc_upt del: upt_Suc)
  then show ?thesis by (simp add: outcomes_def comp_def del: upt_Suc)
qed

lemma outcomes_0 [simp]: "outcomes w base 0 = []"
  by (simp add: outcomes_def)

lemma strategy_loop_Cons:
  assumes "strategy_loop cfg w spec dir prog name tot (s # ss) v x = ((v', x'), raised)"
  obtains (skip) "download_success v" "\<not> DOWNLOAD_ALL_VERSIONS cfg"
      "strategy_loop cfg w spec dir prog name tot ss v x = ((v', x'), raised)"
  | (break) "\<not> download_success v \<or> DOWNLOAD_ALL_VERSIONS cfg"
      "attempt_body cfg w spec dir prog name tot s v x = ((v', x'), Break)" "\<not> raised"
  | (raise) "\<not> download_success v \<or> DOWNLOAD_ALL_VERSIONS cfg"
      "attempt_body cfg w spec dir prog name tot s v x = ((v', x'), Raise)" "raised"
  | (continue) v1 x1 where "\<not> download_success v \<or> DOWNLOAD_ALL_VERSIONS cfg"
      "attempt_body cfg w spec dir prog name tot s v x = ((v1, x1), Continue)"
      "strategy_loop cfg w spec dir prog name tot ss v1 x1 = ((v', x'), raised)"
proof (cases "\<not> download_success v \<or> DOWNLOAD_ALL_VERSIONS cfg")
  case False
  then show ?thesis using assms skip by simp
next
  case True
  obtain v1 x1 how where ab: "attempt_body cfg w spec dir prog name tot s v x = ((v1, x1), how)"
    by (metis surj_pair)
  show ?thesis
  proof (cases how)
    case Continue
    with ab assms True show ?thesis using continue by auto
  next
    case Break
    with ab assms True show ?thesis using break by auto
  next
    case Raise
    with ab assms True show ?thesis using raise by auto
  qed
qed

lemma skipped_loop:
  assumes "download_success v" "\<not> DOWNLOAD_ALL_VERSIONS cfg"
  shows "strategy_loop cfg w spec dir prog name tot ss v x = ((v, x), False)"
  using assms by (induction ss) simp_all

text \<open>What every run of the loop does, whatever the policy.\<close>

lemma strategy_loop_basic:
  assumes "strategy_loop cfg w spec dir prog name tot ss v x = ((v', x'), raised)"
  shows "extends x x' \<and> generated x' = generated x \<and> verbose x' = verbose x \<and>
     calls x \<le> calls x' \<and> calls x' \<le> calls x + length ss \<and>
     new_times x x' = map (\<lambda>k. elapsed (w k)) (filter (\<lambda>k. makedirs_ok (w k)) [calls x..<calls x']) \<and>
     length (records_at [219, 260] (new_log x x')) = calls x' - calls x"
  using assms
proof (induction ss arbitrary: v x)
  case Nil
  then show ?case by simp
next
  case (Cons s ss)
  from Cons.prems show ?case
  proof (cases rule: strategy_loop_Cons)
    case skip
    then show ?thesis using skipped_loop[of v cfg w spec dir prog name tot ss x] by simp
  next
    case break
    note v = attempt_body_fields[OF break(2)]
    note s = attempt_body_step[OF break(2) extends_refl]
    show ?thesis using v s by (simp add: upt_conv_Cons)
  next
    case raise
    note v = attempt_body_fields[OF raise(2)]
    note s = attempt_body_step[OF raise(2) extends_refl]
    show ?thesis using v s by (simp add: upt_conv_Cons)
  next
    case (continue v1 x1)
    note v = attempt_body_fields[OF continue(2)]
    note s = attempt_body_step[OF continue(2) extends_refl]
    note ih = Cons.IH[OF continue(3)]
    have e1: "extends x1 x'" using ih by simp
    have t: "extends x x'" "new_times x x' = new_times x x1 @ new_times x1 x'"
      "new_log x x' = new_log x x1 @ new_log x1 x'"
      using step_log[OF s(1) e1] by simp_all
    have c: "calls x < calls x'" "calls x' \<le> calls x + length (s # ss)"
      using v(1) ih by simp_all
    have u: "[calls x..<calls x'] = calls x # [calls x1..<calls x']"
      using c(1) v(1) by (simp add: upt_conv_Cons)
    have nt: "new_times x x' =
        map (\<lambda>k. elapsed (w k)) (filter (\<lambda>k. makedirs_ok (w k)) [calls x..<calls x'])"
      unfolding u t(2) using s(3) ih by simp
    have "length (records_at [219, 260] (new_log x x')) = Suc (calls x' - calls x1)"
      unfolding t(3) using s(5) ih by simp
    then have nl: "length (records_at [219, 260] (new_log x x')) = calls x' - calls x"
      using c(1) v(1) by simp
    have g: "generated x' = generated x" "verbose x' = verbose x"
      using v ih by simp_all
    show ?thesis using t(1) g c nt nl by simp
  qed
qed

text \<open>The outcome records of a run of the loop: one failure record (line 260) for each
  attempt that fails, one success record (line 219) for each attempt that succeeds; the
  loop logs nothing at the lines of the requirement header and of the summary.\<close>

lemma strategy_loop_records:
  assumes "strategy_loop cfg w spec dir prog name tot ss v x = ((v', x'), raised)"
  shows "records_at [124, 393, 394, 395, 398, 400, 401] (new_log x x') = [] \<and>
     length (records_at [260] (new_log x x')) =
       length (filter (\<lambda>k. \<not> attempt_ok (w k)) [calls x..<calls x']) \<and>
     length (records_at [219] (new_log x x')) =
       length (filter (\<lambda>k. attempt_ok (w k)) [calls x..<calls x'])"
  using assms
proof (induction ss arbitrary: v x)
  case Nil
  then show ?case by simp
next
  case (Cons s ss)
  from Cons.prems show ?case
  proof (cases rule: strategy_loop_Cons)
    case skip
    then show ?thesis using skipped_loop[of v cfg w spec dir prog name tot ss x] by simp
  next
    case break
    note v = attempt_body_fields[OF break(2)]
    note s = attempt_body_step[OF break(2) extends_refl]
    show ?thesis using v(1) s(8,9,10) by (simp add: upt_conv_Cons)
  next
    case raise
    note v = attempt_body_fields[OF raise(2)]
    note s = attempt_body_step[OF raise(2) extends_refl]
    show ?thesis using v(1) s(8,9,10) by (simp add: upt_conv_Cons)
  next
    case (continue v1 x1)
    note v = attempt_body_fields[OF continue(2)]
    note s = attempt_body_step[OF continue(2) extends_refl]
    note ih = Cons.IH[OF continue(3)]
    note b = strategy_loop_basic[OF continue(3)]
    have e1: "extends x1 x'" using b by simp
    have t: "new_log x x' = new_log x x1 @ new_log x1 x'"
      using step_log[OF s(1) e1] by simp
    have c: "calls x < calls x'" using v(1) b by simp
    have u: "[calls x..<calls x'] = calls x # [calls x1..<calls x']"
      using c v(1) by (simp add: upt_conv_Cons)
    show ?thesis unfolding u t using s(8,9,10) ih by simp
  qed
qed

lemma strategy_loop_all_fail:
  assumes "strategy_loop cfg w spec dir prog name tot ss v x = ((v', x'), raised)"
    and "\<forall>k < length ss. \<not> attempt_ok (w (calls x + k))"
    and "\<not> download_success v \<or> DOWNLOAD_ALL_VERSIONS cfg"
  shows "\<not> raised \<and> download_success v' = download_success v \<and> calls x' = calls x + length ss \<and>
     length (records_at [260] (new_log x x')) = length ss"
  using assms
proof (induction ss arbitrary: v x)
  case Nil
  then show ?case by simp
next
  case (Cons s ss)
  have f0: "\<not> attempt_ok (w (calls x))" using Cons.prems(2) by force
  from Cons.prems(1) show ?case
  proof (cases rule: strategy_loop_Cons)
    case skip
    then show ?thesis using Cons.prems(3) by simp
  next
    case break
    then show ?thesis using attempt_body_vars(4)[OF break(2)] f0 by simp
  next
    case raise
    then show ?thesis using attempt_body_vars(4)[OF raise(2)] f0 by simp
  next
    case (continue v1 x1)
    note v = attempt_body_fields[OF continue(2)]
    note vv = attempt_body_vars[OF continue(2)]
    note s = attempt_body_step[OF continue(2) extends_refl]
    have p2: "\<forall>k < length ss. \<not> attempt_ok (w (calls x1 + k))"
      using Cons.prems(2) v(1) by fastforce
    have p3: "\<not> download_success v1 \<or> DOWNLOAD_ALL_VERSIONS cfg"
      using Cons.prems(3) vv(3) f0 by simp
    note ih = Cons.IH[OF continue(3) p2 p3]
    have e1: "extends x1 x'" using strategy_loop_basic[OF continue(3)] by simp
    have t: "new_log x x' = new_log x x1 @ new_log x1 x'"
      using step_log[OF s(1) e1] by simp
    have "length (records_at [260] (new_log x x1)) = 1" using s(6)[OF f0] by simp
    then show ?thesis using ih vv(3) f0 v(1) by (simp add: t)
  qed
qed

lemma strategy_loop_exhaustive:
  assumes "strategy_loop cfg w spec dir prog name tot ss v x = ((v', x'), raised)"
    and "DOWNLOAD_ALL_VERSIONS cfg" and "\<forall>k. \<not> raises (bat_append (w k))"
  shows "\<not> raised \<and> calls x' = calls x + length ss \<and>
     download_success v' = (download_success v \<or> True \<in> set (outcomes w (calls x) (length ss))) \<and>
     records_at [198] (new_log x x') =
       map (\<lambda>(i, s). attempt_line prog tot i s) (zip [attempt v + 1..<attempt v + 1 + length ss] ss)"
  using assms(1)
proof (induction ss arbitrary: v x)
  case Nil
  then show ?case by simp
next
  case (Cons s ss)
  from Cons.prems(1) show ?case
  proof (cases rule: strategy_loop_Cons)
    case skip
    then show ?thesis using assms(2) by simp
  next
    case break
    then show ?thesis using attempt_body_vars(4)[OF break(2)] assms(2) by (simp split: if_splits)
  next
    case raise
    then show ?thesis using attempt_body_vars(4)[OF raise(2)] assms(3) by (simp split: if_splits)
  next
    case (continue v1 x1)
    note v = attempt_body_fields[OF continue(2)]
    note vv = attempt_body_vars[OF continue(2)]
    note s = attempt_body_step[OF continue(2) extends_refl]
    note ih = Cons.IH[OF continue(3)]
    have e1: "extends x1 x'" using strategy_loop_basic[OF continue(3)] by simp
    have t: "new_log x x' = new_log x x1 @ new_log x1 x'"
      using step_log[OF s(1) e1] by simp
    have a: "\<not> raised \<and> calls x' = calls x + length (s # ss)" using ih v(1) by simp
    have b: "download_success v' =
        (download_success v \<or> True \<in> set (outcomes w (calls x) (length (s # ss))))"
      using ih vv(3) v(1) by (auto simp: outcomes_Suc)
    have c: "records_at [198] (new_log x x') =
        map (\<lambda>(i, s). attempt_line prog tot i s)
          (zip [attempt v + 1..<attempt v + 1 + length (s # ss)] (s # ss))"
    proof -
      have z: "[attempt v + 1..<attempt v + 1 + length (s # ss)] =
          (attempt v + 1) # [attempt v1 + 1..<attempt v1 + 1 + length ss]"
      proof -
        have "attempt v + 1 < attempt v + 1 + length (s # ss)" by simp
        from upt_conv_Cons[OF this] show ?thesis using vv(1) by (simp del: upt_Suc)
      qed
      have i: "records_at [198] (new_log x1 x') =
          map (\<lambda>(i, s). attempt_line prog tot i s) (zip [attempt v1 + 1..<attempt v1 + 1 + length ss] ss)"
        using ih by blast
      have "records_at [198] (new_log x x') =
          records_at [198] (new_log x x1) @ records_at [198] (new_log x1 x')"
        by (simp add: t)
      also have "\<dots> = map (\<lambda>(i, s). attempt_line prog tot i s)
          (zip ((attempt v + 1) # [attempt v1 + 1..<attempt v1 + 1 + length ss]) (s # ss))"
        unfolding i using s(4) by simp
      finally show ?thesis by (simp only: z)
    qed
    show ?thesis using a b c by blast
  qed
qed

lemma pip_commands_append [simp]: "pip_commands (a @ b) = pip_commands a @ pip_commands b"
  by (induction a rule: pip_commands.induct) simp_all

lemma written_append [simp]: "written (a @ b) = written a @ written b"
  by (induction a rule: written.induct) simp_all

lemma pip_commands_map_Write [simp]: "pip_commands (map Write_bat ts) = []"
  by (induction ts) simp_all

lemma one_time_effects_props:
  "filter is_one_time (one_time_effects cfg r spec dir name) = one_time_effects cfg r spec dir name"
  "takeWhile (\<lambda>e. \<not> is_one_time e) (one_time_effects cfg r spec dir name @ es) = []"
  "length (filter is_instruction_open (one_time_effects cfg r spec dir name)) = 1"
  "length (filter is_copy (one_time_effects cfg r spec dir name)) =
     (if COPY_FIRST_SET_TO_PARENT_DIRECTORY cfg \<and> \<not> raises (bat_append r) then 1 else 0)"
  "pip_commands (one_time_effects cfg r spec dir name) = []"
  by (simp_all add: one_time_effects_def filter_map comp_def split: write_answer.splits)

lemma one_time_effects_targets:
  "list_all (targets (package_subdir_of dir name) spec dir) (one_time_effects cfg r spec dir name)"
  by (auto simp: one_time_effects_def list_all_iff written_before_def
      split: write_answer.splits dest: in_set_takeD)

lemma command_of_targets:
  "take 4 (command_of dir name extra p) = [''pip'', ''download'', ''--dest'', package_subdir_of dir name]"
  by (simp add: command_of_def)

lemma strategy_loop_after_success:
  assumes "strategy_loop cfg w spec dir prog name tot ss v x = ((v', x'), raised)"
    and "DOWNLOAD_ALL_VERSIONS cfg" and "0 < attempt_success_count v"
  shows "\<not> raised \<and> filter is_one_time (new_effects x x') = []"
  using assms(1,3)
proof (induction ss arbitrary: v x)
  case Nil
  then show ?case by simp
next
  case (Cons s ss)
  from Cons.prems(1) show ?case
  proof (cases rule: strategy_loop_Cons)
    case skip
    then show ?thesis using assms(2) by simp
  next
    case break
    then show ?thesis using attempt_body_vars(4)[OF break(2)] assms(2) Cons.prems(2)
      by (simp split: if_splits)
  next
    case raise
    then show ?thesis using attempt_body_vars(4)[OF raise(2)] Cons.prems(2)
      by (simp split: if_splits)
  next
    case (continue v1 x1)
    note vv = attempt_body_vars[OF continue(2)]
    note s = attempt_body_step[OF continue(2) extends_refl]
    have c: "0 < attempt_success_count v1" using vv(2) Cons.prems(2) by simp
    note ih = Cons.IH[OF continue(3) c]
    have e1: "extends x1 x'" using strategy_loop_basic[OF continue(3)] by simp
    have t: "new_effects x x' = new_effects x x1 @ new_effects x1 x'"
      using step_log[OF s(1) e1] by simp
    have "filter is_one_time (new_effects x x1) = []" using s(2) Cons.prems(2) by simp
    then show ?thesis using ih by (simp add: t)
  qed
qed

lemma strategy_loop_first_success:
  assumes "strategy_loop cfg w spec dir prog name tot ss v x = ((v', x'), raised)"
    and "DOWNLOAD_ALL_VERSIONS cfg" and "attempt_success_count v = 0"
    and "\<forall>k. \<not> raises (bat_append (w k))"
  shows "filter is_one_time (new_effects x x') =
       (if True \<in> set (outcomes w (calls x) (length ss))
        then one_time_effects cfg (w (calls x + length (takeWhile Not (outcomes w (calls x) (length ss)))))
               spec dir name
        else []) \<and>
     length (filter is_makedirs (takeWhile (\<lambda>e. \<not> is_one_time e) (new_effects x x'))) =
       (if True \<in> set (outcomes w (calls x) (length ss))
        then Suc (length (takeWhile Not (outcomes w (calls x) (length ss))))
        else length ss)"
  using assms(1,3)
proof (induction ss arbitrary: v x)
  case Nil
  then show ?case by simp
next
  case (Cons s ss)
  from Cons.prems(1) show ?case
  proof (cases rule: strategy_loop_Cons)
    case skip
    then show ?thesis using assms(2) by simp
  next
    case break
    then show ?thesis using attempt_body_vars(4)[OF break(2)] assms(2) by (simp split: if_splits)
  next
    case raise
    then show ?thesis using attempt_body_vars(4)[OF raise(2)] assms(4) by (simp split: if_splits)
  next
    case (continue v1 x1)
    note v = attempt_body_fields[OF continue(2)]
    note vv = attempt_body_vars[OF continue(2)]
    note s = attempt_body_step[OF continue(2) extends_refl]
    have e1: "extends x1 x'" using strategy_loop_basic[OF continue(3)] by simp
    have t: "new_effects x x' = new_effects x x1 @ new_effects x1 x'"
      using step_log[OF s(1) e1] by simp
    define A where "A = Makedirs (package_subdir_of dir name) #
       (if makedirs_ok (w (calls x))
        then [Subprocess_run (command_of dir name s
               (case known_dependencies (lower name) of Some d \<Rightarrow> d | None \<Rightarrow> spec))]
        else [])"
    have A: "filter is_one_time A = []" "length (filter is_makedirs A) = 1"
      "\<And>es. takeWhile (\<lambda>e. \<not> is_one_time e) (A @ es) = A @ takeWhile (\<lambda>e. \<not> is_one_time e) es"
      by (simp_all add: A_def)
    show ?thesis
    proof (cases "attempt_ok (w (calls x))")
      case True
      have h: "new_effects x x1 = A @ one_time_effects cfg (w (calls x)) spec dir name"
        using s(2) True Cons.prems(2) by (simp add: A_def)
      have c: "0 < attempt_success_count v1" using vv(2) True by simp
      have r: "filter is_one_time (new_effects x1 x') = []"
        using strategy_loop_after_success[OF continue(3) assms(2) c] by simp
      show ?thesis
        using True A(1,2) r
        by (simp add: t h outcomes_Suc one_time_effects_props(1,2) A(3))
    next
      case False
      have h: "new_effects x x1 = A" using s(2) False by (simp add: A_def)
      have c: "attempt_success_count v1 = 0" using vv(2) False Cons.prems(2) by simp
      note ih = Cons.IH[OF continue(3) c]
      show ?thesis using False A(1,2) ih v(1) by (simp add: t h outcomes_Suc A(3))
    qed
  qed
qed

lemma strategy_loop_targets:
  assumes "strategy_loop cfg w spec dir prog name tot ss v x = ((v', x'), raised)"
  shows "list_all (targets (package_subdir_of dir name) spec dir) (new_effects x x')"
  using assms
proof (induction ss arbitrary: v x)
  case Nil
  then show ?case by simp
next
  case (Cons s ss)
  from Cons.prems(1) show ?case
  proof (cases rule: strategy_loop_Cons)
    case skip
    then show ?thesis using skipped_loop[of v cfg w spec dir prog name tot ss x] by simp
  next
    case break
    note s = attempt_body_step[OF break(2) extends_refl]
    show ?thesis by (simp add: s(2) one_time_effects_targets command_of_targets)
  next
    case raise
    note s = attempt_body_step[OF raise(2) extends_refl]
    show ?thesis by (simp add: s(2) one_time_effects_targets command_of_targets)
  next
    case (continue v1 x1)
    note s = attempt_body_step[OF continue(2) extends_refl]
    have e1: "extends x1 x'" using strategy_loop_basic[OF continue(3)] by simp
    have t: "new_effects x x' = new_effects x x1 @ new_effects x1 x'"
      using step_log[OF s(1) e1] by simp
    have "list_all (targets (package_subdir_of dir name) spec dir) (new_effects x x1)"
      by (simp add: s(2) one_time_effects_targets command_of_targets)
    then show ?thesis using Cons.IH[OF continue(3)] by (simp add: t)
  qed
qed

text \<open>The loop in a world where every fetch and every write succeeds.\<close>

lemma strategy_loop_quiet:
  assumes "strategy_loop cfg w spec dir prog name tot ss v x = ((v', x'), raised)"
    and "\<forall>k. attempt_ok (w k) \<and> bat_append_ok (w k) \<and> copy_quiet cfg (w k)"
  shows "\<not> raised \<and> severe (new_log x x') = [] \<and>
     (download_success v \<or> ss \<noteq> [] \<longrightarrow> download_success v') \<and>
     pip_commands (new_effects x x') =
       map (\<lambda>strategy. command_of dir name strategy
              (case known_dependencies (lower name) of Some d \<Rightarrow> d | None \<Rightarrow> spec))
         (if DOWNLOAD_ALL_VERSIONS cfg then ss else if download_success v then [] else take 1 ss)"
  using assms(1)
proof (induction ss arbitrary: v x)
  case Nil
  then show ?case by simp
next
  case (Cons s ss)
  have ok: "attempt_ok (w (calls x))" "makedirs_ok (w (calls x))"
    "\<not> raises (bat_append (w (calls x)))"
    using assms(2) by (auto simp: attempt_ok_def bat_append_ok_def raises_def)
  from Cons.prems(1) show ?case
  proof (cases rule: strategy_loop_Cons)
    case skip
    then show ?thesis using skipped_loop[of v cfg w spec dir prog name tot ss x] by simp
  next
    case break
    note s = attempt_body_step[OF break(2) extends_refl]
    have "\<not> DOWNLOAD_ALL_VERSIONS cfg" "\<not> download_success v"
      using attempt_body_vars(4)[OF break(2)] break(1) by (auto split: if_splits)
    then show ?thesis
      using s(7) attempt_body_vars(3)[OF break(2)] assms(2) break(3) ok
      by (simp add: s(2) one_time_effects_props(5))
  next
    case raise
    then show ?thesis using attempt_body_vars(4)[OF raise(2)] ok by (simp split: if_splits)
  next
    case (continue v1 x1)
    note s = attempt_body_step[OF continue(2) extends_refl]
    have a: "DOWNLOAD_ALL_VERSIONS cfg"
      using attempt_body_vars(4)[OF continue(2)] ok by (auto split: if_splits)
    have e1: "extends x1 x'" using strategy_loop_basic[OF continue(3)] by simp
    have t: "new_log x x' = new_log x x1 @ new_log x1 x'"
      "new_effects x x' = new_effects x x1 @ new_effects x1 x'"
      using step_log[OF s(1) e1] by simp_all
    have "severe (new_log x x1) = []" using s(7) assms(2) by simp
    moreover have "download_success v1" using attempt_body_vars(3)[OF continue(2)] assms(2) by simp
    moreover have "pip_commands (new_effects x x1) =
        [command_of dir name s (case known_dependencies (lower name) of Some d \<Rightarrow> d | None \<Rightarrow> spec)]"
      using ok by (simp add: s(2) one_time_effects_props(5))
    ultimately show ?thesis using Cons.IH[OF continue(3)] a by (simp add: t)
  qed
qed

text \<open>The loop when the first fetch succeeds and the instruction cannot be encoded.\<close>

lemma strategy_loop_raise_first:
  assumes "strategy_loop cfg w spec dir prog name tot (s # ss) v x = ((v', x'), raised)"
    and "\<not> download_success v" "attempt_success_count v = 0"
    and "attempt_ok (w (calls x))" "raises (bat_append (w (calls x)))"
  shows "raised \<and> calls x' = Suc (calls x) \<and>
     pip_commands (new_effects x x') =
       [command_of dir name s (case known_dependencies (lower name) of Some d \<Rightarrow> d | None \<Rightarrow> spec)]"
  using assms(1)
proof (cases rule: strategy_loop_Cons)
  case skip
  then show ?thesis using assms(2) by simp
next
  case break
  then show ?thesis using attempt_body_vars(4)[OF break(2)] assms(3-5) by simp
next
  case raise
  note s = attempt_body_step[OF raise(2) extends_refl]
  have "makedirs_ok (w (calls x))" using assms(4) by (simp add: attempt_ok_def)
  then show ?thesis
    using raise(3) attempt_body_fields(1)[OF raise(2)]
    by (simp add: s(2) one_time_effects_props(5))
next
  case (continue v1 x1)
  then show ?thesis using attempt_body_vars(4)[OF continue(2)] assms(3-5) by simp
qed

text \<open>The commands of the loop under the exhaustive policy: one for each strategy, in
  order, whose subdirectory could be created.\<close>

lemma strategy_loop_exhaustive_commands:
  assumes "strategy_loop cfg w spec dir prog name tot ss v x = ((v', x'), raised)"
    and "DOWNLOAD_ALL_VERSIONS cfg" and "\<forall>k. \<not> raises (bat_append (w k))"
  shows "pip_commands (new_effects x x') =
       map (\<lambda>(k, strategy). command_of dir name strategy
              (case known_dependencies (lower name) of Some d \<Rightarrow> d | None \<Rightarrow> spec))
         (filter (\<lambda>(k, strategy). makedirs_ok (w k)) (zip [calls x..<calls x + length ss] ss))"
  using assms(1)
proof (induction ss arbitrary: v x)
  case Nil
  then show ?case by simp
next
  case (Cons s ss)
  from Cons.prems(1) show ?case
  proof (cases rule: strategy_loop_Cons)
    case skip
    then show ?thesis using assms(2) by simp
  next
    case break
    then show ?thesis using attempt_body_vars(4)[OF break(2)] assms(2) by (simp split: if_splits)
  next
    case raise
    then show ?thesis using attempt_body_vars(4)[OF raise(2)] assms(3) by (simp split: if_splits)
  next
    case (continue v1 x1)
    note v = attempt_body_fields[OF continue(2)]
    note s = attempt_body_step[OF continue(2) extends_refl]
    note ih = Cons.IH[OF continue(3)]
    have e1: "extends x1 x'" using strategy_loop_basic[OF continue(3)] by simp
    have t: "new_effects x x' = new_effects x x1 @ new_effects x1 x'"
      using step_log[OF s(1) e1] by simp
    have z: "[calls x..<calls x + length (s # ss)] = calls x # [calls x1..<calls x1 + length ss]"
    proof -
      have "calls x < calls x + length (s # ss)" by simp
      from upt_conv_Cons[OF this] show ?thesis using v(1) by (simp del: upt_Suc)
    qed
    have h: "pip_commands (new_effects x x1) =
        (if makedirs_ok (w (calls x))
         then [command_of dir name s
                 (case known_dependencies (lower name) of Some d \<Rightarrow> d | None \<Rightarrow> spec)]
         else [])"
      by (simp add: s(2) one_time_effects_props(5))
    show ?thesis unfolding t z using h ih by simp
  qed
qed

section \<open>Properties of the driver\<close>

lemma strategy_loop_no_raise:
  assumes "strategy_loop cfg w spec dir prog name tot ss v x = ((v', x'), raised)"
    and "\<forall>k. \<not> raises (bat_append (w k))"
  shows "\<not> raised"
  using assms(1)
proof (induction ss arbitrary: v x)
  case Nil
  then show ?case by simp
next
  case (Cons s ss)
  from Cons.prems(1) show ?case
  proof (cases rule: strategy_loop_Cons)
    case skip
    then show ?thesis using Cons.IH by blast
  next
    case break
    then show ?thesis by simp
  next
    case raise
    then show ?thesis using attempt_body_vars(4)[OF raise(2)] assms(2) by (simp split: if_splits)
  next
    case (continue v1 x1)
    then show ?thesis using Cons.IH by blast
  qed
qed

lemma records_at_sub:
  "records_at ls rs = [] \<Longrightarrow> set ls' \<subseteq> set ls \<Longrightarrow> records_at ls' rs = []"
  by (auto simp: records_at_def filter_empty_conv)

lemma driver_unfold:
  obtains v' x0 x' raised m0 m1 m2 where
    "x0 = note_generated (download_strategies cfg) (logging INFO 124 m0 st)"
    "strategy_loop cfg w spec dir prog (name_only spec) (length (download_strategies cfg))
       (download_strategies cfg)
       \<lparr>attempt = 0, attempt_success_count = 0, download_success = False\<rparr> x0 = ((v', x'), raised)"
    "download_package_with_deps cfg w spec dir prog st =
       (if raised then (None, x')
        else (Some (download_success v'),
              if download_success v' then logging INFO 265 m1 x' else logging ERROR 267 m2 x'))"
proof -
  define m0 where "m0 = ''Processing '' @ prog @ '': ['' @ name_only spec @
                 ''] (Full spec: '' @ spec @ '')''"
  define x0 where "x0 = note_generated (download_strategies cfg) (logging INFO 124 m0 st)"
  obtain v' x' raised where l: "strategy_loop cfg w spec dir prog (name_only spec)
       (length (download_strategies cfg)) (download_strategies cfg)
       \<lparr>attempt = 0, attempt_success_count = 0, download_success = False\<rparr> x0 = ((v', x'), raised)"
    by (metis surj_pair)
  have "download_package_with_deps cfg w spec dir prog st =
       (if raised then (None, x')
        else (Some (download_success v'),
        if download_success v'
        then logging INFO 265 (''Successfully downloaded artifacts for '' @ prog @ '' ['' @
                       name_only spec @ ''] in '' @ str_nat (attempt_success_count v') @
                       '' attempt(s).'') x'
        else logging ERROR 267 (''FAILED to download any suitable artifacts for '' @ prog @
                       '' ['' @ name_only spec @ ''] after '' @
                       str_nat (length (download_strategies cfg)) @ '' attempts.'') x'))"
    unfolding download_package_with_deps_def Let_def m0_def[symmetric] x0_def[symmetric] l
    by simp
  then show ?thesis using that[OF x0_def l] by blast
qed

text \<open>The driver, seen from outside.\<close>

lemma driver_facts:
  fixes cfg w spec dir prog st
  defines "r \<equiv> download_package_with_deps cfg w spec dir prog st"
  defines "ss \<equiv> download_strategies cfg"
  shows "extends st (snd r)"
    and "generated (snd r) = generated st @ [ss]"
    and "verbose (snd r) = verbose st"
    and "calls st \<le> calls (snd r)"
    and "new_times st (snd r) =
       map (\<lambda>k. elapsed (w k)) (filter (\<lambda>k. makedirs_ok (w k)) [calls st..<calls (snd r)])"
    and "length (records_at [219, 260] (new_log st (snd r))) = calls (snd r) - calls st"
    and "list_all (targets (package_subdir_of dir (name_only spec)) spec dir) (new_effects st (snd r))"
    and "\<forall>k < length ss. \<not> attempt_ok (w (calls st + k)) \<Longrightarrow>
       fst r = Some False \<and> calls (snd r) = calls st + length ss \<and>
       length (records_at [260] (new_log st (snd r))) = length ss"
    and "\<forall>k. attempt_ok (w k) \<and> bat_append_ok (w k) \<and> copy_quiet cfg (w k) \<Longrightarrow>
       fst r = Some True \<and> severe (new_log st (snd r)) = [] \<and>
       pip_commands (new_effects st (snd r)) =
         map (\<lambda>strategy. command_of dir (name_only spec) strategy (spec_for_pip_of spec))
           (attempted cfg)"
    and "attempt_ok (w (calls st)) \<Longrightarrow> raises (bat_append (w (calls st))) \<Longrightarrow>
       fst r = None \<and> calls (snd r) = Suc (calls st) \<and>
       pip_commands (new_effects st (snd r)) =
         [command_of dir (name_only spec) (hd ss) (spec_for_pip_of spec)]"
    and "\<forall>k. \<not> raises (bat_append (w k)) \<Longrightarrow> fst r \<noteq> None"
    and "length (records_at [124] (new_log st (snd r))) = 1"
    and "records_at [393, 394, 395, 398, 400, 401] (new_log st (snd r)) = []"
    and "length (records_at [260] (new_log st (snd r))) =
       length (filter (\<lambda>k. \<not> attempt_ok (w k)) [calls st..<calls (snd r)])"
    and "length (records_at [219] (new_log st (snd r))) =
       length (filter (\<lambda>k. attempt_ok (w k)) [calls st..<calls (snd r)])"
proof -
  obtain v' x0 x' raised m0 m1 m2 where
    x0: "x0 = note_generated ss (logging INFO 124 m0 st)" and
    l: "strategy_loop cfg w spec dir prog (name_only spec) (length ss) ss
       \<lparr>attempt = 0, attempt_success_count = 0, download_success = False\<rparr> x0 = ((v', x'), raised)" and
    r: "r = (if raised then (None, x')
        else (Some (download_success v'),
              if download_success v' then logging INFO 265 m1 x' else logging ERROR 267 m2 x'))"
    unfolding r_def ss_def by (rule driver_unfold)
  note b = strategy_loop_basic[OF l]
  have e0: "extends st x0" by (simp add: x0)
  have e1: "extends x0 x'" using b by simp
  note t = step_log[OF e0 e1]
  have f0: "calls x0 = calls st" "generated x0 = generated st @ [ss]" "verbose x0 = verbose st"
    "new_log st x0 = [(INFO, 124, m0)]" "new_effects st x0 = []" "new_times st x0 = []"
    by (simp_all add: x0)
  have ex: "extends st x'" using t by simp
  have ne: "ss \<noteq> []" by (simp add: ss_def download_strategies_def)
  show "extends st (snd r)" using ex by (simp add: r)
  show "generated (snd r) = generated st @ [ss]" using b f0 by (simp add: r)
  show "verbose (snd r) = verbose st" using b f0 by (simp add: r)
  show "calls st \<le> calls (snd r)" using b f0 by (simp add: r)
  have nt: "new_times st (snd r) = new_times x0 x'" using ex t f0 by (simp add: r)
  show "new_times st (snd r) =
       map (\<lambda>k. elapsed (w k)) (filter (\<lambda>k. makedirs_ok (w k)) [calls st..<calls (snd r)])"
    unfolding nt using b f0 by (simp add: r)
  have nl: "records_at ls (new_log st (snd r)) = records_at ls (new_log x0 x')"
    if "set ls \<subseteq> {198, 219, 260}" for ls
    using ex t f0 that by (auto simp: r)
  show "length (records_at [219, 260] (new_log st (snd r))) = calls (snd r) - calls st"
    using nl[of "[219, 260]"] b f0 by (simp add: r)
  have ne': "new_effects st (snd r) = new_effects x0 x'" using ex t f0 by (simp add: r)
  show "list_all (targets (package_subdir_of dir (name_only spec)) spec dir) (new_effects st (snd r))"
    unfolding ne' by (rule strategy_loop_targets[OF l])
  show "fst r = Some False \<and> calls (snd r) = calls st + length ss \<and>
       length (records_at [260] (new_log st (snd r))) = length ss"
    if "\<forall>k < length ss. \<not> attempt_ok (w (calls st + k))"
  proof -
    have "\<forall>k < length ss. \<not> attempt_ok (w (calls x0 + k))" using that f0 by simp
    from strategy_loop_all_fail[OF l this] nl[of "[260]"] f0 show ?thesis by (simp add: r)
  qed
  show "fst r = Some True \<and> severe (new_log st (snd r)) = [] \<and>
       pip_commands (new_effects st (snd r)) =
         map (\<lambda>strategy. command_of dir (name_only spec) strategy (spec_for_pip_of spec))
           (attempted cfg)"
    if q: "\<forall>k. attempt_ok (w k) \<and> bat_append_ok (w k) \<and> copy_quiet cfg (w k)"
  proof -
    from strategy_loop_quiet[OF l q] ne
    have d: "\<not> raised" "download_success v'" "severe (new_log x0 x') = []"
      "pip_commands (new_effects x0 x') =
         map (\<lambda>strategy. command_of dir (name_only spec) strategy (spec_for_pip_of spec))
           (attempted cfg)"
      by (simp_all add: spec_for_pip_of_def attempted_def ss_def)
    show ?thesis using d(1,2,3) ex t f0 unfolding ne' d(4)[symmetric] by (simp add: r)
  qed
  show "fst r = None \<and> calls (snd r) = Suc (calls st) \<and>
       pip_commands (new_effects st (snd r)) =
         [command_of dir (name_only spec) (hd ss) (spec_for_pip_of spec)]"
    if a: "attempt_ok (w (calls st))" "raises (bat_append (w (calls st)))"
  proof -
    obtain s rest where c: "ss = s # rest" using ne by (cases ss) auto
    have a': "attempt_ok (w (calls x0))" "raises (bat_append (w (calls x0)))" using a f0 by simp_all
    from strategy_loop_raise_first[OF l[unfolded c] _ _ a']
    show ?thesis unfolding ne' using f0(1) by (simp add: r c spec_for_pip_of_def)
  qed
  show "fst r \<noteq> None" if "\<forall>k. \<not> raises (bat_append (w k))"
    using strategy_loop_no_raise[OF l that] by (simp add: r)
  note rc = strategy_loop_records[OF l]
  have z: "records_at [124] (new_log x0 x') = []" "records_at [393, 394, 395, 398, 400, 401] (new_log x0 x') = []"
    using rc by (auto intro: records_at_sub)
  show "length (records_at [124] (new_log st (snd r))) = 1"
    using ex t f0 z by (simp add: r)
  show "records_at [393, 394, 395, 398, 400, 401] (new_log st (snd r)) = []"
    using ex t f0 z by (simp add: r)
  show "length (records_at [260] (new_log st (snd r))) =
       length (filter (\<lambda>k. \<not> attempt_ok (w k)) [calls st..<calls (snd r)])"
    using nl[of "[260]"] rc f0 by (simp add: r)
  show "length (records_at [219] (new_log st (snd r))) =
       length (filter (\<lambda>k. attempt_ok (w k)) [calls st..<calls (snd r)])"
    using nl[of "[219]"] rc f0 by (simp add: r)
qed

lemma driver_exhaustive:
  fixes cfg w spec dir prog st
  defines "r \<equiv> download_package_with_deps cfg w spec dir prog st"
  defines "ss \<equiv> download_strategies cfg"
  defines "oks \<equiv> outcomes w (calls st) (length ss)"
  assumes a: "DOWNLOAD_ALL_VERSIONS cfg" and n: "\<forall>k. \<not> raises (bat_append (w k))"
  shows "calls (snd r) = calls st + length ss"
    and "fst r = Some (True \<in> set oks)"
    and "records_at [198] (new_log st (snd r)) =
       map (\<lambda>(i, s). attempt_line prog (length ss) i s) (zip [1..<1 + length ss] ss)"
    and "filter is_one_time (new_effects st (snd r)) =
       (if True \<in> set oks
        then one_time_effects cfg (w (calls st + length (takeWhile Not oks))) spec dir (name_only spec)
        else [])"
    and "True \<in> set oks \<Longrightarrow>
       length (filter is_makedirs (takeWhile (\<lambda>e. \<not> is_one_time e) (new_effects st (snd r)))) =
       Suc (length (takeWhile Not oks))"
    and "pip_commands (new_effects st (snd r)) =
       map (\<lambda>(k, strategy). command_of dir (name_only spec) strategy (spec_for_pip_of spec))
         (filter (\<lambda>(k, strategy). makedirs_ok (w k)) (zip [calls st..<calls st + length ss] ss))"
proof -
  obtain v' x0 x' raised m0 m1 m2 where
    x0: "x0 = note_generated ss (logging INFO 124 m0 st)" and
    l: "strategy_loop cfg w spec dir prog (name_only spec) (length ss) ss
       \<lparr>attempt = 0, attempt_success_count = 0, download_success = False\<rparr> x0 = ((v', x'), raised)" and
    r: "r = (if raised then (None, x')
        else (Some (download_success v'),
              if download_success v' then logging INFO 265 m1 x' else logging ERROR 267 m2 x'))"
    unfolding r_def ss_def by (rule driver_unfold)
  note b = strategy_loop_basic[OF l]
  have e0: "extends st x0" by (simp add: x0)
  have e1: "extends x0 x'" using b by simp
  note t = step_log[OF e0 e1]
  have f0: "calls x0 = calls st"
    "new_log st x0 = [(INFO, 124, m0)]" "new_effects st x0 = []"
    by (simp_all add: x0)
  have ex: "extends st x'" using t by simp
  note e = strategy_loop_exhaustive[OF l a n]
  note f = strategy_loop_first_success[OF l a _ n]
  have nr: "\<not> raised" using e by simp
  show "calls (snd r) = calls st + length ss" using e f0 by (simp add: r)
  show "fst r = Some (True \<in> set oks)" using e f0 by (simp add: r oks_def)
  show "records_at [198] (new_log st (snd r)) =
       map (\<lambda>(i, s). attempt_line prog (length ss) i s) (zip [1..<1 + length ss] ss)"
    using e ex t f0 by (auto simp: r)
  have ne: "new_effects st (snd r) = new_effects x0 x'" using ex t f0 by (simp add: r)
  show "filter is_one_time (new_effects st (snd r)) =
       (if True \<in> set oks
        then one_time_effects cfg (w (calls st + length (takeWhile Not oks))) spec dir (name_only spec)
        else [])"
    unfolding ne using f f0 by (simp add: oks_def)
  show "length (filter is_makedirs (takeWhile (\<lambda>e. \<not> is_one_time e) (new_effects st (snd r)))) =
       Suc (length (takeWhile Not oks))" if "True \<in> set oks"
    unfolding ne using f f0 that by (simp add: oks_def)
  show "pip_commands (new_effects st (snd r)) =
       map (\<lambda>(k, strategy). command_of dir (name_only spec) strategy (spec_for_pip_of spec))
         (filter (\<lambda>(k, strategy). makedirs_ok (w k)) (zip [calls st..<calls st + length ss] ss))"
    unfolding ne spec_for_pip_of_def using strategy_loop_exhaustive_commands[OF l a n] f0(1) by simp
qed

section \<open>Properties of the run over all requirements\<close>

lemma targets_commands:
  "list_all (targets p spec dir) es \<Longrightarrow>
     (\<forall>c \<in> set (pip_commands es). take 4 c = [''pip'', ''download'', ''--dest'', p]) \<and>
     (\<forall>t \<in> set (written es). t \<in> set (install_instruction spec p))"
  by (induction es rule: pip_commands.induct) simp_all

lemma package_loop_Cons:
  "package_loop cfg w dir tot (p # rest) (pc, succ, failed) st =
     (let r = download_package_with_deps cfg w p dir
                (''['' @ str_nat (pc + 1) @ ''/'' @ str_nat tot @ '']'') st
      in case fst r of
           None \<Rightarrow> (((pc + 1, succ, failed), snd r), True)
         | Some ok \<Rightarrow>
             package_loop cfg w dir tot rest
               (pc + 1, if ok then succ @ [p] else succ, if ok then failed else failed @ [p])
               (logging INFO 371 ''------------------------------------------------------------------''
                  (snd r)))"
  by (simp add: Let_def case_prod_beta split: option.split)

lemma package_loop_facts:
  assumes "package_loop cfg w dir tot pkgs (pc, succ, failed) st = (((pc', succ', failed'), st'), raised)"
  shows "extends st st' \<and> verbose st' = verbose st \<and>
     generated st' = generated st @ replicate (pc' - pc) (download_strategies cfg) \<and>
     pc \<le> pc' \<and> pc' \<le> pc + length pkgs \<and> (\<not> raised \<longrightarrow> pc' = pc + length pkgs) \<and>
     (\<forall>c \<in> set (pip_commands (new_effects st st')). \<exists>s \<in> set pkgs.
        take 4 c = [''pip'', ''download'', ''--dest'', package_subdir_of dir (name_only s)]) \<and>
     ((\<forall>k. attempt_ok (w k) \<and> bat_append_ok (w k) \<and> copy_quiet cfg (w k)) \<longrightarrow>
        \<not> raised \<and> severe (new_log st st') = [] \<and> failed' = failed \<and> succ' = succ @ pkgs \<and>
        pip_commands (new_effects st st') = commands_of cfg dir pkgs) \<and>
     ((\<forall>k. \<not> attempt_ok (w k)) \<longrightarrow> \<not> raised \<and> failed' = failed @ pkgs \<and> succ' = succ) \<and>
     ((\<forall>k. \<not> raises (bat_append (w k))) \<longrightarrow> \<not> raised) \<and>
     (pkgs \<noteq> [] \<and> attempt_ok (w (calls st)) \<and> raises (bat_append (w (calls st))) \<longrightarrow>
        raised \<and> calls st' = Suc (calls st)) \<and>
     length (records_at [124] (new_log st st')) = pc' - pc \<and>
     records_at [393, 394, 395, 398, 400, 401] (new_log st st') = [] \<and>
     length succ' + length failed' = length succ + length failed + (pc' - pc) - (if raised then 1 else 0)"
  using assms
proof (induction pkgs arbitrary: pc succ failed st)
  case Nil
  then show ?case by (simp add: commands_of_def)
next
  case (Cons p rest)
  define r where "r = download_package_with_deps cfg w p dir
                (''['' @ str_nat (pc + 1) @ ''/'' @ str_nat tot @ '']'') st"
  define st1 where "st1 = snd r"
  note f = driver_facts[where cfg=cfg and w=w and spec=p and dir=dir and st=st and
      prog="''['' @ str_nat (pc + 1) @ ''/'' @ str_nat tot @ '']''",
      folded r_def, folded st1_def]
  have c1: "\<forall>c \<in> set (pip_commands (new_effects st st1)).
      take 4 c = [''pip'', ''download'', ''--dest'', package_subdir_of dir (name_only p)]"
    using targets_commands[OF f(7)] by simp
  have cc: "commands_of cfg dir (p # rest) =
      map (\<lambda>strategy. command_of dir (name_only p) strategy (spec_for_pip_of p)) (attempted cfg) @
      commands_of cfg dir rest"
    by (simp add: commands_of_def)
  show ?case
  proof (cases "fst r")
    case None
    have u: "package_loop cfg w dir tot (p # rest) (pc, succ, failed) st =
         (((pc + 1, succ, failed), st1), True)"
      unfolding package_loop_Cons Let_def r_def[symmetric] st1_def using None by simp
    have eq: "pc' = pc + 1" "succ' = succ" "failed' = failed" "st' = st1" "raised"
      using Cons.prems u by simp_all
    have q: "\<not> (\<forall>k. attempt_ok (w k) \<and> bat_append_ok (w k) \<and> copy_quiet cfg (w k))"
      using f(9) None by auto
    have d: "\<not> (\<forall>k. \<not> attempt_ok (w k))" using f(8) None by auto
    have n: "\<not> (\<forall>k. \<not> raises (bat_append (w k)))" using f(11) None by auto
    have h: "attempt_ok (w (calls st)) \<and> raises (bat_append (w (calls st))) \<longrightarrow>
        calls st1 = Suc (calls st)" using f(10) by simp
    show ?thesis unfolding eq(1-4) using f(1,2,3,12,13) c1 q d n h eq(5) by simp
  next
    case (Some ok)
    have u: "package_loop cfg w dir tot (p # rest) (pc, succ, failed) st =
         package_loop cfg w dir tot rest
           (pc + 1, if ok then succ @ [p] else succ, if ok then failed else failed @ [p])
           (logging INFO 371 ''------------------------------------------------------------------'' st1)"
      unfolding package_loop_Cons Let_def r_def[symmetric] st1_def using Some by simp
    define st2 where
      "st2 = logging INFO 371 ''------------------------------------------------------------------'' st1"
    have r: "package_loop cfg w dir tot rest
           (pc + 1, if ok then succ @ [p] else succ, if ok then failed else failed @ [p]) st2 =
         (((pc', succ', failed'), st'), raised)"
      using Cons.prems u by (simp add: st2_def)
    note ih = Cons.IH[OF r]
    have e2: "extends st st2" "new_log st st2 = new_log st st1 @ [(INFO, 371, ''------------------------------------------------------------------'')]"
      "new_effects st st2 = new_effects st st1" "verbose st2 = verbose st"
      "generated st2 = generated st @ [download_strategies cfg]"
      using f(1,2,3) by (simp_all add: st2_def)
    have e3: "extends st2 st'" using ih by simp
    note t = step_log[OF e2(1) e3]
    have le: "pc + 1 \<le> pc'" using ih by simp
    then have rep: "replicate (pc' - pc) (download_strategies cfg) =
        download_strategies cfg # replicate (pc' - (pc + 1)) (download_strategies cfg)"
      by (cases "pc' - pc") (simp_all add: Suc_diff_Suc)
    have a: "extends st st' \<and> verbose st' = verbose st \<and>
       generated st' = generated st @ replicate (pc' - pc) (download_strategies cfg) \<and>
       pc \<le> pc' \<and> pc' \<le> pc + length (p # rest) \<and> (\<not> raised \<longrightarrow> pc' = pc + length (p # rest))"
      using t ih e2 le unfolding rep by simp
    have b: "\<forall>c \<in> set (pip_commands (new_effects st st')). \<exists>s \<in> set (p # rest).
          take 4 c = [''pip'', ''download'', ''--dest'', package_subdir_of dir (name_only s)]"
      using t ih c1 e2(3) by auto
    have c: "\<not> raised \<and> severe (new_log st st') = [] \<and> failed' = failed \<and> succ' = succ @ p # rest \<and>
        pip_commands (new_effects st st') = commands_of cfg dir (p # rest)"
      if q: "\<forall>k. attempt_ok (w k) \<and> bat_append_ok (w k) \<and> copy_quiet cfg (w k)"
    proof -
      have "ok" "severe (new_log st st1) = []"
        "pip_commands (new_effects st st1) =
           map (\<lambda>strategy. command_of dir (name_only p) strategy (spec_for_pip_of p)) (attempted cfg)"
        using f(9)[OF q] Some by simp_all
      then show ?thesis using ih q t e2(2,3) unfolding cc by simp
    qed
    have d: "\<not> raised \<and> failed' = failed @ p # rest \<and> succ' = succ"
      if q: "\<forall>k. \<not> attempt_ok (w k)"
    proof -
      have "\<not> ok" using f(8) q Some by simp
      then show ?thesis using ih q by simp
    qed
    have n: "\<not> raised" if "\<forall>k. \<not> raises (bat_append (w k))"
      using ih that by simp
    have h: "\<not> (attempt_ok (w (calls st)) \<and> raises (bat_append (w (calls st))))"
      using f(10) Some by auto
    have g: "length (records_at [124] (new_log st st')) = pc' - pc \<and>
        records_at [393, 394, 395, 398, 400, 401] (new_log st st') = []"
      using t ih e2(2) f(12,13) le by simp
    have j: "length succ' + length failed' =
        length succ + length failed + (pc' - pc) - (if raised then 1 else 0)"
    proof -
      have "length succ' + length failed' =
          length succ + length failed + 1 + (pc' - (pc + 1)) - (if raised then 1 else 0)"
        using ih by (cases ok) simp_all
      then show ?thesis using le by simp
    qed
    show ?thesis using a b c d n h g j by blast
  qed
qed

lemma extends_log: "extends st st' \<Longrightarrow> log_records st' = log_records st @ new_log st st'"
  by (metis append_take_drop_id extends_def new_log_def)

lemma final_summary_fields [simp]:
  "generated (final_summary req pc n succ failed x) = generated x"
  "verbose (final_summary req pc n succ failed x) = verbose x"
  "effects (final_summary req pc n succ failed x) = effects x"
  by (simp_all add: final_summary_def Let_def)

lemma map_records_at_in:
  "n \<in> set ls \<Longrightarrow> records_at ls (map (\<lambda>i. (l, n, f i)) xs) = map (\<lambda>i. (l, n, f i)) xs"
  by (induction xs) auto

lemma map_records_at_out:
  "n \<notin> set ls \<Longrightarrow> records_at ls (map (\<lambda>i. (l, n, f i)) xs) = []"
  by (induction xs) auto

lemma final_summary_step:
  assumes "extends st x"
  shows "extends st (final_summary req pc n succ failed x)"
    "new_effects st (final_summary req pc n succ failed x) = new_effects st x"
    "(INFO, 393, ''Offline dependency download process finished.'') \<in>
       set (new_log st (final_summary req pc n succ failed x))"
    "failed = [] \<Longrightarrow> severe (new_log st (final_summary req pc n succ failed x)) = severe (new_log st x)"
    "records_at [124] (new_log st (final_summary req pc n succ failed x)) = records_at [124] (new_log st x)"
    "records_at [393, 394, 395, 398, 400, 401] (new_log st (final_summary req pc n succ failed x)) =
       records_at [393, 394, 395, 398, 400, 401] (new_log st x) @
       [(INFO, 393, ''Offline dependency download process finished.''),
        (INFO, 394, ''Processed '' @ str_nat pc @ ''/'' @ str_nat n @ '' top-level requirements from '' @
                    squote @ req @ squote @ ''.''),
        (INFO, 395, str_nat (length succ) @ '' packages had at least one successful download strategy.'')] @
       (if failed \<noteq> []
        then (WARNING, 398, ''FAILED to download any suitable artifacts for '' @
                str_nat (length failed) @ '' packages after all attempts:'') #
             map (\<lambda>pkg. (WARNING, 400, ''  - '' @ pkg)) failed @
             [(WARNING, 401, ''Offline installation will likely fail for these packages.'')]
        else [])"
  using assms by (simp_all add: final_summary_def Let_def map_records_at_out map_records_at_in)

lemma timing_statistics_fields [simp]:
  "generated (timing_statistics x) = generated x"
  "verbose (timing_statistics x) = verbose x"
  "effects (timing_statistics x) = effects x"
  by (simp_all add: timing_statistics_def Let_def)

lemma timing_statistics_step:
  assumes "extends st x"
  shows "extends st (timing_statistics x)"
    "new_effects st (timing_statistics x) = new_effects st x"
    "set (new_log st x) \<subseteq> set (new_log st (timing_statistics x))"
    "severe (new_log st (timing_statistics x)) = severe (new_log st x)"
    "records_at [124] (new_log st (timing_statistics x)) = records_at [124] (new_log st x)"
    "records_at [393, 394, 395, 398, 400, 401] (new_log st (timing_statistics x)) =
       records_at [393, 394, 395, 398, 400, 401] (new_log st x)"
  using assms by (auto simp: timing_statistics_def Let_def)

lemma extends_effects: "extends st st' \<Longrightarrow> effects st' = effects st @ new_effects st st'"
  by (metis append_take_drop_id extends_def new_effects_def)

lemma length_commands_of:
  "length (commands_of cfg dir pkgs) = length pkgs * length (attempted cfg)"
  by (induction pkgs) (simp_all add: commands_of_def)

lemma process_packages_and_report_unfold:
  obtains pc succ failed sD raised where
    "package_loop cfg (responses env) dir (length pkgs) pkgs (0, [], []) st =
       (((pc, succ, failed), sD), raised)"
    "process_packages_and_report cfg env req dir pkgs st =
       (if raised then (Uncaught_exception UnicodeEncodeError, sD)
        else (Returned,
              timing_statistics (final_summary req pc (length pkgs) succ failed
                (if bat_final_ok env then write_all bat_footer (perform (Open_bat ''a'' True) sD)
                 else logging ERROR 388 ''Failed to finalize installation-instructions.bat: {e}''
                        (perform (Open_bat ''a'' False) sD)))))"
proof -
  obtain pc succ failed sD raised where
    l: "package_loop cfg (responses env) dir (length pkgs) pkgs (0, [], []) st =
       (((pc, succ, failed), sD), raised)"
    by (metis surj_pair)
  show ?thesis
    by (rule that[OF l]) (simp add: process_packages_and_report_def Let_def l)
qed

text \<open>The requirements loop, the footer and the summary, seen from outside.\<close>

lemma process_packages_and_report_run:
  fixes cfg env req dir pkgs st
  defines "r \<equiv> process_packages_and_report cfg env req dir pkgs st"
  shows "extends st (snd r)"
    and "fst r = Returned \<or> fst r = Uncaught_exception UnicodeEncodeError"
    and "generated (snd r) =
       generated st @ replicate (length (records_at [124] (new_log st (snd r)))) (download_strategies cfg)"
    and "length (records_at [124] (new_log st (snd r))) \<le> length pkgs"
    and "fst r = Returned \<Longrightarrow> length (records_at [124] (new_log st (snd r))) = length pkgs"
    and "fst r = Returned \<Longrightarrow>
       (INFO, 393, ''Offline dependency download process finished.'') \<in> set (new_log st (snd r))"
    and "fst r \<noteq> Returned \<Longrightarrow> records_at [393, 394, 395, 398, 400, 401] (new_log st (snd r)) = []"
    and "\<forall>c \<in> set (pip_commands (new_effects st (snd r))). \<exists>s \<in> set pkgs.
        take 4 c = [''pip'', ''download'', ''--dest'', package_subdir_of dir (name_only s)]"
    and "(\<forall>k. attempt_ok (responses env k) \<and> bat_append_ok (responses env k) \<and>
            copy_quiet cfg (responses env k)) \<Longrightarrow> bat_final_ok env \<Longrightarrow>
         fst r = Returned \<and> severe (new_log st (snd r)) = [] \<and>
         pip_commands (new_effects st (snd r)) = commands_of cfg dir pkgs"
    and "\<forall>k. \<not> raises (bat_append (responses env k)) \<Longrightarrow> fst r = Returned"
    and "pkgs \<noteq> [] \<Longrightarrow> attempt_ok (responses env (calls st)) \<Longrightarrow>
         raises (bat_append (responses env (calls st))) \<Longrightarrow>
         fst r = Uncaught_exception UnicodeEncodeError"
    and "fst r = Returned \<Longrightarrow>
       (\<exists>(succ::string list) failed.
          length succ + length failed = length pkgs \<and>
          ((\<forall>k. \<not> attempt_ok (responses env k)) \<longrightarrow> succ = [] \<and> failed = pkgs) \<and>
          records_at [393, 394, 395, 398, 400, 401] (new_log st (snd r)) =
            [(INFO, 393, ''Offline dependency download process finished.''),
             (INFO, 394, ''Processed '' @ str_nat (length pkgs) @ ''/'' @ str_nat (length pkgs) @
                         '' top-level requirements from '' @ squote @ req @ squote @ ''.''),
             (INFO, 395, str_nat (length succ) @
                         '' packages had at least one successful download strategy.'')] @
            (if failed \<noteq> []
             then (WARNING, 398, ''FAILED to download any suitable artifacts for '' @
                     str_nat (length failed) @ '' packages after all attempts:'') #
                  map (\<lambda>pkg. (WARNING, 400, ''  - '' @ pkg)) failed @
                  [(WARNING, 401, ''Offline installation will likely fail for these packages.'')]
             else []))"
proof -
  obtain pc succ failed sD raised where
    l: "package_loop cfg (responses env) dir (length pkgs) pkgs (0, [], []) st =
       (((pc, succ, failed), sD), raised)" and
    u: "r = (if raised then (Uncaught_exception UnicodeEncodeError, sD)
        else (Returned,
              timing_statistics (final_summary req pc (length pkgs) succ failed
                (if bat_final_ok env then write_all bat_footer (perform (Open_bat ''a'' True) sD)
                 else logging ERROR 388 ''Failed to finalize installation-instructions.bat: {e}''
                        (perform (Open_bat ''a'' False) sD)))))"
    unfolding r_def by (rule process_packages_and_report_unfold)
  define sE where "sE = (if bat_final_ok env then write_all bat_footer (perform (Open_bat ''a'' True) sD)
                else logging ERROR 388 ''Failed to finalize installation-instructions.bat: {e}''
                       (perform (Open_bat ''a'' False) sD))"
  define sF where "sF = final_summary req pc (length pkgs) succ failed sE"
  have r: "r = (if raised then (Uncaught_exception UnicodeEncodeError, sD)
        else (Returned, timing_statistics sF))"
    unfolding u sF_def sE_def ..
  note p = package_loop_facts[OF l]
  have eD: "extends st sD" using p by simp
  have eE: "extends st sE" "generated sE = generated sD"
    "pip_commands (new_effects st sE) = pip_commands (new_effects st sD)"
    "records_at [124] (new_log st sE) = records_at [124] (new_log st sD)"
    using eD by (simp_all add: sE_def)
  have qE: "severe (new_log st sE) = severe (new_log st sD)" if "bat_final_ok env"
    using that eD by (simp add: sE_def)
  note fs = final_summary_step[OF eE(1), where req=req and pc=pc and n="length pkgs" and
      succ=succ and failed=failed, folded sF_def]
  note ts = timing_statistics_step[OF fs(1)]
  have g: "generated (timing_statistics sF) = generated sD" by (simp add: sF_def eE(2))
  have h: "records_at [124] (new_log st (timing_statistics sF)) = records_at [124] (new_log st sD)"
    using ts(5) fs(5) eE(4) by simp
  have cm: "pip_commands (new_effects st (timing_statistics sF)) = pip_commands (new_effects st sD)"
    using ts(2) fs(2) eE(3) by simp
  have k: "length (records_at [124] (new_log st sD)) = pc" "pc \<le> length pkgs"
    "\<not> raised \<Longrightarrow> pc = length pkgs"
    "generated sD = generated st @ replicate pc (download_strategies cfg)"
    using p by simp_all
  show "extends st (snd r)" using eD ts(1) by (simp add: r)
  show "fst r = Returned \<or> fst r = Uncaught_exception UnicodeEncodeError" by (simp add: r)
  show "generated (snd r) =
       generated st @ replicate (length (records_at [124] (new_log st (snd r)))) (download_strategies cfg)"
    using k(1,4) g h by (simp add: r)
  show "length (records_at [124] (new_log st (snd r))) \<le> length pkgs"
    using k(1,2) h by (simp add: r)
  show "length (records_at [124] (new_log st (snd r))) = length pkgs" if "fst r = Returned"
    using that k(1,3) h by (simp add: r split: if_splits)
  show "(INFO, 393, ''Offline dependency download process finished.'') \<in> set (new_log st (snd r))"
    if "fst r = Returned"
    using that ts(3) fs(3) by (auto simp: r split: if_splits)
  show "records_at [393, 394, 395, 398, 400, 401] (new_log st (snd r)) = []" if "fst r \<noteq> Returned"
    using that p by (simp add: r split: if_splits)
  show "\<forall>c \<in> set (pip_commands (new_effects st (snd r))). \<exists>s \<in> set pkgs.
        take 4 c = [''pip'', ''download'', ''--dest'', package_subdir_of dir (name_only s)]"
  proof (cases raised)
    case True
    then show ?thesis using p by (simp add: r)
  next
    case False
    then show ?thesis unfolding r using p cm by simp
  qed
  show "fst r = Returned \<and> severe (new_log st (snd r)) = [] \<and>
         pip_commands (new_effects st (snd r)) = commands_of cfg dir pkgs"
    if q: "\<forall>k. attempt_ok (responses env k) \<and> bat_append_ok (responses env k) \<and>
            copy_quiet cfg (responses env k)" and f: "bat_final_ok env"
  proof -
    have a: "\<not> raised" "severe (new_log st sD) = []" "failed = []"
      "pip_commands (new_effects st sD) = commands_of cfg dir pkgs"
      using p q by simp_all
    show ?thesis using a ts(4) fs(4) qE[OF f] cm by (simp add: r)
  qed
  show "fst r = Returned" if "\<forall>k. \<not> raises (bat_append (responses env k))"
    using p that by (simp add: r)
  show "fst r = Uncaught_exception UnicodeEncodeError"
    if "pkgs \<noteq> []" "attempt_ok (responses env (calls st))"
      "raises (bat_append (responses env (calls st)))"
    using p that by (simp add: r)
  show "(\<exists>(succ::string list) failed.
            length succ + length failed = length pkgs \<and>
            ((\<forall>k. \<not> attempt_ok (responses env k)) \<longrightarrow> succ = [] \<and> failed = pkgs) \<and>
            records_at [393, 394, 395, 398, 400, 401] (new_log st (snd r)) =
              [(INFO, 393, ''Offline dependency download process finished.''),
               (INFO, 394, ''Processed '' @ str_nat (length pkgs) @ ''/'' @ str_nat (length pkgs) @
                           '' top-level requirements from '' @ squote @ req @ squote @ ''.''),
               (INFO, 395, str_nat (length succ) @
                           '' packages had at least one successful download strategy.'')] @
              (if failed \<noteq> []
               then (WARNING, 398, ''FAILED to download any suitable artifacts for '' @
                       str_nat (length failed) @ '' packages after all attempts:'') #
                    map (\<lambda>pkg. (WARNING, 400, ''  - '' @ pkg)) failed @
                    [(WARNING, 401, ''Offline installation will likely fail for these packages.'')]
               else []))"
    if "fst r = Returned"
  proof -
    have nr: "\<not> raised" using that by (simp add: r split: if_splits)
    have sr: "snd r = timing_statistics sF" using nr by (simp add: r)
    have pcn: "pc = length pkgs" using k(3)[OF nr] .
    have a: "length succ + length failed = length pkgs" using p nr pcn by simp
    have b: "(\<forall>k. \<not> attempt_ok (responses env k)) \<longrightarrow> succ = [] \<and> failed = pkgs"
      using p by simp
    have zD: "records_at [393, 394, 395, 398, 400, 401] (new_log st sD) = []" using p by simp
    have zE: "records_at [393, 394, 395, 398, 400, 401] (new_log st sE) = []"
      using eD zD by (simp add: sE_def)
    have c: "records_at [393, 394, 395, 398, 400, 401] (new_log st (snd r)) =
            [(INFO, 393, ''Offline dependency download process finished.''),
             (INFO, 394, ''Processed '' @ str_nat (length pkgs) @ ''/'' @ str_nat (length pkgs) @
                         '' top-level requirements from '' @ squote @ req @ squote @ ''.''),
             (INFO, 395, str_nat (length succ) @
                         '' packages had at least one successful download strategy.'')] @
            (if failed \<noteq> []
             then (WARNING, 398, ''FAILED to download any suitable artifacts for '' @
                     str_nat (length failed) @ '' packages after all attempts:'') #
                  map (\<lambda>pkg. (WARNING, 400, ''  - '' @ pkg)) failed @
                  [(WARNING, 401, ''Offline installation will likely fail for these packages.'')]
             else [])"
      unfolding sr ts(6) fs(6) zE pcn by simp
    have "length succ + length failed = length pkgs \<and>
          ((\<forall>k. \<not> attempt_ok (responses env k)) \<longrightarrow> succ = [] \<and> failed = pkgs) \<and>
          records_at [393, 394, 395, 398, 400, 401] (new_log st (snd r)) =
            [(INFO, 393, ''Offline dependency download process finished.''),
             (INFO, 394, ''Processed '' @ str_nat (length pkgs) @ ''/'' @ str_nat (length pkgs) @
                         '' top-level requirements from '' @ squote @ req @ squote @ ''.''),
             (INFO, 395, str_nat (length succ) @
                         '' packages had at least one successful download strategy.'')] @
            (if failed \<noteq> []
             then (WARNING, 398, ''FAILED to download any suitable artifacts for '' @
                     str_nat (length failed) @ '' packages after all attempts:'') #
                  map (\<lambda>pkg. (WARNING, 400, ''  - '' @ pkg)) failed @
                  [(WARNING, 401, ''Offline installation will likely fail for these packages.'')]
             else [])"
      by (intro conjI a b c)
    then show ?thesis by blast
  qed
qed

lemma main_reads:
  assumes "isfile_requirements env" "makedirs_root_ok env" "read_requirements env = Read_ok body"
  obtains st1 where
    "main cfg env req dir vb = process_and_report cfg env req dir (valid_package_lines_of body) st1"
    "effects st1 = [Makedirs dir]" "generated st1 = []" "severe (log_records st1) = []"
    "calls st1 = 0" "records_at [124, 393, 394, 395, 398, 400, 401] (log_records st1) = []"
proof -
  define s0 where "s0 = (if vb then logging DEBUG 289 ''Debug logging enabled.'' (initial_state\<lparr>verbose := vb\<rparr>)
      else initial_state\<lparr>verbose := vb\<rparr>)"
  define st1 where "st1 = logging INFO 304 ''Using base download directory: {os.path.abspath(download_dir)}''
      (perform (Makedirs dir) s0)"
  have m: "main cfg env req dir vb = process_and_report cfg env req dir (valid_package_lines_of body) st1"
    unfolding main_def Let_def s0_def[symmetric] using assms by (simp add: st1_def)
  have "effects st1 = [Makedirs dir]" "generated st1 = []" "severe (log_records st1) = []"
    "calls st1 = 0" "records_at [124, 393, 394, 395, 398, 400, 401] (log_records st1) = []"
    by (simp_all add: st1_def s0_def initial_state_def logging_def perform_def)
  with m show ?thesis using that by blast
qed

lemma process_and_report_unfold:
  obtains sB m1 where
    "extends st sB" "generated sB = generated st" "calls sB = calls st"
    "new_effects st sB = []" "records_at [124, 393, 394, 395, 398, 400, 401] (new_log st sB) = []"
    "pkgs \<noteq> [] \<Longrightarrow> severe (new_log st sB) = []"
    "process_and_report cfg env req dir pkgs st =
       (case bat_init env of
          Writes_ok \<Rightarrow>
            process_packages_and_report cfg env req dir pkgs
              (write_all bat_header (perform (Open_bat ''w'' True) sB))
        | Raises_IOError \<Rightarrow>
            process_packages_and_report cfg env req dir pkgs
              (logging ERROR 357 m1 (perform (Open_bat ''w'' False) sB))
        | Raises_UnicodeEncodeError k \<Rightarrow>
            (Uncaught_exception UnicodeEncodeError,
             write_all (written_before k bat_header) (perform (Open_bat ''w'' True) sB)))"
proof -
  define sA where "sA = (if length pkgs = 0
      then logging WARNING 328 (''No valid package specifications found in '' @ req @ ''.'') st else st)"
  define sB where "sB = logging INFO 334 rule_line (logging INFO 333 ''Starting offline dependency download...''
      (logging INFO 332 (''Found '' @ str_nat (length pkgs) @ '' packages to process in '' @
                 squote @ req @ squote @ ''.'') sA))"
  have u: "process_and_report cfg env req dir pkgs st =
       (case bat_init env of
          Writes_ok \<Rightarrow>
            process_packages_and_report cfg env req dir pkgs
              (write_all bat_header (perform (Open_bat ''w'' True) sB))
        | Raises_IOError \<Rightarrow>
            process_packages_and_report cfg env req dir pkgs
              (logging ERROR 357 ''Failed to write initial installation-instructions.bat: {e}''
                 (perform (Open_bat ''w'' False) sB))
        | Raises_UnicodeEncodeError k \<Rightarrow>
            (Uncaught_exception UnicodeEncodeError,
             write_all (written_before k bat_header) (perform (Open_bat ''w'' True) sB)))"
    unfolding process_and_report_def Let_def sA_def[symmetric] sB_def[symmetric] ..
  have e: "extends st sB" "generated sB = generated st" "calls sB = calls st"
    "new_effects st sB = []" "records_at [124, 393, 394, 395, 398, 400, 401] (new_log st sB) = []"
    by (simp_all add: sA_def sB_def)
  have q: "severe (new_log st sB) = []" if "pkgs \<noteq> []"
    using that by (simp add: sA_def sB_def)
  show ?thesis by (rule that[OF e q u])
qed

text \<open>A run of \<open>main\<close> that has read its requirements, seen from outside.\<close>

lemma main_run:
  fixes cfg env req dir vb body
  assumes "isfile_requirements env" "makedirs_root_ok env" "read_requirements env = Read_ok body"
  defines "r \<equiv> main cfg env req dir vb"
  defines "pkgs \<equiv> valid_package_lines_of body"
  shows "fst r = Returned \<or> fst r = Uncaught_exception UnicodeEncodeError"
    and "generated (snd r) =
       replicate (length (records_at [124] (log_records (snd r)))) (download_strategies cfg)"
    and "length (records_at [124] (log_records (snd r))) \<le> length pkgs"
    and "fst r = Returned \<Longrightarrow> length (records_at [124] (log_records (snd r))) = length pkgs"
    and "fst r = Returned \<Longrightarrow>
       (INFO, 393, ''Offline dependency download process finished.'') \<in> set (log_records (snd r))"
    and "fst r \<noteq> Returned \<Longrightarrow> records_at [393, 394, 395, 398, 400, 401] (log_records (snd r)) = []"
    and "\<forall>c \<in> set (pip_commands (effects (snd r))). \<exists>s \<in> set pkgs.
        take 4 c = [''pip'', ''download'', ''--dest'', package_subdir_of dir (name_only s)]"
    and "(\<forall>k. attempt_ok (responses env k) \<and> bat_append_ok (responses env k) \<and>
            copy_quiet cfg (responses env k)) \<Longrightarrow>
         bat_init_ok env \<Longrightarrow> bat_final_ok env \<Longrightarrow> pkgs \<noteq> [] \<Longrightarrow>
         fst r = Returned \<and> severe (log_records (snd r)) = [] \<and>
         pip_commands (effects (snd r)) = commands_of cfg dir pkgs"
    and "\<not> raises (bat_init env) \<Longrightarrow> \<forall>k. \<not> raises (bat_append (responses env k)) \<Longrightarrow>
         fst r = Returned"
    and "raises (bat_init env) \<Longrightarrow>
         fst r = Uncaught_exception UnicodeEncodeError \<and> generated (snd r) = [] \<and>
         pip_commands (effects (snd r)) = []"
    and "\<not> raises (bat_init env) \<Longrightarrow> pkgs \<noteq> [] \<Longrightarrow> attempt_ok (responses env 0) \<Longrightarrow>
         raises (bat_append (responses env 0)) \<Longrightarrow>
         fst r = Uncaught_exception UnicodeEncodeError"
    and "fst r = Returned \<Longrightarrow>
       (\<exists>(succ::string list) failed.
          length succ + length failed = length pkgs \<and>
          ((\<forall>k. \<not> attempt_ok (responses env k)) \<longrightarrow> succ = [] \<and> failed = pkgs) \<and>
          records_at [393, 394, 395, 398, 400, 401] (log_records (snd r)) =
            [(INFO, 393, ''Offline dependency download process finished.''),
             (INFO, 394, ''Processed '' @ str_nat (length pkgs) @ ''/'' @ str_nat (length pkgs) @
                         '' top-level requirements from '' @ squote @ req @ squote @ ''.''),
             (INFO, 395, str_nat (length succ) @
                         '' packages had at least one successful download strategy.'')] @
            (if failed \<noteq> []
             then (WARNING, 398, ''FAILED to download any suitable artifacts for '' @
                     str_nat (length failed) @ '' packages after all attempts:'') #
                  map (\<lambda>pkg. (WARNING, 400, ''  - '' @ pkg)) failed @
                  [(WARNING, 401, ''Offline installation will likely fail for these packages.'')]
             else []))"
proof -
  obtain st1 where
    m: "r = process_and_report cfg env req dir pkgs st1" and
    s: "effects st1 = [Makedirs dir]" "generated st1 = []" "severe (log_records st1) = []"
      "calls st1 = 0" "records_at [124, 393, 394, 395, 398, 400, 401] (log_records st1) = []"
    unfolding r_def pkgs_def using main_reads[OF assms(1-3)] by metis
  obtain sB m1 where
    b: "extends st1 sB" "generated sB = generated st1" "calls sB = calls st1"
      "new_effects st1 sB = []" "records_at [124, 393, 394, 395, 398, 400, 401] (new_log st1 sB) = []"
      "pkgs \<noteq> [] \<Longrightarrow> severe (new_log st1 sB) = []" and
    u: "r = (case bat_init env of
          Writes_ok \<Rightarrow>
            process_packages_and_report cfg env req dir pkgs
              (write_all bat_header (perform (Open_bat ''w'' True) sB))
        | Raises_IOError \<Rightarrow>
            process_packages_and_report cfg env req dir pkgs
              (logging ERROR 357 m1 (perform (Open_bat ''w'' False) sB))
        | Raises_UnicodeEncodeError k \<Rightarrow>
            (Uncaught_exception UnicodeEncodeError,
             write_all (written_before k bat_header) (perform (Open_bat ''w'' True) sB)))"
    unfolding m
    by (rule process_and_report_unfold[where st=st1 and pkgs=pkgs and cfg=cfg and env=env and
          req=req and dir=dir]) blast
  have z1: "records_at [124] (log_records st1) = []" "records_at [393, 394, 395, 398, 400, 401] (log_records st1) = []"
    using s(5) by (auto intro: records_at_sub)
  have zB: "records_at [124] (new_log st1 sB) = []" "records_at [393, 394, 395, 398, 400, 401] (new_log st1 sB) = []"
    using b(5) by (auto intro: records_at_sub)
  have main: "(fst r = Returned \<or> fst r = Uncaught_exception UnicodeEncodeError) \<and>
     generated (snd r) =
       replicate (length (records_at [124] (log_records (snd r)))) (download_strategies cfg) \<and>
     length (records_at [124] (log_records (snd r))) \<le> length pkgs \<and>
     (fst r = Returned \<longrightarrow> length (records_at [124] (log_records (snd r))) = length pkgs) \<and>
     (fst r = Returned \<longrightarrow>
       (INFO, 393, ''Offline dependency download process finished.'') \<in> set (log_records (snd r))) \<and>
     (fst r \<noteq> Returned \<longrightarrow> records_at [393, 394, 395, 398, 400, 401] (log_records (snd r)) = []) \<and>
     (\<forall>c \<in> set (pip_commands (effects (snd r))). \<exists>s \<in> set pkgs.
        take 4 c = [''pip'', ''download'', ''--dest'', package_subdir_of dir (name_only s)]) \<and>
     ((\<forall>k. attempt_ok (responses env k) \<and> bat_append_ok (responses env k) \<and>
            copy_quiet cfg (responses env k)) \<longrightarrow>
         bat_init_ok env \<longrightarrow> bat_final_ok env \<longrightarrow> pkgs \<noteq> [] \<longrightarrow>
         fst r = Returned \<and> severe (log_records (snd r)) = [] \<and>
         pip_commands (effects (snd r)) = commands_of cfg dir pkgs) \<and>
     (\<not> raises (bat_init env) \<longrightarrow> (\<forall>k. \<not> raises (bat_append (responses env k))) \<longrightarrow>
         fst r = Returned) \<and>
     (raises (bat_init env) \<longrightarrow>
         fst r = Uncaught_exception UnicodeEncodeError \<and> generated (snd r) = [] \<and>
         pip_commands (effects (snd r)) = []) \<and>
     (\<not> raises (bat_init env) \<longrightarrow> pkgs \<noteq> [] \<longrightarrow> attempt_ok (responses env 0) \<longrightarrow>
         raises (bat_append (responses env 0)) \<longrightarrow>
         fst r = Uncaught_exception UnicodeEncodeError) \<and>
     (fst r = Returned \<longrightarrow>
       (\<exists>(succ::string list) failed.
          length succ + length failed = length pkgs \<and>
          ((\<forall>k. \<not> attempt_ok (responses env k)) \<longrightarrow> succ = [] \<and> failed = pkgs) \<and>
          records_at [393, 394, 395, 398, 400, 401] (log_records (snd r)) =
            [(INFO, 393, ''Offline dependency download process finished.''),
             (INFO, 394, ''Processed '' @ str_nat (length pkgs) @ ''/'' @ str_nat (length pkgs) @
                         '' top-level requirements from '' @ squote @ req @ squote @ ''.''),
             (INFO, 395, str_nat (length succ) @
                         '' packages had at least one successful download strategy.'')] @
            (if failed \<noteq> []
             then (WARNING, 398, ''FAILED to download any suitable artifacts for '' @
                     str_nat (length failed) @ '' packages after all attempts:'') #
                  map (\<lambda>pkg. (WARNING, 400, ''  - '' @ pkg)) failed @
                  [(WARNING, 401, ''Offline installation will likely fail for these packages.'')]
             else [])))"
  proof (cases "bat_init env")
    case (Raises_UnicodeEncodeError k)
    define sC where "sC = write_all (written_before k bat_header) (perform (Open_bat ''w'' True) sB)"
    have r: "r = (Uncaught_exception UnicodeEncodeError, sC)"
      unfolding u Raises_UnicodeEncodeError sC_def by simp
    have c: "extends st1 sC" "generated sC = []" "new_log st1 sC = new_log st1 sB"
      "pip_commands (new_effects st1 sC) = []"
      using b(1,2,4) s(2) by (simp_all add: sC_def)
    have lg: "log_records sC = log_records st1 @ new_log st1 sB"
      using extends_log[OF c(1)] c(3) by simp
    have ef: "pip_commands (effects sC) = []"
      using extends_effects[OF c(1)] c(4) s(1) by simp
    show ?thesis
      using z1 zB c(2) ef
      by (simp add: r lg Raises_UnicodeEncodeError raises_def bat_init_ok_def)
  next
    case Writes_ok
    define sC where "sC = write_all bat_header (perform (Open_bat ''w'' True) sB)"
    have r: "r = process_packages_and_report cfg env req dir pkgs sC"
      unfolding u Writes_ok sC_def by simp
    have c: "extends st1 sC" "generated sC = []" "new_log st1 sC = new_log st1 sB"
      "pip_commands (new_effects st1 sC) = []" "calls sC = 0"
      using b(1,2,3,4) s(2,4) by (simp_all add: sC_def)
    note f = process_packages_and_report_run[where cfg=cfg and env=env and req=req and dir=dir and
        pkgs=pkgs and st=sC, folded r]
    note t = step_log[OF c(1) f(1)]
    have ex: "extends st1 (snd r)" using t by simp
    have lg: "log_records (snd r) = log_records st1 @ new_log st1 sB @ new_log sC (snd r)"
      using extends_log[OF ex] t c(3) by simp
    have ef: "pip_commands (effects (snd r)) = pip_commands (new_effects sC (snd r))"
      using extends_effects[OF ex] t c(4) s(1) by simp
    have n124: "records_at [124] (log_records (snd r)) = records_at [124] (new_log sC (snd r))"
      and n393: "records_at [393, 394, 395, 398, 400, 401] (log_records (snd r)) = records_at [393, 394, 395, 398, 400, 401] (new_log sC (snd r))"
      unfolding lg using z1 zB by simp_all
    have sv: "severe (log_records (snd r)) = severe (new_log sC (snd r))" if "pkgs \<noteq> []"
      unfolding lg using s(3) b(6)[OF that] by simp
    have in393: "(INFO, 393, ''Offline dependency download process finished.'') \<in> set (log_records (snd r))"
      if "fst r = Returned"
      unfolding lg using f(6)[OF that] by simp
    have q: "fst r = Returned \<and> severe (log_records (snd r)) = [] \<and>
         pip_commands (effects (snd r)) = commands_of cfg dir pkgs"
      if "\<forall>k. attempt_ok (responses env k) \<and> bat_append_ok (responses env k) \<and>
            copy_quiet cfg (responses env k)" "bat_final_ok env" "pkgs \<noteq> []"
      using f(9)[OF that(1,2)] sv[OF that(3)] ef by simp
    have h: "fst r = Uncaught_exception UnicodeEncodeError"
      if "pkgs \<noteq> []" "attempt_ok (responses env 0)" "raises (bat_append (responses env 0))"
      using f(11) that c(5) by simp
    note g = f(2,3,4,5,7,8)[folded n124 n393 ef]
    have sm: "fst r = Returned \<longrightarrow>
       (\<exists>(succ::string list) failed.
            length succ + length failed = length pkgs \<and>
            ((\<forall>k. \<not> attempt_ok (responses env k)) \<longrightarrow> succ = [] \<and> failed = pkgs) \<and>
            records_at [393, 394, 395, 398, 400, 401] (log_records (snd r)) =
              [(INFO, 393, ''Offline dependency download process finished.''),
               (INFO, 394, ''Processed '' @ str_nat (length pkgs) @ ''/'' @ str_nat (length pkgs) @
                           '' top-level requirements from '' @ squote @ req @ squote @ ''.''),
               (INFO, 395, str_nat (length succ) @
                           '' packages had at least one successful download strategy.'')] @
              (if failed \<noteq> []
               then (WARNING, 398, ''FAILED to download any suitable artifacts for '' @
                       str_nat (length failed) @ '' packages after all attempts:'') #
                    map (\<lambda>pkg. (WARNING, 400, ''  - '' @ pkg)) failed @
                    [(WARNING, 401, ''Offline installation will likely fail for these packages.'')]
               else []))"
      using f(12)[folded n393] by blast
    show ?thesis
      using g f(10) c(2) sm in393 q h
      by (simp add: Writes_ok raises_def)
  next
    case Raises_IOError
    define sC where "sC = logging ERROR 357 m1 (perform (Open_bat ''w'' False) sB)"
    have r: "r = process_packages_and_report cfg env req dir pkgs sC"
      unfolding u Raises_IOError sC_def by simp
    have c: "extends st1 sC" "generated sC = []"
      "new_log st1 sC = new_log st1 sB @ [(ERROR, 357, m1)]"
      "pip_commands (new_effects st1 sC) = []" "calls sC = 0"
      using b(1,2,3,4) s(2,4) by (simp_all add: sC_def)
    note f = process_packages_and_report_run[where cfg=cfg and env=env and req=req and dir=dir and
        pkgs=pkgs and st=sC, folded r]
    note t = step_log[OF c(1) f(1)]
    have ex: "extends st1 (snd r)" using t by simp
    have lg: "log_records (snd r) =
        log_records st1 @ new_log st1 sB @ (ERROR, 357, m1) # new_log sC (snd r)"
      using extends_log[OF ex] t c(3) by simp
    have ef: "pip_commands (effects (snd r)) = pip_commands (new_effects sC (snd r))"
      using extends_effects[OF ex] t c(4) s(1) by simp
    have n124: "records_at [124] (log_records (snd r)) = records_at [124] (new_log sC (snd r))"
      and n393: "records_at [393, 394, 395, 398, 400, 401] (log_records (snd r)) = records_at [393, 394, 395, 398, 400, 401] (new_log sC (snd r))"
      unfolding lg using z1 zB by simp_all
    have in393: "(INFO, 393, ''Offline dependency download process finished.'') \<in> set (log_records (snd r))"
      if "fst r = Returned"
      unfolding lg using f(6)[OF that] by simp
    have h: "fst r = Uncaught_exception UnicodeEncodeError"
      if "pkgs \<noteq> []" "attempt_ok (responses env 0)" "raises (bat_append (responses env 0))"
      using f(11) that c(5) by simp
    note g = f(2,3,4,5,7,8)[folded n124 n393 ef]
    have sm: "fst r = Returned \<longrightarrow>
       (\<exists>(succ::string list) failed.
            length succ + length failed = length pkgs \<and>
            ((\<forall>k. \<not> attempt_ok (responses env k)) \<longrightarrow> succ = [] \<and> failed = pkgs) \<and>
            records_at [393, 394, 395, 398, 400, 401] (log_records (snd r)) =
              [(INFO, 393, ''Offline dependency download process finished.''),
               (INFO, 394, ''Processed '' @ str_nat (length pkgs) @ ''/'' @ str_nat (length pkgs) @
                           '' top-level requirements from '' @ squote @ req @ squote @ ''.''),
               (INFO, 395, str_nat (length succ) @
                           '' packages had at least one successful download strategy.'')] @
              (if failed \<noteq> []
               then (WARNING, 398, ''FAILED to download any suitable artifacts for '' @
                       str_nat (length failed) @ '' packages after all attempts:'') #
                    map (\<lambda>pkg. (WARNING, 400, ''  - '' @ pkg)) failed @
                    [(WARNING, 401, ''Offline installation will likely fail for these packages.'')]
               else []))"
      using f(12)[folded n393] by blast
    show ?thesis
      using g f(10) c(2) sm in393 h
      by (simp add: Raises_IOError raises_def bat_init_ok_def)
  qed
  show "fst r = Returned \<or> fst r = Uncaught_exception UnicodeEncodeError"
    and "generated (snd r) =
       replicate (length (records_at [124] (log_records (snd r)))) (download_strategies cfg)"
    and "length (records_at [124] (log_records (snd r))) \<le> length pkgs"
    and "fst r = Returned \<Longrightarrow> length (records_at [124] (log_records (snd r))) = length pkgs"
    and "fst r = Returned \<Longrightarrow>
       (INFO, 393, ''Offline dependency download process finished.'') \<in> set (log_records (snd r))"
    and "fst r \<noteq> Returned \<Longrightarrow> records_at [393, 394, 395, 398, 400, 401] (log_records (snd r)) = []"
    and "\<forall>c \<in> set (pip_commands (effects (snd r))). \<exists>s \<in> set pkgs.
        take 4 c = [''pip'', ''download'', ''--dest'', package_subdir_of dir (name_only s)]"
    and "(\<forall>k. attempt_ok (responses env k) \<and> bat_append_ok (responses env k) \<and>
            copy_quiet cfg (responses env k)) \<Longrightarrow>
         bat_init_ok env \<Longrightarrow> bat_final_ok env \<Longrightarrow> pkgs \<noteq> [] \<Longrightarrow>
         fst r = Returned \<and> severe (log_records (snd r)) = [] \<and>
         pip_commands (effects (snd r)) = commands_of cfg dir pkgs"
    and "\<not> raises (bat_init env) \<Longrightarrow> \<forall>k. \<not> raises (bat_append (responses env k)) \<Longrightarrow>
         fst r = Returned"
    and "raises (bat_init env) \<Longrightarrow>
         fst r = Uncaught_exception UnicodeEncodeError \<and> generated (snd r) = [] \<and>
         pip_commands (effects (snd r)) = []"
    and "\<not> raises (bat_init env) \<Longrightarrow> pkgs \<noteq> [] \<Longrightarrow> attempt_ok (responses env 0) \<Longrightarrow>
         raises (bat_append (responses env 0)) \<Longrightarrow>
         fst r = Uncaught_exception UnicodeEncodeError"
    and "fst r = Returned \<Longrightarrow>
       (\<exists>(succ::string list) failed.
          length succ + length failed = length pkgs \<and>
          ((\<forall>k. \<not> attempt_ok (responses env k)) \<longrightarrow> succ = [] \<and> failed = pkgs) \<and>
          records_at [393, 394, 395, 398, 400, 401] (log_records (snd r)) =
            [(INFO, 393, ''Offline dependency download process finished.''),
             (INFO, 394, ''Processed '' @ str_nat (length pkgs) @ ''/'' @ str_nat (length pkgs) @
                         '' top-level requirements from '' @ squote @ req @ squote @ ''.''),
             (INFO, 395, str_nat (length succ) @
                         '' packages had at least one successful download strategy.'')] @
            (if failed \<noteq> []
             then (WARNING, 398, ''FAILED to download any suitable artifacts for '' @
                     str_nat (length failed) @ '' packages after all attempts:'') #
                  map (\<lambda>pkg. (WARNING, 400, ''  - '' @ pkg)) failed @
                  [(WARNING, 401, ''Offline installation will likely fail for these packages.'')]
             else []))"
    using main by blast+
qed

lemma main_fatal:
  assumes "\<not> isfile_requirements env \<or> \<not> makedirs_root_ok env \<or> unreadable (read_requirements env)"
  shows "exit_status (fst (main cfg env req dir vb)) = 1"
    and "records_at [393, 394, 395, 398, 400, 401] (log_records (snd (main cfg env req dir vb))) = []"
    and "generated (snd (main cfg env req dir vb)) = []"
    and "pip_commands (effects (snd (main cfg env req dir vb))) = []"
  using assms
  by (auto simp: main_def Let_def exit_status_def unreadable_def initial_state_def logging_def
      perform_def split: read_result.splits)

section \<open>The claims about the driver\<close>

lemma no_success_iff:
  "True \<notin> set (outcomes w base n) \<longleftrightarrow> (\<forall>k < n. \<not> attempt_ok (w (base + k)))"
  by (auto simp: outcomes_def)

lemma filter_filter_sub: "(\<And>e. P e \<Longrightarrow> Q e) \<Longrightarrow> filter P (filter Q xs) = filter P xs"
  by (induction xs) auto

lemma one_time_sub: "is_instruction_open e \<Longrightarrow> is_one_time e" "is_copy e \<Longrightarrow> is_one_time e"
  by (cases e; simp)+

lemma written_one_time: "written (filter is_one_time es) = written es"
  by (induction es rule: written.induct) simp_all

lemma written_map_Write [simp]: "written (map Write_bat ts) = ts"
  by (induction ts) simp_all

lemma world_simps [simp]:
  "attempt_ok ok_response" "bat_append_ok ok_response" "makedirs_ok ok_response"
  "\<not> raises (bat_append ok_response)"
  "\<not> attempt_ok pip_fails_response" "makedirs_ok pip_fails_response"
  "\<not> raises (bat_append pip_fails_response)"
  "\<not> attempt_ok no_subdir_response" "\<not> makedirs_ok no_subdir_response"
  "attempt_ok encode_error_response" "raises (bat_append encode_error_response)"
  "copy_quiet source_config r" "DOWNLOAD_ALL_VERSIONS source_config"
  "\<not> COPY_FIRST_SET_TO_PARENT_DIRECTORY source_config"
  by (simp_all add: ok_response_def pip_fails_response_def no_subdir_response_def attempt_ok_def
      encode_error_response_def succeeded_def copy_quiet_def source_config_def bat_append_ok_def
      raises_def)

lemma length_source_strategies: "length (download_strategies source_config) = 43"
  by code_simp

lemma example_env_simps [simp]:
  "isfile_requirements (example_env t w)" "makedirs_root_ok (example_env t w)"
  "read_requirements (example_env t w) = Read_ok t" "bat_init_ok (example_env t w)"
  "\<not> raises (bat_init (example_env t w))"
  "bat_final_ok (example_env t w)" "responses (example_env t w) = w"
  by (simp_all add: example_env_def bat_init_ok_def raises_def)

text \<open>
  Claim C1, as the code has it. Every attempt of the driver logs one outcome record: a
  failure record (line 260) for each attempt that fails, also when the attempt fails
  because its subdirectory cannot be created, and a success record (line 219) for each
  attempt that succeeds. A duration is appended to \<open>pip_call_times\<close> for exactly the
  attempts whose subdirectory could be created, whether the fetch then succeeds or fails.
  When every attempt fails, the driver returns false, it has made one attempt per strategy
  and logged as many failure records, and the durations recorded are those of the attempts
  whose subdirectory could be created.
\<close>

theorem attempts_record_outcome_and_pip_duration:
  fixes cfg w spec dir prog st
  defines "r \<equiv> download_package_with_deps cfg w spec dir prog st"
  defines "n \<equiv> length (download_strategies cfg)"
  shows "length (records_at [219, 260] (new_log st (snd r))) = calls (snd r) - calls st \<and>
     length (records_at [260] (new_log st (snd r))) =
       length (filter (\<lambda>k. \<not> attempt_ok (w k)) [calls st..<calls (snd r)]) \<and>
     length (records_at [219] (new_log st (snd r))) =
       length (filter (\<lambda>k. attempt_ok (w k)) [calls st..<calls (snd r)]) \<and>
     new_times st (snd r) =
       map (\<lambda>k. elapsed (w k)) (filter (\<lambda>k. makedirs_ok (w k)) [calls st..<calls (snd r)]) \<and>
     (True \<notin> set (outcomes w (calls st) n) \<longrightarrow>
        fst r = Some False \<and> calls (snd r) = calls st + n \<and>
        length (records_at [260] (new_log st (snd r))) = n \<and>
        length (new_times st (snd r)) =
          length (filter (\<lambda>k. makedirs_ok (w k)) [calls st..<calls st + n]))"
proof -
  note f = driver_facts[where cfg=cfg and w=w and spec=spec and dir=dir and prog=prog and st=st,
      folded r_def n_def]
  have "fst r = Some False \<and> calls (snd r) = calls st + n \<and>
        length (records_at [260] (new_log st (snd r))) = n \<and>
        length (new_times st (snd r)) =
          length (filter (\<lambda>k. makedirs_ok (w k)) [calls st..<calls st + n])"
    if "True \<notin> set (outcomes w (calls st) n)"
  proof -
    have a: "\<forall>k < n. \<not> attempt_ok (w (calls st + k))" using that by (simp add: no_success_iff)
    note g = f(8)[OF a]
    show ?thesis using g f(5) by simp
  qed
  then show ?thesis using f(5,6,14,15) by blast
qed

theorem attempts_record_outcome_and_pip_duration_witness:
  "True \<notin> set (outcomes pip_fails_world 0 (length (download_strategies source_config))) \<and>
   fst (download_package_with_deps source_config pip_fails_world ''flask'' ''wheels_offline''
           ''[1/1]'' initial_state) = Some False \<and>
   length (records_at [260] (new_log initial_state
     (snd (download_package_with_deps source_config pip_fails_world ''flask'' ''wheels_offline''
           ''[1/1]'' initial_state)))) = 43 \<and>
   length (new_times initial_state
     (snd (download_package_with_deps source_config pip_fails_world ''flask'' ''wheels_offline''
           ''[1/1]'' initial_state))) = 43"
proof -
  have h: "True \<notin> set (outcomes pip_fails_world (calls initial_state)
      (length (download_strategies source_config)))"
    by (simp add: no_success_iff pip_fails_world_def)
  have c: "calls initial_state = 0" by (simp add: initial_state_def)
  have "filter (\<lambda>k. makedirs_ok (pip_fails_world k)) [0..<43] = [0..<43]"
    by (simp add: pip_fails_world_def)
  then show ?thesis
    using attempts_record_outcome_and_pip_duration[where cfg=source_config and w=pip_fails_world
        and spec="''flask''" and dir="''wheels_offline''" and prog="''[1/1]''"
        and st=initial_state] h
    by (simp add: c length_source_strategies pip_fails_world_def)
qed

text \<open>
  Claim C1 as stated fails when no subdirectory can be created: all 43 attempts of the
  source configuration fail and are logged as failed, and no duration is recorded.
\<close>

theorem failed_subdir_attempts_record_no_duration:
  "True \<notin> set (outcomes no_subdir_world 0 (length (download_strategies source_config))) \<and>
   fst (download_package_with_deps source_config no_subdir_world ''flask'' ''wheels_offline''
           ''[1/1]'' initial_state) = Some False \<and>
   length (download_strategies source_config) = 43 \<and>
   length (records_at [260] (new_log initial_state
     (snd (download_package_with_deps source_config no_subdir_world ''flask'' ''wheels_offline''
           ''[1/1]'' initial_state)))) = 43 \<and>
   new_times initial_state
     (snd (download_package_with_deps source_config no_subdir_world ''flask'' ''wheels_offline''
           ''[1/1]'' initial_state)) = []"
proof -
  note f = driver_facts[where cfg=source_config and w=no_subdir_world and spec="''flask''" and
      dir="''wheels_offline''" and prog="''[1/1]''" and st=initial_state]
  have a: "\<forall>k < length (download_strategies source_config).
      \<not> attempt_ok (no_subdir_world (calls initial_state + k))"
    by (simp add: no_subdir_world_def)
  have h: "True \<notin> set (outcomes no_subdir_world 0 (length (download_strategies source_config)))"
    by (simp add: no_success_iff no_subdir_world_def)
  show ?thesis using f(8)[OF a] f(5) h
    by (simp add: length_source_strategies no_subdir_world_def)
qed

text \<open>
  Claim C2, against the code. Under the exhaustive policy (\<open>DOWNLOAD_ALL_VERSIONS\<close>), and
  as long as no write of an install instruction raises \<open>UnicodeEncodeError\<close>, the driver
  does what the claim says: it makes one attempt per strategy, announced in order at line
  198 with indices 1 to n; the \<open>pip\<close> commands of the run are, in order, the commands built
  from the strategies whose subdirectory could be created; it returns true exactly when
  some attempt succeeds; the effects of the first-success block in the run are those of
  exactly one execution of the block, with the answers of the first successful attempt,
  and none when no attempt succeeds; so the batch file is opened for an instruction once
  or never, the promotion copy runs once when enabled or never, and the block comes right
  after the first successful fetch. But when the first attempt succeeds and the write of
  the instruction raises \<open>UnicodeEncodeError\<close>, which the handler of line 232
  (\<open>except IOError\<close>) does not catch, the exception leaves the driver after that one
  attempt: one \<open>pip\<close> command has run, the one of the first strategy, the driver returns
  no result, and the strategies that remain are never attempted.
\<close>

theorem exhaustive_attempts_cut_short_by_encode_error:
  fixes cfg w spec dir prog st
  defines "r \<equiv> download_package_with_deps cfg w spec dir prog st"
  defines "ss \<equiv> download_strategies cfg"
  defines "oks \<equiv> outcomes w (calls st) (length ss)"
  defines "E \<equiv> new_effects st (snd r)"
  assumes a: "DOWNLOAD_ALL_VERSIONS cfg"
  shows "((\<forall>k. \<not> raises (bat_append (w k))) \<longrightarrow>
       calls (snd r) = calls st + length ss \<and>
       records_at [198] (new_log st (snd r)) =
         map (\<lambda>(i, s). attempt_line prog (length ss) i s) (zip [1..<1 + length ss] ss) \<and>
       pip_commands E =
         map (\<lambda>(k, strategy). command_of dir (name_only spec) strategy (spec_for_pip_of spec))
           (filter (\<lambda>(k, strategy). makedirs_ok (w k)) (zip [calls st..<calls st + length ss] ss)) \<and>
       fst r = Some (True \<in> set oks) \<and>
       filter is_one_time E =
         (if True \<in> set oks
          then one_time_effects cfg (w (calls st + length (takeWhile Not oks))) spec dir (name_only spec)
          else []) \<and>
       length (filter is_instruction_open E) = (if True \<in> set oks then 1 else 0) \<and>
       length (filter is_copy E) =
         (if True \<in> set oks \<and> COPY_FIRST_SET_TO_PARENT_DIRECTORY cfg then 1 else 0) \<and>
       (True \<in> set oks \<longrightarrow>
          length (filter is_makedirs (takeWhile (\<lambda>e. \<not> is_one_time e) E)) =
          Suc (length (takeWhile Not oks)))) \<and>
     (attempt_ok (w (calls st)) \<and> raises (bat_append (w (calls st))) \<longrightarrow>
       fst r = None \<and> calls (snd r) = Suc (calls st) \<and>
       pip_commands E = [command_of dir (name_only spec) (hd ss) (spec_for_pip_of spec)])"
proof -
  have 1: "calls (snd r) = calls st + length ss \<and>
       records_at [198] (new_log st (snd r)) =
         map (\<lambda>(i, s). attempt_line prog (length ss) i s) (zip [1..<1 + length ss] ss) \<and>
       pip_commands E =
         map (\<lambda>(k, strategy). command_of dir (name_only spec) strategy (spec_for_pip_of spec))
           (filter (\<lambda>(k, strategy). makedirs_ok (w k)) (zip [calls st..<calls st + length ss] ss)) \<and>
       fst r = Some (True \<in> set oks) \<and>
       filter is_one_time E =
         (if True \<in> set oks
          then one_time_effects cfg (w (calls st + length (takeWhile Not oks))) spec dir (name_only spec)
          else []) \<and>
       length (filter is_instruction_open E) = (if True \<in> set oks then 1 else 0) \<and>
       length (filter is_copy E) =
         (if True \<in> set oks \<and> COPY_FIRST_SET_TO_PARENT_DIRECTORY cfg then 1 else 0) \<and>
       (True \<in> set oks \<longrightarrow>
          length (filter is_makedirs (takeWhile (\<lambda>e. \<not> is_one_time e) E)) =
          Suc (length (takeWhile Not oks)))"
    if n: "\<forall>k. \<not> raises (bat_append (w k))"
  proof -
    note x = driver_exhaustive[where cfg=cfg and w=w and spec=spec and dir=dir and prog=prog and
        st=st, OF a n, folded r_def ss_def, folded oks_def, folded E_def]
    have o: "filter is_instruction_open E = filter is_instruction_open (filter is_one_time E)"
      and c: "filter is_copy E = filter is_copy (filter is_one_time E)"
      by (rule sym, rule filter_filter_sub, erule one_time_sub)+
    have i: "length (filter is_instruction_open E) = (if True \<in> set oks then 1 else 0)"
      unfolding o x(4) by (simp add: one_time_effects_props(3))
    have j: "length (filter is_copy E) =
         (if True \<in> set oks \<and> COPY_FIRST_SET_TO_PARENT_DIRECTORY cfg then 1 else 0)"
      unfolding c x(4) using n by (simp add: one_time_effects_props(4) del: length_0_conv)
    show ?thesis using x i j by blast
  qed
  note f = driver_facts(10)[where cfg=cfg and w=w and spec=spec and dir=dir and prog=prog and
      st=st, folded r_def ss_def, folded E_def]
  show ?thesis using 1 f by blast
qed

theorem exhaustive_attempts_cut_short_by_encode_error_witness:
  "DOWNLOAD_ALL_VERSIONS source_config \<and>
   length (download_strategies source_config) = 43 \<and>
   calls (snd (download_package_with_deps source_config third_and_fifth_world ''flask''
     ''wheels_offline'' ''[1/1]'' initial_state)) = 43 \<and>
   length (pip_commands (new_effects initial_state
     (snd (download_package_with_deps source_config third_and_fifth_world ''flask''
       ''wheels_offline'' ''[1/1]'' initial_state)))) = 43 \<and>
   fst (download_package_with_deps source_config third_and_fifth_world ''flask''
     ''wheels_offline'' ''[1/1]'' initial_state) = Some True \<and>
   length (filter is_instruction_open (new_effects initial_state
     (snd (download_package_with_deps source_config third_and_fifth_world ''flask''
       ''wheels_offline'' ''[1/1]'' initial_state)))) = 1 \<and>
   length (filter is_copy (new_effects initial_state
     (snd (download_package_with_deps source_config third_and_fifth_world ''flask''
       ''wheels_offline'' ''[1/1]'' initial_state)))) = 0 \<and>
   length (filter is_makedirs (takeWhile (\<lambda>e. \<not> is_one_time e) (new_effects initial_state
     (snd (download_package_with_deps source_config third_and_fifth_world ''flask''
       ''wheels_offline'' ''[1/1]'' initial_state))))) = 3 \<and>
   written (new_effects initial_state
     (snd (download_package_with_deps source_config third_and_fifth_world ''flask''
       ''wheels_offline'' ''[1/1]'' initial_state))) =
     [''REM Install '' @ squote @ ''flask'' @ squote @ '' (Original requirement)'' @ newline,
      ''pip install --no-index --find-links '' @ dquote @ ''.'' @ backslash @
        ''wheels_offline/flask'' @ dquote @ '' '' @ dquote @ ''flask'' @ dquote @ newline @ newline] \<and>
   attempt_ok (encode_error_world 0) \<and> raises (bat_append (encode_error_world 0)) \<and>
   fst (download_package_with_deps source_config encode_error_world
     (''pyautogui==1.0'' @ [CHR 0xE9]) ''wheels_offline'' ''[1/1]'' initial_state) = None \<and>
   calls (snd (download_package_with_deps source_config encode_error_world
     (''pyautogui==1.0'' @ [CHR 0xE9]) ''wheels_offline'' ''[1/1]'' initial_state)) = 1 \<and>
   pip_commands (new_effects initial_state
     (snd (download_package_with_deps source_config encode_error_world
       (''pyautogui==1.0'' @ [CHR 0xE9]) ''wheels_offline'' ''[1/1]'' initial_state))) =
     [[''pip'', ''download'', ''--dest'', ''wheels_offline/pyautogui'',
       ''--disable-pip-version-check'', ''--platform'', ''any'', ''--python-version'', ''3.13'',
       ''--abi'', ''none'', ''--implementation'', ''cp'', ''--only-binary=:all:'',
       ''pyautogui'', ''setuptools'', ''wheel'']]"
proof -
  have o: "outcomes third_and_fifth_world 0 43 =
      [False, False, True, False, True] @ replicate 38 False"
    by code_simp
  have c: "calls initial_state = 0" by (simp add: initial_state_def)
  have n: "\<forall>k. \<not> raises (bat_append (third_and_fifth_world k))"
    by (simp add: third_and_fifth_world_def)
  have m: "filter (\<lambda>(k, strategy). makedirs_ok (third_and_fifth_world k))
      (zip [0..<43] (download_strategies source_config)) = zip [0..<43] (download_strategies source_config)"
    by (rule filter_True) (auto simp: third_and_fifth_world_def)
  have k: "command_of ''wheels_offline'' (name_only (''pyautogui==1.0'' @ [CHR 0xE9]))
      (hd (download_strategies source_config)) (spec_for_pip_of (''pyautogui==1.0'' @ [CHR 0xE9])) =
     [''pip'', ''download'', ''--dest'', ''wheels_offline/pyautogui'',
       ''--disable-pip-version-check'', ''--platform'', ''any'', ''--python-version'', ''3.13'',
       ''--abi'', ''none'', ''--implementation'', ''cp'', ''--only-binary=:all:'',
       ''pyautogui'', ''setuptools'', ''wheel'']"
    by code_simp
  note t1 = exhaustive_attempts_cut_short_by_encode_error[where cfg=source_config and
        w=third_and_fifth_world and spec="''flask''" and dir="''wheels_offline''" and
        prog="''[1/1]''" and st=initial_state]
  note t2 = exhaustive_attempts_cut_short_by_encode_error[where cfg=source_config and
        w=encode_error_world and spec="''pyautogui==1.0'' @ [CHR 0xE9]" and
        dir="''wheels_offline''" and prog="''[1/1]''" and st=initial_state]
  have p1: "calls (snd (download_package_with_deps source_config third_and_fifth_world ''flask''
     ''wheels_offline'' ''[1/1]'' initial_state)) = 43 \<and>
   length (pip_commands (new_effects initial_state
     (snd (download_package_with_deps source_config third_and_fifth_world ''flask''
       ''wheels_offline'' ''[1/1]'' initial_state)))) = 43 \<and>
   fst (download_package_with_deps source_config third_and_fifth_world ''flask''
     ''wheels_offline'' ''[1/1]'' initial_state) = Some True \<and>
   length (filter is_instruction_open (new_effects initial_state
     (snd (download_package_with_deps source_config third_and_fifth_world ''flask''
       ''wheels_offline'' ''[1/1]'' initial_state)))) = 1 \<and>
   length (filter is_copy (new_effects initial_state
     (snd (download_package_with_deps source_config third_and_fifth_world ''flask''
       ''wheels_offline'' ''[1/1]'' initial_state)))) = 0 \<and>
   length (filter is_makedirs (takeWhile (\<lambda>e. \<not> is_one_time e) (new_effects initial_state
     (snd (download_package_with_deps source_config third_and_fifth_world ''flask''
       ''wheels_offline'' ''[1/1]'' initial_state))))) = 3"
    using t1 n by (simp add: c length_source_strategies o m)
  have d: "package_subdir_of ''wheels_offline'' (name_only ''flask'') = ''wheels_offline/flask''"
    by code_simp
  have "written (filter is_one_time (new_effects initial_state
     (snd (download_package_with_deps source_config third_and_fifth_world ''flask''
       ''wheels_offline'' ''[1/1]'' initial_state)))) =
     [''REM Install '' @ squote @ ''flask'' @ squote @ '' (Original requirement)'' @ newline,
      ''pip install --no-index --find-links '' @ dquote @ ''.'' @ backslash @
        ''wheels_offline/flask'' @ dquote @ '' '' @ dquote @ ''flask'' @ dquote @ newline @ newline]"
    using t1 n
    by (simp add: c length_source_strategies o one_time_effects_def third_and_fifth_world_def
        ok_response_def install_instruction_def d)
  then have p3: "written (new_effects initial_state
     (snd (download_package_with_deps source_config third_and_fifth_world ''flask''
       ''wheels_offline'' ''[1/1]'' initial_state))) =
     [''REM Install '' @ squote @ ''flask'' @ squote @ '' (Original requirement)'' @ newline,
      ''pip install --no-index --find-links '' @ dquote @ ''.'' @ backslash @
        ''wheels_offline/flask'' @ dquote @ '' '' @ dquote @ ''flask'' @ dquote @ newline @ newline]"
    by (simp only: written_one_time)
  have p2: "fst (download_package_with_deps source_config encode_error_world
     (''pyautogui==1.0'' @ [CHR 0xE9]) ''wheels_offline'' ''[1/1]'' initial_state) = None \<and>
   calls (snd (download_package_with_deps source_config encode_error_world
     (''pyautogui==1.0'' @ [CHR 0xE9]) ''wheels_offline'' ''[1/1]'' initial_state)) = 1 \<and>
   pip_commands (new_effects initial_state
     (snd (download_package_with_deps source_config encode_error_world
       (''pyautogui==1.0'' @ [CHR 0xE9]) ''wheels_offline'' ''[1/1]'' initial_state))) =
     [[''pip'', ''download'', ''--dest'', ''wheels_offline/pyautogui'',
       ''--disable-pip-version-check'', ''--platform'', ''any'', ''--python-version'', ''3.13'',
       ''--abi'', ''none'', ''--implementation'', ''cp'', ''--only-binary=:all:'',
       ''pyautogui'', ''setuptools'', ''wheel'']]"
    using t2 unfolding k by (simp add: c encode_error_world_def)
  show ?thesis using p1 p2 p3 by (simp add: length_source_strategies encode_error_world_def)
qed



section \<open>The claims about the whole run\<close>

lemma attempted_not_Nil: "attempted cfg \<noteq> []"
proof -
  have "download_strategies cfg \<noteq> []" by (simp add: download_strategies_def)
  then show ?thesis by (cases "download_strategies cfg") (simp_all add: attempted_def)
qed

lemma command_of_nth3: "command_of dir name strategy spec ! 3 = package_subdir_of dir name"
  by (simp add: command_of_def)

lemma dests_commands_of:
  "map (\<lambda>command. command ! 3) (commands_of cfg dir pkgs) =
     concat (map (\<lambda>s. replicate (length (attempted cfg)) (package_subdir_of dir (name_only s))) pkgs)"
  by (induction pkgs) (simp_all add: commands_of_def command_of_nth3 comp_def map_replicate_const)

lemma mem_commands_of:
  "s \<in> set pkgs \<Longrightarrow> strategy \<in> set (attempted cfg) \<Longrightarrow>
     command_of dir (name_only s) strategy (spec_for_pip_of s) \<in> set (commands_of cfg dir pkgs)"
  by (auto simp: commands_of_def)

text \<open>
  Claim C7, against the code. A run of \<open>main\<close> (after the command line has been parsed)
  ends with status 1 and without a summary when the requirements file is not a file, or
  the destination root cannot be created, or the file cannot be read. A run with none of
  these conditions either returns or ends with an uncaught \<open>UnicodeEncodeError\<close>; its
  status is zero exactly when it returns, and the summary is logged exactly when it
  returns: a run that returns has logged, at lines 393 to 401, the closing line, the count
  of requirements processed (all of them), the count of those with a successful fetch and,
  when some have none, their count and their list (all of them when every fetch fails); a
  run that does not return has logged nothing at these lines. It returns, whatever the
  downloads did, when no write to the batch file raises \<open>UnicodeEncodeError\<close>. But the handlers around these
  writes (lines 232 and 356) catch \<open>IOError\<close> only: when a write of the header raises
  \<open>UnicodeEncodeError\<close>, or when the first fetch succeeds and the write of its install
  instruction raises it, the run ends with the uncaught exception, so with status 1 and
  without a summary, although none of the three conditions of the claim holds.
\<close>

theorem exit_status_nonzero_without_fatal_condition:
  fixes cfg env req dir vb
  defines "r \<equiv> main cfg env req dir vb"
  defines "fatal \<equiv> \<not> isfile_requirements env \<or> \<not> makedirs_root_ok env \<or>
                    unreadable (read_requirements env)"
  shows "(exit_status (fst r) = 0 \<longleftrightarrow> fst r = Returned) \<and>
     (fst r = Returned \<longrightarrow>
        (INFO, 393, ''Offline dependency download process finished.'') \<in> set (log_records (snd r))) \<and>
     (fst r = Returned \<longrightarrow>
        (\<exists>(succ::string list) failed.
           length succ + length failed = length (requirements_read env) \<and>
           ((\<forall>k. \<not> attempt_ok (responses env k)) \<longrightarrow> succ = [] \<and> failed = requirements_read env) \<and>
           records_at [393, 394, 395, 398, 400, 401] (log_records (snd r)) =
             [(INFO, 393, ''Offline dependency download process finished.''),
              (INFO, 394, ''Processed '' @ str_nat (length (requirements_read env)) @ ''/'' @ str_nat (length (requirements_read env)) @
                          '' top-level requirements from '' @ squote @ req @ squote @ ''.''),
              (INFO, 395, str_nat (length succ) @
                          '' packages had at least one successful download strategy.'')] @
             (if failed \<noteq> []
              then (WARNING, 398, ''FAILED to download any suitable artifacts for '' @
                      str_nat (length failed) @ '' packages after all attempts:'') #
                   map (\<lambda>pkg. (WARNING, 400, ''  - '' @ pkg)) failed @
                   [(WARNING, 401, ''Offline installation will likely fail for these packages.'')]
              else []))) \<and>
     (fst r \<noteq> Returned \<longrightarrow> records_at [393, 394, 395, 398, 400, 401] (log_records (snd r)) = []) \<and>
     (fatal \<longrightarrow> exit_status (fst r) = 1) \<and>
     (\<not> fatal \<longrightarrow> fst r = Returned \<or> fst r = Uncaught_exception UnicodeEncodeError) \<and>
     (\<not> fatal \<and> \<not> raises (bat_init env) \<and> (\<forall>k. \<not> raises (bat_append (responses env k))) \<longrightarrow>
        fst r = Returned) \<and>
     (\<not> fatal \<and> raises (bat_init env) \<longrightarrow> fst r = Uncaught_exception UnicodeEncodeError) \<and>
     (\<not> fatal \<and> \<not> raises (bat_init env) \<and> requirements_read env \<noteq> [] \<and>
      attempt_ok (responses env 0) \<and> raises (bat_append (responses env 0)) \<longrightarrow>
        fst r = Uncaught_exception UnicodeEncodeError)"
proof (cases fatal)
  case True
  then have f: "\<not> isfile_requirements env \<or> \<not> makedirs_root_ok env \<or>
      unreadable (read_requirements env)"
    by (simp add: fatal_def)
  note m = main_fatal(1,2)[OF f, of cfg req dir vb, folded r_def]
  have "fst r \<noteq> Returned" using m(1) by (auto simp: exit_status_def)
  then show ?thesis using True m by simp
next
  case False
  then obtain body where b: "isfile_requirements env" "makedirs_root_ok env"
    "read_requirements env = Read_ok body"
    unfolding fatal_def by (cases "read_requirements env") (auto simp: unreadable_def)
  have q: "requirements_read env = valid_package_lines_of body"
    by (simp add: requirements_read_def b(3))
  note m = main_run[OF b, of cfg req dir vb, folded r_def q]
  have e: "exit_status (fst r) = 0 \<longleftrightarrow> fst r = Returned"
    using m(1) by (auto simp: exit_status_def)
  show ?thesis using False e m(1,5,6,9,10,11,12) by blast
qed

theorem exit_status_nonzero_without_fatal_condition_witness:
  "isfile_requirements ((example_env example_requirements ok_world)
      \<lparr>bat_init := Raises_UnicodeEncodeError 2\<rparr>) \<and>
   makedirs_root_ok ((example_env example_requirements ok_world)
      \<lparr>bat_init := Raises_UnicodeEncodeError 2\<rparr>) \<and>
   \<not> unreadable (read_requirements ((example_env example_requirements ok_world)
      \<lparr>bat_init := Raises_UnicodeEncodeError 2\<rparr>)) \<and>
   exit_status (fst (main source_config
      ((example_env example_requirements ok_world)\<lparr>bat_init := Raises_UnicodeEncodeError 2\<rparr>)
      ''requirements.txt'' ''wheels_offline'' False)) = 1 \<and>
   records_at [393, 394, 395, 398, 400, 401] (log_records (snd (main source_config
      ((example_env example_requirements ok_world)\<lparr>bat_init := Raises_UnicodeEncodeError 2\<rparr>)
      ''requirements.txt'' ''wheels_offline'' False))) = [] \<and>
   exit_status (fst (main source_config
      (example_env (''pyautogui==1.0'' @ [CHR 0xE9] @ newline) encode_error_world)
      ''requirements.txt'' ''wheels_offline'' False)) = 1 \<and>
   exit_status (fst (main source_config (example_env example_requirements pip_fails_world)
      ''requirements.txt'' ''wheels_offline'' False)) = 0 \<and>
   records_at [393, 394, 395, 398, 400, 401]
      (log_records (snd (main source_config (example_env example_requirements pip_fails_world)
      ''requirements.txt'' ''wheels_offline'' False))) =
     [(INFO, 393, ''Offline dependency download process finished.''),
      (INFO, 394, ''Processed 2/2 top-level requirements from '' @ squote @ ''requirements.txt'' @
                  squote @ ''.''),
      (INFO, 395, ''0 packages had at least one successful download strategy.''),
      (WARNING, 398, ''FAILED to download any suitable artifacts for 2 packages after all attempts:''),
      (WARNING, 400, ''  - requests==2.31.0''),
      (WARNING, 400, ''  - flask''),
      (WARNING, 401, ''Offline installation will likely fail for these packages.'')] \<and>
   exit_status (fst (main source_config
      ((example_env example_requirements ok_world)\<lparr>isfile_requirements := False\<rparr>)
      ''requirements.txt'' ''wheels_offline'' False)) = 1 \<and>
   exit_status (fst (main source_config
      ((example_env example_requirements ok_world)\<lparr>read_requirements := Read_UnicodeDecodeError\<rparr>)
      ''requirements.txt'' ''wheels_offline'' False)) = 1"
proof -
  define e1 where "e1 = (example_env example_requirements ok_world)
      \<lparr>bat_init := Raises_UnicodeEncodeError 2\<rparr>"
  define e2 where "e2 = example_env (''pyautogui==1.0'' @ [CHR 0xE9] @ newline) encode_error_world"
  have f1: "isfile_requirements e1" "makedirs_root_ok e1" "\<not> unreadable (read_requirements e1)"
    "raises (bat_init e1)"
    by (simp_all add: e1_def example_env_def unreadable_def raises_def)
  have v: "requirements_read (example_env (''pyautogui==1.0'' @ [CHR 0xE9] @ newline)
      encode_error_world) \<noteq> []"
    by code_simp
  have f2: "isfile_requirements e2" "makedirs_root_ok e2" "\<not> unreadable (read_requirements e2)"
    "\<not> raises (bat_init e2)" "requirements_read e2 \<noteq> []"
    "attempt_ok (responses e2 0)" "raises (bat_append (responses e2 0))"
    using v by (simp_all add: e2_def unreadable_def encode_error_world_def)
  note t1 = exit_status_nonzero_without_fatal_condition[of source_config e1
      "''requirements.txt''" "''wheels_offline''" False]
  note t2 = exit_status_nonzero_without_fatal_condition[of source_config e2
      "''requirements.txt''" "''wheels_offline''" False]
  note t3 = exit_status_nonzero_without_fatal_condition[of source_config
      "example_env example_requirements pip_fails_world"
      "''requirements.txt''" "''wheels_offline''" False]
  note t4 = exit_status_nonzero_without_fatal_condition[of source_config
      "(example_env example_requirements ok_world)\<lparr>isfile_requirements := False\<rparr>"
      "''requirements.txt''" "''wheels_offline''" False]
  note t5 = exit_status_nonzero_without_fatal_condition[of source_config
      "(example_env example_requirements ok_world)\<lparr>read_requirements := Read_UnicodeDecodeError\<rparr>"
      "''requirements.txt''" "''wheels_offline''" False]
  have p1: "exit_status (fst (main source_config e1 ''requirements.txt'' ''wheels_offline'' False)) = 1 \<and>
      records_at [393, 394, 395, 398, 400, 401] (log_records (snd (main source_config e1 ''requirements.txt''
        ''wheels_offline'' False))) = []"
    using t1 f1 by (auto simp: exit_status_def)
  have p2: "exit_status (fst (main source_config e2 ''requirements.txt'' ''wheels_offline'' False)) = 1"
    using t2 f2 by (auto simp: exit_status_def)
  have rr: "requirements_read (example_env example_requirements pip_fails_world) =
      [''requests==2.31.0'', ''flask'']"
    by code_simp
  have sn: "str_nat (Suc (Suc 0)) = ''2''" "str_nat 0 = ''0''" by code_simp+
  have f3: "\<not> raises (bat_init (example_env example_requirements pip_fails_world))"
    "\<forall>k. \<not> raises (bat_append (responses (example_env example_requirements pip_fails_world) k))"
    "\<forall>k. \<not> attempt_ok (responses (example_env example_requirements pip_fails_world) k)"
    "\<not> (\<not> isfile_requirements (example_env example_requirements pip_fails_world) \<or>
        \<not> makedirs_root_ok (example_env example_requirements pip_fails_world) \<or>
        unreadable (read_requirements (example_env example_requirements pip_fails_world)))"
    by (simp_all add: pip_fails_world_def unreadable_def)
  have r3: "fst (main source_config (example_env example_requirements pip_fails_world)
      ''requirements.txt'' ''wheels_offline'' False) = Returned"
    using t3 f3 by blast
  have p3: "exit_status (fst (main source_config (example_env example_requirements pip_fails_world)
      ''requirements.txt'' ''wheels_offline'' False)) = 0"
    using r3 by (simp add: exit_status_def)
  obtain succ :: "string list" and failed where
    sf: "succ = []" "failed = [''requests==2.31.0'', ''flask'']"
    "records_at [393, 394, 395, 398, 400, 401]
      (log_records (snd (main source_config (example_env example_requirements pip_fails_world)
      ''requirements.txt'' ''wheels_offline'' False))) =
     [(INFO, 393, ''Offline dependency download process finished.''),
      (INFO, 394, ''Processed '' @ str_nat (Suc (Suc 0)) @ ''/'' @ str_nat (Suc (Suc 0)) @
                  '' top-level requirements from '' @ squote @ ''requirements.txt'' @ squote @ ''.''),
      (INFO, 395, str_nat (length succ) @
                  '' packages had at least one successful download strategy.'')] @
     (if failed \<noteq> []
      then (WARNING, 398, ''FAILED to download any suitable artifacts for '' @
              str_nat (length failed) @ '' packages after all attempts:'') #
           map (\<lambda>pkg. (WARNING, 400, ''  - '' @ pkg)) failed @
           [(WARNING, 401, ''Offline installation will likely fail for these packages.'')]
      else [])"
    using t3 r3 f3(3) unfolding rr length_Cons list.size by blast
  have p3': "records_at [393, 394, 395, 398, 400, 401]
      (log_records (snd (main source_config (example_env example_requirements pip_fails_world)
      ''requirements.txt'' ''wheels_offline'' False))) =
     [(INFO, 393, ''Offline dependency download process finished.''),
      (INFO, 394, ''Processed 2/2 top-level requirements from '' @ squote @ ''requirements.txt'' @
                  squote @ ''.''),
      (INFO, 395, ''0 packages had at least one successful download strategy.''),
      (WARNING, 398, ''FAILED to download any suitable artifacts for 2 packages after all attempts:''),
      (WARNING, 400, ''  - requests==2.31.0''),
      (WARNING, 400, ''  - flask''),
      (WARNING, 401, ''Offline installation will likely fail for these packages.'')]"
    unfolding sf(3) by (simp add: sf(1,2) sn)
  have p4: "exit_status (fst (main source_config
      ((example_env example_requirements ok_world)\<lparr>isfile_requirements := False\<rparr>)
      ''requirements.txt'' ''wheels_offline'' False)) = 1"
    using t4 by (simp add: exit_status_def)
  have p5: "exit_status (fst (main source_config
      ((example_env example_requirements ok_world)\<lparr>read_requirements := Read_UnicodeDecodeError\<rparr>)
      ''requirements.txt'' ''wheels_offline'' False)) = 1"
    using t5 by (simp add: unreadable_def exit_status_def)
  show ?thesis using f1(1-3) p1 p2 p3 p3' p4 p5 unfolding e1_def e2_def by blast
qed

text \<open>
  Claim C8, as the code has it. The strategy list is built inside the driver, once each
  time the driver is called for a requirement (each call logs the record of line 124),
  and each time it is the same list, the value of the generator on the fixed
  configuration. A run that reads its requirements and returns has built it as many times
  as there are valid requirement lines; so has every run in which no write to the batch
  file raises \<open>UnicodeEncodeError\<close>.
\<close>

theorem strategies_built_once_per_requirement:
  assumes "isfile_requirements env" "makedirs_root_ok env" "read_requirements env = Read_ok body"
  shows "generated (snd (main cfg env req dir vb)) =
       replicate (length (records_at [124] (log_records (snd (main cfg env req dir vb)))))
         (download_strategies cfg) \<and>
     length (records_at [124] (log_records (snd (main cfg env req dir vb)))) \<le>
       length (valid_package_lines_of body) \<and>
     (fst (main cfg env req dir vb) = Returned \<longrightarrow>
        generated (snd (main cfg env req dir vb)) =
          replicate (length (valid_package_lines_of body)) (download_strategies cfg)) \<and>
     (\<not> raises (bat_init env) \<and> (\<forall>k. \<not> raises (bat_append (responses env k))) \<longrightarrow>
        generated (snd (main cfg env req dir vb)) =
          replicate (length (valid_package_lines_of body)) (download_strategies cfg))"
proof -
  note m = main_run[OF assms, of cfg req dir vb]
  have a: "generated (snd (main cfg env req dir vb)) =
          replicate (length (valid_package_lines_of body)) (download_strategies cfg)"
    if "fst (main cfg env req dir vb) = Returned"
    using m(2) m(4)[OF that] by simp
  have b: "fst (main cfg env req dir vb) = Returned"
    if "\<not> raises (bat_init env) \<and> (\<forall>k. \<not> raises (bat_append (responses env k)))"
    using m(9) that by blast
  show ?thesis using m(2,3) a b by blast
qed

theorem strategies_built_once_per_requirement_witness:
  "isfile_requirements (example_env example_requirements ok_world) \<and>
   makedirs_root_ok (example_env example_requirements ok_world) \<and>
   read_requirements (example_env example_requirements ok_world) = Read_ok example_requirements \<and>
   \<not> raises (bat_init (example_env example_requirements ok_world)) \<and>
   (\<forall>k. \<not> raises (bat_append (responses (example_env example_requirements ok_world) k))) \<and>
   generated (snd (main source_config (example_env example_requirements ok_world)
      ''requirements.txt'' ''wheels_offline'' False)) =
     [download_strategies source_config, download_strategies source_config]"
proof -
  have e: "valid_package_lines_of example_requirements = [''requests==2.31.0'', ''flask'']"
    by code_simp
  have n: "\<not> raises (bat_init (example_env example_requirements ok_world)) \<and>
      (\<forall>k. \<not> raises (bat_append (responses (example_env example_requirements ok_world) k)))"
    by (simp add: ok_world_def)
  have "generated (snd (main source_config (example_env example_requirements ok_world)
      ''requirements.txt'' ''wheels_offline'' False)) =
     replicate (length (valid_package_lines_of example_requirements)) (download_strategies source_config)"
    using strategies_built_once_per_requirement[of "example_env example_requirements ok_world"
        example_requirements source_config "''requirements.txt''" "''wheels_offline''" False,
        OF example_env_simps(1,2,3)] n
    by blast
  then show ?thesis using n by (simp add: e)
qed

text \<open>
  Claim C8 as stated fails on a run with two requirements: the strategy list is built
  twice, not once.
\<close>

theorem strategies_built_twice_for_two_requirements:
  "length (generated (snd (main source_config (example_env example_requirements ok_world)
      ''requirements.txt'' ''wheels_offline'' False))) = 2 \<and>
   length (generated (snd (main source_config (example_env example_requirements ok_world)
      ''requirements.txt'' ''wheels_offline'' False))) \<noteq> 1"
proof -
  have e: "valid_package_lines_of example_requirements = [''requests==2.31.0'', ''flask'']"
    by code_simp
  note m = main_run[of "example_env example_requirements ok_world" example_requirements
        source_config "''requirements.txt''" "''wheels_offline''" False]
  have "fst (main source_config (example_env example_requirements ok_world)
      ''requirements.txt'' ''wheels_offline'' False) = Returned"
    using m(9) by (simp add: ok_world_def)
  then show ?thesis using m(2) m(4) by (simp add: e)
qed

text \<open>
  Claim C9, as the code has it. In a run in which every fetch and every write succeeds,
  the \<open>pip\<close> commands are exactly, for each requirement in turn, one command for each
  strategy tried, each with the subdirectory named by the sanitized bare name of the
  requirement as its destination; at least one strategy is tried. So for two requirements
  \<open>s1\<close> and \<open>s2\<close> of the file whose bare names differ and have the same sanitized form, the
  run holds, for every strategy tried, a fetch of \<open>s1\<close> and a fetch of \<open>s2\<close> into one and
  the same subdirectory. Nothing detects this: the run returns and logs no record at
  warning level or above.
\<close>

theorem colliding_names_share_subdirectory_silently:
  fixes cfg env req dir vb body s1 s2
  defines "r \<equiv> main cfg env req dir vb"
  assumes "isfile_requirements env" "makedirs_root_ok env" "read_requirements env = Read_ok body"
    and "s1 \<in> set (valid_package_lines_of body)" "s2 \<in> set (valid_package_lines_of body)"
    and "name_only s1 \<noteq> name_only s2"
    and "sanitize (name_only s1) = sanitize (name_only s2)"
    and "\<forall>k. attempt_ok (responses env k) \<and> bat_append_ok (responses env k) \<and>
            copy_quiet cfg (responses env k)"
    and "bat_init_ok env" "bat_final_ok env"
  shows "pip_commands (effects (snd r)) = commands_of cfg dir (valid_package_lines_of body) \<and>
     dests (effects (snd r)) =
       concat (map (\<lambda>s. replicate (length (attempted cfg)) (package_subdir_of dir (name_only s)))
                 (valid_package_lines_of body)) \<and>
     attempted cfg \<noteq> [] \<and>
     (\<forall>strategy \<in> set (attempted cfg).
        command_of dir (name_only s1) strategy (spec_for_pip_of s1) \<in> set (pip_commands (effects (snd r))) \<and>
        command_of dir (name_only s2) strategy (spec_for_pip_of s2) \<in> set (pip_commands (effects (snd r))) \<and>
        command_of dir (name_only s1) strategy (spec_for_pip_of s1) ! 3 =
          package_subdir_of dir (name_only s1) \<and>
        command_of dir (name_only s2) strategy (spec_for_pip_of s2) ! 3 =
          package_subdir_of dir (name_only s1)) \<and>
     fst r = Returned \<and>
     severe (log_records (snd r)) = []"
proof -
  have n: "valid_package_lines_of body \<noteq> []" using assms(5) by auto
  note m = main_run(8)[OF assms(2-4), of cfg req dir vb, OF assms(9-11) n, folded r_def]
  have p: "package_subdir_of dir (name_only s2) = package_subdir_of dir (name_only s1)"
    using assms(8) by (simp add: package_subdir_of_def)
  have c: "pip_commands (effects (snd r)) = commands_of cfg dir (valid_package_lines_of body)"
    using m by simp
  have d: "dests (effects (snd r)) =
       concat (map (\<lambda>s. replicate (length (attempted cfg)) (package_subdir_of dir (name_only s)))
                 (valid_package_lines_of body))"
    unfolding dests_def c by (rule dests_commands_of)
  have k: "command_of dir (name_only s1) strategy (spec_for_pip_of s1) \<in> set (pip_commands (effects (snd r))) \<and>
        command_of dir (name_only s2) strategy (spec_for_pip_of s2) \<in> set (pip_commands (effects (snd r))) \<and>
        command_of dir (name_only s1) strategy (spec_for_pip_of s1) ! 3 =
          package_subdir_of dir (name_only s1) \<and>
        command_of dir (name_only s2) strategy (spec_for_pip_of s2) ! 3 =
          package_subdir_of dir (name_only s1)"
    if "strategy \<in> set (attempted cfg)" for strategy
    unfolding c command_of_nth3 p
    using mem_commands_of[OF assms(5) that] mem_commands_of[OF assms(6) that] by simp
  show ?thesis using c d attempted_not_Nil k m by blast
qed

theorem colliding_names_share_subdirectory_silently_witness:
  "''a.b'' \<in> set (valid_package_lines_of colliding_requirements) \<and>
   ''ab'' \<in> set (valid_package_lines_of colliding_requirements) \<and>
   name_only ''a.b'' \<noteq> name_only ''ab'' \<and>
   sanitize (name_only ''a.b'') = sanitize (name_only ''ab'') \<and>
   [] \<in> set (attempted source_config) \<and>
   [''pip'', ''download'', ''--dest'', ''wheels_offline/ab'', ''--disable-pip-version-check'', ''a.b'']
     \<in> set (pip_commands (effects (snd (main source_config
          (example_env colliding_requirements ok_world)
          ''requirements.txt'' ''wheels_offline'' False)))) \<and>
   [''pip'', ''download'', ''--dest'', ''wheels_offline/ab'', ''--disable-pip-version-check'', ''ab'']
     \<in> set (pip_commands (effects (snd (main source_config
          (example_env colliding_requirements ok_world)
          ''requirements.txt'' ''wheels_offline'' False)))) \<and>
   dests (effects (snd (main source_config (example_env colliding_requirements ok_world)
      ''requirements.txt'' ''wheels_offline'' False))) = replicate 86 ''wheels_offline/ab'' \<and>
   severe (log_records (snd (main source_config (example_env colliding_requirements ok_world)
      ''requirements.txt'' ''wheels_offline'' False))) = []"
proof -
  have e: "valid_package_lines_of colliding_requirements = [''a.b'', ''ab'']" by code_simp
  have n: "name_only ''a.b'' = ''a.b''" "name_only ''ab'' = ''ab''" by code_simp+
  have s: "sanitize ''a.b'' = ''ab''" "sanitize ''ab'' = ''ab''" by code_simp+
  have p: "package_subdir_of ''wheels_offline'' ''a.b'' = ''wheels_offline/ab''"
    "package_subdir_of ''wheels_offline'' ''ab'' = ''wheels_offline/ab''"
    by code_simp+
  have a: "[] \<in> set (attempted source_config)"
    by (simp add: attempted_def download_strategies_def)
  have l: "length (attempted source_config) = 43"
    by (simp add: attempted_def length_source_strategies)
  have k: "command_of ''wheels_offline'' ''a.b'' [] (spec_for_pip_of ''a.b'') =
      [''pip'', ''download'', ''--dest'', ''wheels_offline/ab'', ''--disable-pip-version-check'', ''a.b'']"
    "command_of ''wheels_offline'' ''ab'' [] (spec_for_pip_of ''ab'') =
      [''pip'', ''download'', ''--dest'', ''wheels_offline/ab'', ''--disable-pip-version-check'', ''ab'']"
    by code_simp+
  have u: "replicate 43 ''wheels_offline/ab'' @ replicate 43 ''wheels_offline/ab'' =
      replicate 86 ''wheels_offline/ab''"
    by (simp add: replicate_add[symmetric])
  note t = colliding_names_share_subdirectory_silently[where
        env="example_env colliding_requirements ok_world" and body=colliding_requirements and
        ?s1.0="''a.b''" and ?s2.0="''ab''" and cfg=source_config and dir="''wheels_offline''" and
        req="''requirements.txt''" and vb=False]
  have h: "''a.b'' \<in> set (valid_package_lines_of colliding_requirements)"
    "''ab'' \<in> set (valid_package_lines_of colliding_requirements)"
    "name_only ''a.b'' \<noteq> name_only ''ab''"
    "sanitize (name_only ''a.b'') = sanitize (name_only ''ab'')"
    "\<forall>k. attempt_ok (responses (example_env colliding_requirements ok_world) k) \<and>
         bat_append_ok (responses (example_env colliding_requirements ok_world) k) \<and>
         copy_quiet source_config (responses (example_env colliding_requirements ok_world) k)"
    by (simp_all add: e n s ok_world_def)
  note c = t[OF example_env_simps(1,2,3) h(1-5) example_env_simps(4,6)]
  have c1: "[''pip'', ''download'', ''--dest'', ''wheels_offline/ab'', ''--disable-pip-version-check'', ''a.b'']
     \<in> set (pip_commands (effects (snd (main source_config
          (example_env colliding_requirements ok_world)
          ''requirements.txt'' ''wheels_offline'' False))))"
    and c2: "[''pip'', ''download'', ''--dest'', ''wheels_offline/ab'', ''--disable-pip-version-check'', ''ab'']
     \<in> set (pip_commands (effects (snd (main source_config
          (example_env colliding_requirements ok_world)
          ''requirements.txt'' ''wheels_offline'' False))))"
    using c a unfolding n k[symmetric] by blast+
  have c3: "dests (effects (snd (main source_config (example_env colliding_requirements ok_world)
      ''requirements.txt'' ''wheels_offline'' False))) = replicate 86 ''wheels_offline/ab''"
    using c by (simp add: e n p l u)
  have c4: "severe (log_records (snd (main source_config (example_env colliding_requirements ok_world)
      ''requirements.txt'' ''wheels_offline'' False))) = []"
    using c by blast
  show ?thesis using h(1-4) a c1 c2 c3 c4 by blast
qed

text \<open>
  Claim C9 as stated fails on the requirements \<open>a.b\<close> and \<open>ab\<close>: the names differ, both
  sanitize to \<open>ab\<close>, all 86 fetches of the run download into \<open>wheels_offline/ab\<close>, and
  the run logs nothing at warning level or above.
\<close>

theorem collision_logs_no_warning:
  "valid_package_lines_of colliding_requirements = [''a.b'', ''ab''] \<and>
   name_only ''a.b'' \<noteq> name_only ''ab'' \<and>
   sanitize (name_only ''a.b'') = sanitize (name_only ''ab'') \<and>
   length (dests (effects (snd (main source_config (example_env colliding_requirements ok_world)
      ''requirements.txt'' ''wheels_offline'' False)))) = 86 \<and>
   set (dests (effects (snd (main source_config (example_env colliding_requirements ok_world)
      ''requirements.txt'' ''wheels_offline'' False)))) \<subseteq> {''wheels_offline/ab''} \<and>
   severe (log_records (snd (main source_config (example_env colliding_requirements ok_world)
      ''requirements.txt'' ''wheels_offline'' False))) = []"
proof -
  have e: "valid_package_lines_of colliding_requirements = [''a.b'', ''ab'']" by code_simp
  have n: "name_only ''a.b'' = ''a.b''" "name_only ''ab'' = ''ab''" by code_simp+
  have s: "sanitize ''a.b'' = ''ab''" "sanitize ''ab'' = ''ab''" by code_simp+
  have p: "package_subdir_of ''wheels_offline'' ''a.b'' = ''wheels_offline/ab''"
    "package_subdir_of ''wheels_offline'' ''ab'' = ''wheels_offline/ab''"
    by code_simp+
  have l: "length (attempted source_config) = 43"
    by (simp add: attempted_def length_source_strategies)
  have q: "\<forall>k. attempt_ok (responses (example_env colliding_requirements ok_world) k) \<and>
         bat_append_ok (responses (example_env colliding_requirements ok_world) k) \<and>
         copy_quiet source_config (responses (example_env colliding_requirements ok_world) k)"
    by (simp add: ok_world_def)
  define E where "E = effects (snd (main source_config (example_env colliding_requirements ok_world)
      ''requirements.txt'' ''wheels_offline'' False))"
  note m = main_run(8)[of "example_env colliding_requirements ok_world" colliding_requirements
      source_config "''requirements.txt''" "''wheels_offline''" False,
      OF example_env_simps(1,2,3) q example_env_simps(4,6), folded E_def]
  have c: "pip_commands E = commands_of source_config ''wheels_offline'' [''a.b'', ''ab'']"
    and v: "severe (log_records (snd (main source_config (example_env colliding_requirements ok_world)
      ''requirements.txt'' ''wheels_offline'' False))) = []"
    using m by (simp_all add: e)
  have d: "dests E = replicate 43 ''wheels_offline/ab'' @ replicate 43 ''wheels_offline/ab''"
    unfolding dests_def c dests_commands_of by (simp add: n p l)
  show ?thesis using d v unfolding E_def[symmetric] by (simp add: e n s)
qed

end
